theory Spec2Isabelle
  imports Complex_Main "HOL-Library.Word"
begin

unbundle bit_operations_syntax

section \<open>ECKD geometry: records per track\<close>

text \<open>
  The driver is \<^verbatim>\<open>drivers/s390/block/dasd_eckd.c\<close>. Its headers
  (\<^verbatim>\<open>dasd_int.h\<close>, \<^verbatim>\<open>dasd_eckd.h\<close>) are not part of the sources, so
  opcodes, flags and cache modes are modelled as datatypes (their numeric values
  are never needed) and the external helpers are parameters collected in a record.

  \<^verbatim>\<open>unsigned int\<close> is a 32-bit word, \<^verbatim>\<open>__u16\<close> a 16-bit word: sums wrap.
\<close>

type_synonym u16 = "16 word"
type_synonym u32 = "32 word"

text \<open>
  \<^verbatim>\<open>
  static inline unsigned int ceil_quot(unsigned int d1, unsigned int d2)
  { return (d1 + (d2 - 1)) / d2; }
  \<close>
\<close>

definition ceil_quot :: "u32 \<Rightarrow> u32 \<Rightarrow> u32" where
  "ceil_quot d1 d2 = (d1 + (d2 - 1)) div d2"

text \<open>
  \<^verbatim>\<open>recs_per_track(rdc, kl, dl)\<close>: a switch on \<^verbatim>\<open>rdc->dev_type\<close> (a \<^verbatim>\<open>__u16\<close>).
  The locals \<^verbatim>\<open>dn\<close>, \<^verbatim>\<open>kn\<close> are \<^verbatim>\<open>int\<close>; they hold values below \<open>2^25\<close>, and
  \<^verbatim>\<open>kl + 6 * kn\<close> is converted back to \<^verbatim>\<open>unsigned int\<close>, so the whole computation
  is 32-bit unsigned arithmetic.
\<close>

definition recs_per_track :: "u16 \<Rightarrow> u32 \<Rightarrow> u32 \<Rightarrow> u32" where
  "recs_per_track dev_type kl dl =
     (if dev_type = 0x3380 then
        (if kl \<noteq> 0
         then 1499 div (15 + 7 + ceil_quot (kl + 12) 32 + ceil_quot (dl + 12) 32)
         else 1499 div (15 + ceil_quot (dl + 12) 32))
      else if dev_type = 0x3390 then
        (let dn = ceil_quot (dl + 6) 232 + 1 in
         if kl \<noteq> 0
         then (let kn = ceil_quot (kl + 6) 232 + 1 in
               1729 div (10 + 9 + ceil_quot (kl + 6 * kn) 34 + 9 + ceil_quot (dl + 6 * dn) 34))
         else 1729 div (10 + 9 + ceil_quot (dl + 6 * dn) 34))
      else if dev_type = 0x9345 then
        (let dn = ceil_quot (dl + 6) 232 + 1 in
         if kl \<noteq> 0
         then (let kn = ceil_quot (kl + 6) 232 + 1 in
               1420 div (18 + 7 + ceil_quot (kl + 6 * kn) 34 + ceil_quot (dl + 6 * dn) 34))
         else 1420 div (18 + 7 + ceil_quot (dl + 6 * dn) 34))
      else 0)"

text \<open>
  The capacity formulas as the specification words them: over the unbounded
  naturals, with a true ceiling of the rational quotient and a truncating final
  division.
\<close>

definition ceil_frac :: "nat \<Rightarrow> nat \<Rightarrow> nat" where
  "ceil_frac a b = nat \<lceil>real a / real b\<rceil>"

definition capacity_formula :: "nat \<Rightarrow> nat \<Rightarrow> nat \<Rightarrow> nat" where
  "capacity_formula model kl dl =
     (if model = 0x3380 then
        (if kl \<noteq> 0
         then 1499 div (15 + 7 + ceil_frac (kl + 12) 32 + ceil_frac (dl + 12) 32)
         else 1499 div (15 + ceil_frac (dl + 12) 32))
      else if model = 0x3390 then
        (if kl \<noteq> 0
         then 1729 div (10 + 9 + ceil_frac (kl + 6 * (ceil_frac (kl + 6) 232 + 1)) 34
                        + 9 + ceil_frac (dl + 6 * (ceil_frac (dl + 6) 232 + 1)) 34)
         else 1729 div (10 + 9 + ceil_frac (dl + 6 * (ceil_frac (dl + 6) 232 + 1)) 34))
      else if model = 0x9345 then
        (if kl \<noteq> 0
         then 1420 div (18 + 7 + ceil_frac (kl + 6 * (ceil_frac (kl + 6) 232 + 1)) 34
                        + ceil_frac (dl + 6 * (ceil_frac (dl + 6) 232 + 1)) 34)
         else 1420 div (18 + 7 + ceil_frac (dl + 6 * (ceil_frac (dl + 6) 232 + 1)) 34))
      else 0)"

section \<open>Record layout of the compatible disk layout (CDL)\<close>

text \<open>
  \<^verbatim>\<open>
  static const int sizes_trk0[] = { 28, 148, 84 };
  #define LABEL_SIZE 140
  \<close>
  \<^verbatim>\<open>dasd_eckd_cdl_special(int blk_per_trk, int recid)\<close> and
  \<^verbatim>\<open>dasd_eckd_cdl_reclen(int recid)\<close> take C ints. Every call site passes
  non-negative values (an unsigned record id below \<open>2 * blk_per_trk\<close>, or the loop
  index 0..2), and a negative \<^verbatim>\<open>recid\<close> would read in front of the table, so the
  parameters are naturals here.
\<close>

definition sizes_trk0 :: "nat list" where
  "sizes_trk0 = [28, 148, 84]"

definition LABEL_SIZE :: nat where
  "LABEL_SIZE = 140"

definition dasd_eckd_cdl_special :: "nat \<Rightarrow> nat \<Rightarrow> bool" where
  "dasd_eckd_cdl_special blk_per_trk recid =
     (if recid < 3 then True
      else if recid < blk_per_trk then False
      else if recid < 2 * blk_per_trk then True
      else False)"

definition dasd_eckd_cdl_reclen :: "nat \<Rightarrow> nat" where
  "dasd_eckd_cdl_reclen recid = (if recid < 3 then sizes_trk0 ! recid else LABEL_SIZE)"


section \<open>Errors, opcodes, channel command words\<close>

text \<open>
  The errno values the driver returns or tests for. A function that returns
  \<^verbatim>\<open>int rc\<close> returns \<open>errno option\<close> here (\<open>None\<close> is 0); a function that
  returns a pointer or \<^verbatim>\<open>ERR_PTR(-e)\<close> returns an \<open>outcome\<close>. \<open>Fault\<close> stands for
  the integer division by zero the C code runs into on a device without heads or
  without a capacity formula: the kernel does not return from it.
\<close>

datatype errno = EINVAL | EAGAIN | EBUSY | ENOMEM | EMEDIUMTYPE | ENOSYS | EACCES | EIO

datatype 'a outcome = Fault | Err errno | Ok 'a

text \<open>The \<^verbatim>\<open>DASD_ECKD_CCW_*\<close> opcodes of \<^verbatim>\<open>dasd_eckd.h\<close>.\<close>

datatype eckd_cmd =
    CCW_WRITE | CCW_READ | CCW_WRITE_HOME_ADDRESS | CCW_READ_HOME_ADDRESS
  | CCW_WRITE_KD | CCW_READ_KD | CCW_ERASE | CCW_READ_COUNT
  | CCW_WRITE_RECORD_ZERO | CCW_READ_RECORD_ZERO | CCW_WRITE_CKD | CCW_READ_CKD
  | CCW_LOCATE_RECORD | CCW_DEFINE_EXTENT | CCW_WRITE_MT | CCW_READ_MT
  | CCW_WRITE_KD_MT | CCW_READ_KD_MT | CCW_WRITE_CKD_MT | CCW_READ_CKD_MT
  | CCW_PFX | CCW_OTHER nat

text \<open>
  \<^verbatim>\<open>rcmd |= 0x8\<close>. The comment above \<^verbatim>\<open>dasd_eckd_cdl_special\<close> says what the bit
  does: it turns \<^verbatim>\<open>READ_MT\<close> into \<^verbatim>\<open>READ_KD_MT\<close> and \<^verbatim>\<open>WRITE_MT\<close> into
  \<^verbatim>\<open>WRITE_KD_MT\<close> (and likewise the single-track opcodes). \<^verbatim>\<open>build_cp\<close> applies it
  to \<^verbatim>\<open>READ_MT\<close> and \<^verbatim>\<open>WRITE_MT\<close> only.
\<close>

fun set_kd_bit :: "eckd_cmd \<Rightarrow> eckd_cmd" where
  "set_kd_bit CCW_READ_MT = CCW_READ_KD_MT"
| "set_kd_bit CCW_WRITE_MT = CCW_WRITE_KD_MT"
| "set_kd_bit CCW_READ = CCW_READ_KD"
| "set_kd_bit CCW_WRITE = CCW_WRITE_KD"
| "set_kd_bit c = c"

datatype ccw_flag = CCW_FLAG_CC | CCW_FLAG_SLI | CCW_FLAG_IDA

text \<open>
  What \<^verbatim>\<open>ccw->cda\<close> points at: the request's define-extent or prefix payload, one
  of its locate-record payloads, a word of its indirection list, a count field,
  or memory outside the request.
\<close>

datatype cda_ref =
    To_payload | To_LO nat | To_idaws nat | To_ect nat | To_mem nat

record ccw1 =
  cmd_code :: eckd_cmd
  flags :: "ccw_flag set"
  ccw_count :: nat
  cda :: cda_ref

text \<open>\<^verbatim>\<open>DASD_NORMAL_CACHE\<close> is the zero value of the 3-bit cache mode.\<close>

datatype cache_op =
    DASD_NORMAL_CACHE | DASD_BYPASS_CACHE | DASD_INHIBIT_LOAD
  | DASD_SEQ_ACCESS | DASD_SEQ_PRESTAGE | DASD_REC_ACCESS

record DE_eckd_data =
  mask_perm :: nat
  mask_auth :: nat
  attr_operation :: cache_op
  attr_mode :: nat
  ga_extended :: "8 word"
  beg_ext_cyl :: u16
  beg_ext_head :: u16
  end_ext_cyl :: u16
  end_ext_head :: u16
  ep_sys_time :: "64 word"

definition DE_zero :: DE_eckd_data where
  "DE_zero = \<lparr>mask_perm = 0, mask_auth = 0, attr_operation = DASD_NORMAL_CACHE,
              attr_mode = 0, ga_extended = 0, beg_ext_cyl = 0, beg_ext_head = 0,
              end_ext_cyl = 0, end_ext_head = 0, ep_sys_time = 0\<rparr>"

record LO_eckd_data =
  lo_sector :: "8 word"
  lo_count :: "8 word"
  lo_orientation :: nat
  lo_operation :: nat
  lo_last_bytes_used :: nat
  lo_length :: u16
  seek_cyl :: u16
  seek_head :: u16
  search_cyl :: u16
  search_head :: u16
  search_record :: "8 word"

definition LO_zero :: LO_eckd_data where
  "LO_zero = \<lparr>lo_sector = 0, lo_count = 0, lo_orientation = 0, lo_operation = 0,
              lo_last_bytes_used = 0, lo_length = 0, seek_cyl = 0, seek_head = 0,
              search_cyl = 0, search_head = 0, search_record = 0\<rparr>"

record PFX_eckd_data =
  pfx_format :: nat
  pfx_base_address :: nat
  pfx_base_lss :: nat
  validity_define_extend :: bool
  validity_verify_base :: bool
  validity_hyper_pav :: bool
  validity_time_stamp :: bool
  define_extend :: DE_eckd_data

record eckd_count =
  ec_cyl :: u16
  ec_head :: u16
  ec_record :: "8 word"
  ec_kl :: "8 word"
  ec_dl :: u16

section \<open>Devices and the helpers outside the driver\<close>

datatype cqr_status = DASD_CQR_FILLED | DASD_CQR_DONE | DASD_CQR_OTHER nat

datatype ua_type = UA_BASE_DEVICE | UA_BASE_PAV_ALIAS | UA_HYPER_PAV_ALIAS

text \<open>
  \<^verbatim>\<open>struct dasd_eckd_private\<close>, the fields the functions below read or write.
  \<open>init_cqr_status = None\<close> is the C value \<open>-1\<close>; \<open>feature_prefix\<close> is
  \<^verbatim>\<open>features.feature[8] & 0x01\<close>; \<open>count_area\<close> is the array of five count fields.
\<close>

record eckd_private =
  rdc_dev_type :: u16
  rdc_cu_type :: u16
  rdc_no_cyl :: u16
  rdc_trk_per_cyl :: u16
  XRC_supported :: bool
  uses_cdl :: bool
  attrib_operation :: cache_op
  attrib_nr_cyl :: u16
  feature_prefix :: bool
  uid_type :: ua_type
  ned_unit_addr :: nat
  ned_ID :: nat
  init_cqr_status :: "cqr_status option"
  count_area :: "eckd_count list"
  priv_count :: int

record dasd_block =
  base :: nat
  bp_block :: nat
  s2b_shift :: nat
  blocks :: nat

text \<open>
  \<^verbatim>\<open>rc = get_sync_clock(&data->ep_sys_time)\<close> calls architecture code outside the
  sources. It is a parameter: the code it returns (\<open>None\<close> is 0) and the value it
  stores in the field it is given, if it stores one; whether it stores when it
  fails is left open.
\<close>

type_synonym sync_clock = "errno option \<times> 64 word option"

text \<open>
  The collaborators that are not in the sources, as parameters:
  the sync clock, the request allocator \<^verbatim>\<open>dasd_smalloc_request\<close> (its failure,
  if any, for a given \<^verbatim>\<open>cplength\<close> and \<^verbatim>\<open>datasize\<close>), the global
  \<^verbatim>\<open>dasd_page_cache\<close> and the result of the k-th \<^verbatim>\<open>kmem_cache_alloc\<close> from it,
  \<^verbatim>\<open>idal_is_needed\<close> and the words \<^verbatim>\<open>idal_create_words\<close> appends,
  \<^verbatim>\<open>dasd_alias_get_start_dev\<close>, \<^verbatim>\<open>dasd_check_blocksize\<close> (true when it returns 0),
  the structure sizes and the configuration switch \<^verbatim>\<open>CONFIG_64BIT\<close>.
\<close>

record externals =
  get_sync_clock :: sync_clock
  smalloc_error :: "nat \<Rightarrow> nat \<Rightarrow> errno option"
  dasd_page_cache :: bool
  kmem_cache_alloc :: "nat \<Rightarrow> nat option"
  idal_is_needed :: "nat \<Rightarrow> nat \<Rightarrow> bool"
  idal_create_words :: "nat \<Rightarrow> nat \<Rightarrow> nat list"
  dasd_alias_get_start_dev :: "nat \<Rightarrow> nat option"
  dasd_check_blocksize :: "int \<Rightarrow> bool"
  sizeof_DE :: nat
  sizeof_LO :: nat
  sizeof_PFX :: nat
  sizeof_eckd_count :: nat
  sizeof_long :: nat
  CONFIG_64BIT :: bool

text \<open>C integer division and remainder: the quotient is truncated towards zero.\<close>

definition c_div :: "int \<Rightarrow> int \<Rightarrow> int" where
  "c_div a b = sgn a * sgn b * (\<bar>a\<bar> div \<bar>b\<bar>)"

definition c_mod :: "int \<Rightarrow> int \<Rightarrow> int" where
  "c_mod a b = a - b * c_div a b"

text \<open>An unsigned 64-bit value (\<^verbatim>\<open>sector_t\<close>) or an \<^verbatim>\<open>unsigned int\<close> passed as \<^verbatim>\<open>int\<close>.\<close>

definition to_int :: "nat \<Rightarrow> int" where
  "to_int n = sint (word_of_nat n :: 32 word)"

section \<open>Define extent\<close>

text \<open>
  \<^verbatim>\<open>check_XRC(de_ccw, data, device)\<close>: without XRC support nothing happens.
  Otherwise the two flag bits are set, the clock is read into
  \<^verbatim>\<open>data->ep_sys_time\<close>, \<^verbatim>\<open>-ENOSYS\<close> and \<^verbatim>\<open>-EACCES\<close> are turned into 0, and the
  CCW gets the full structure size and the SLI flag.
\<close>

definition check_XRC ::
  "externals \<Rightarrow> eckd_private \<Rightarrow> ccw1 \<Rightarrow> DE_eckd_data \<Rightarrow> errno option \<times> ccw1 \<times> DE_eckd_data" where
  "check_XRC x private de_ccw data =
     (if \<not> XRC_supported private then (None, de_ccw, data)
      else
        let data1 = data\<lparr>ga_extended := (ga_extended data OR 0x08) OR 0x02\<rparr>;
            data2 = (case snd (get_sync_clock x) of
                       Some t \<Rightarrow> data1\<lparr>ep_sys_time := t\<rparr>
                     | None \<Rightarrow> data1);
            rc = fst (get_sync_clock x);
            rc' = (if rc = Some ENOSYS \<or> rc = Some EACCES then None else rc)
        in (rc', de_ccw\<lparr>flags := insert CCW_FLAG_SLI (flags de_ccw), ccw_count := sizeof_DE x\<rparr>,
            data2))"

text \<open>
  The \<^verbatim>\<open>switch (cmd)\<close> of \<^verbatim>\<open>define_extent\<close>, on the zeroed payload: four groups
  of opcodes and the default, which only logs.
\<close>

definition de_switch ::
  "externals \<Rightarrow> eckd_private \<Rightarrow> eckd_cmd \<Rightarrow> ccw1 \<Rightarrow> DE_eckd_data
     \<Rightarrow> errno option \<times> ccw1 \<times> DE_eckd_data" where
  "de_switch x private cmd ccw data =
     (if cmd \<in> {CCW_READ_HOME_ADDRESS, CCW_READ_RECORD_ZERO, CCW_READ, CCW_READ_MT,
                 CCW_READ_CKD, CCW_READ_CKD_MT, CCW_READ_KD, CCW_READ_KD_MT, CCW_READ_COUNT}
      then (None, ccw, data\<lparr>mask_perm := 0x1, attr_operation := attrib_operation private\<rparr>)
      else if cmd \<in> {CCW_WRITE, CCW_WRITE_MT, CCW_WRITE_KD, CCW_WRITE_KD_MT}
      then check_XRC x private ccw
             (data\<lparr>mask_perm := 0x02, attr_operation := attrib_operation private\<rparr>)
      else if cmd \<in> {CCW_WRITE_CKD, CCW_WRITE_CKD_MT}
      then check_XRC x private ccw (data\<lparr>attr_operation := DASD_BYPASS_CACHE\<rparr>)
      else if cmd \<in> {CCW_ERASE, CCW_WRITE_HOME_ADDRESS, CCW_WRITE_RECORD_ZERO}
      then check_XRC x private ccw
             (data\<lparr>mask_perm := 0x3, mask_auth := 0x1, attr_operation := DASD_BYPASS_CACHE\<rparr>)
      else (None, ccw, data))"

text \<open>
  The geometry part shared by \<^verbatim>\<open>define_extent\<close> and \<^verbatim>\<open>prefix\<close>:
  \<^verbatim>\<open>struct ch_t geo, beg, end\<close> have 16-bit fields; \<^verbatim>\<open>trk\<close> and \<^verbatim>\<open>totrk\<close> are
  \<^verbatim>\<open>int\<close>. The comparison \<^verbatim>\<open>end.cyl + nr_cyl < geo.cyl\<close> is done on promoted ints.
\<close>

definition de_end_cyl :: "eckd_private \<Rightarrow> cache_op \<Rightarrow> int \<Rightarrow> u16" where
  "de_end_cyl private operation totrk =
     (let geo_cyl = rdc_no_cyl private;
          geo_head = rdc_trk_per_cyl private;
          end_cyl = (word_of_int (c_div totrk (uint geo_head)) :: u16)
      in if operation = DASD_SEQ_PRESTAGE \<or> operation = DASD_SEQ_ACCESS
         then (if uint end_cyl + uint (attrib_nr_cyl private) < uint geo_cyl
               then end_cyl + attrib_nr_cyl private
               else geo_cyl - 1)
         else end_cyl)"

definition de_geometry :: "eckd_private \<Rightarrow> int \<Rightarrow> int \<Rightarrow> DE_eckd_data \<Rightarrow> DE_eckd_data" where
  "de_geometry private trk totrk data =
     (let geo_head = rdc_trk_per_cyl private
      in data\<lparr>beg_ext_cyl := word_of_int (c_div trk (uint geo_head)),
               beg_ext_head := word_of_int (c_mod trk (uint geo_head)),
               end_ext_cyl := de_end_cyl private (attr_operation data) totrk,
               end_ext_head := word_of_int (c_mod totrk (uint geo_head))\<rparr>)"

definition de_format_mode :: "eckd_private \<Rightarrow> int \<Rightarrow> DE_eckd_data \<Rightarrow> DE_eckd_data" where
  "de_format_mode private trk data =
     (if (rdc_cu_type private = 0x2105 \<or> rdc_cu_type private = 0x2107
          \<or> rdc_cu_type private = 0x1750)
         \<and> \<not> (uses_cdl private \<and> trk < 2)
      then data\<lparr>ga_extended := ga_extended data OR 0x40\<rparr> else data)"

text \<open>
  \<^verbatim>\<open>define_extent(ccw, data, trk, totrk, cmd, device)\<close> returns \<^verbatim>\<open>rc\<close> and leaves the
  CCW and the payload behind. \<open>None\<close>: the device has zero tracks per cylinder
  and \<^verbatim>\<open>trk / geo.head\<close> traps.
\<close>

definition define_extent ::
  "externals \<Rightarrow> eckd_private \<Rightarrow> int \<Rightarrow> int \<Rightarrow> eckd_cmd
     \<Rightarrow> (errno option \<times> ccw1 \<times> DE_eckd_data) option" where
  "define_extent x private trk totrk cmd =
     (let ccw = \<lparr>cmd_code = CCW_DEFINE_EXTENT, flags = {}, ccw_count = 16, cda = To_payload\<rparr>;
          (rc, ccw1, data1) = de_switch x private cmd ccw DE_zero;
          data2 = de_format_mode private trk (data1\<lparr>attr_mode := 0x3\<rparr>)
      in if rdc_trk_per_cyl private = 0 then None
         else Some (rc, ccw1, de_geometry private trk totrk data2))"


section \<open>Prefix and locate record\<close>

definition check_XRC_on_prefix ::
  "externals \<Rightarrow> eckd_private \<Rightarrow> PFX_eckd_data \<Rightarrow> errno option \<times> PFX_eckd_data" where
  "check_XRC_on_prefix x private pfxdata =
     (if \<not> XRC_supported private then (None, pfxdata)
      else
        let de = define_extend pfxdata;
            de1 = de\<lparr>ga_extended := (ga_extended de OR 0x08) OR 0x02\<rparr>;
            de2 = (case snd (get_sync_clock x) of
                     Some t \<Rightarrow> de1\<lparr>ep_sys_time := t\<rparr>
                   | None \<Rightarrow> de1);
            rc = fst (get_sync_clock x);
            rc' = (if rc = Some ENOSYS \<or> rc = Some EACCES then None else rc)
        in (rc', pfxdata\<lparr>validity_time_stamp := True, define_extend := de2\<rparr>))"

definition pfx_switch ::
  "externals \<Rightarrow> eckd_private \<Rightarrow> eckd_cmd \<Rightarrow> PFX_eckd_data \<Rightarrow> errno option \<times> PFX_eckd_data" where
  "pfx_switch x basepriv cmd pfxdata =
     (let data = define_extend pfxdata in
      if cmd \<in> {CCW_READ_HOME_ADDRESS, CCW_READ_RECORD_ZERO, CCW_READ, CCW_READ_MT,
                 CCW_READ_CKD, CCW_READ_CKD_MT, CCW_READ_KD, CCW_READ_KD_MT, CCW_READ_COUNT}
      then (None, pfxdata\<lparr>define_extend :=
              data\<lparr>mask_perm := 0x1, attr_operation := attrib_operation basepriv\<rparr>\<rparr>)
      else if cmd \<in> {CCW_WRITE, CCW_WRITE_MT, CCW_WRITE_KD, CCW_WRITE_KD_MT}
      then check_XRC_on_prefix x basepriv (pfxdata\<lparr>define_extend :=
              data\<lparr>mask_perm := 0x02, attr_operation := attrib_operation basepriv\<rparr>\<rparr>)
      else if cmd \<in> {CCW_WRITE_CKD, CCW_WRITE_CKD_MT}
      then check_XRC_on_prefix x basepriv (pfxdata\<lparr>define_extend :=
              data\<lparr>attr_operation := DASD_BYPASS_CACHE\<rparr>\<rparr>)
      else if cmd \<in> {CCW_ERASE, CCW_WRITE_HOME_ADDRESS, CCW_WRITE_RECORD_ZERO}
      then check_XRC_on_prefix x basepriv (pfxdata\<lparr>define_extend :=
              data\<lparr>mask_perm := 0x3, mask_auth := 0x1, attr_operation := DASD_BYPASS_CACHE\<rparr>\<rparr>)
      else (None, pfxdata))"

text \<open>
  \<^verbatim>\<open>prefix(ccw, pfxdata, trk, totrk, cmd, basedev, startdev)\<close>. \<open>None\<close>: the base
  device has zero tracks per cylinder.
\<close>

definition prefix ::
  "externals \<Rightarrow> eckd_private \<Rightarrow> eckd_private \<Rightarrow> int \<Rightarrow> int \<Rightarrow> eckd_cmd
     \<Rightarrow> (errno option \<times> ccw1 \<times> PFX_eckd_data) option" where
  "prefix x basepriv startpriv trk totrk cmd =
     (let ccw = \<lparr>cmd_code = CCW_PFX, flags = {}, ccw_count = sizeof_PFX x, cda = To_payload\<rparr>;
          pfx0 = \<lparr>pfx_format = 0, pfx_base_address = ned_unit_addr basepriv,
                  pfx_base_lss = ned_ID basepriv, validity_define_extend = True,
                  validity_verify_base = (uid_type startpriv \<noteq> UA_BASE_DEVICE),
                  validity_hyper_pav = (uid_type startpriv = UA_HYPER_PAV_ALIAS),
                  validity_time_stamp = False, define_extend = DE_zero\<rparr>;
          (rc, pfx1) = pfx_switch x basepriv cmd pfx0;
          data2 = de_format_mode basepriv trk ((define_extend pfx1)\<lparr>attr_mode := 0x3\<rparr>)
      in if rdc_trk_per_cyl basepriv = 0 then None
         else Some (rc, ccw, pfx1\<lparr>define_extend := de_geometry basepriv trk totrk data2\<rparr>))"

text \<open>
  The sector hint of \<^verbatim>\<open>locate_record\<close>: \<^verbatim>\<open>reclen\<close>, \<^verbatim>\<open>dn\<close> and \<^verbatim>\<open>d\<close> are ints, the
  arguments of \<^verbatim>\<open>ceil_quot\<close> are converted to \<^verbatim>\<open>unsigned int\<close>.
\<close>

definition lo_sector_hint :: "eckd_private \<Rightarrow> int \<Rightarrow> int \<Rightarrow> int" where
  "lo_sector_hint private rec_on_trk reclen =
     (if rec_on_trk \<noteq> 0 then
        (if rdc_dev_type private = 0x3390 then
           (let dn = sint (ceil_quot (word_of_int (reclen + 6)) 232);
                d = sint (9 + ceil_quot (word_of_int (reclen + 6 * (dn + 1))) 34)
            in c_div (49 + (rec_on_trk - 1) * (10 + d)) 8)
         else if rdc_dev_type private = 0x3380 then
           (let d = sint (7 + ceil_quot (word_of_int (reclen + 12)) 32)
            in c_div (39 + (rec_on_trk - 1) * (8 + d)) 7)
         else 0)
      else 0)"

definition lo_switch :: "eckd_cmd \<Rightarrow> int \<Rightarrow> LO_eckd_data \<Rightarrow> LO_eckd_data" where
  "lo_switch cmd reclen data =
     (if cmd = CCW_WRITE_HOME_ADDRESS
      then data\<lparr>lo_orientation := 0x3, lo_operation := 0x03\<rparr>
      else if cmd = CCW_READ_HOME_ADDRESS
      then data\<lparr>lo_orientation := 0x3, lo_operation := 0x16\<rparr>
      else if cmd = CCW_WRITE_RECORD_ZERO
      then data\<lparr>lo_orientation := 0x1, lo_operation := 0x03, lo_count := lo_count data + 1\<rparr>
      else if cmd = CCW_READ_RECORD_ZERO
      then data\<lparr>lo_orientation := 0x3, lo_operation := 0x16, lo_count := lo_count data + 1\<rparr>
      else if cmd \<in> {CCW_WRITE, CCW_WRITE_MT, CCW_WRITE_KD, CCW_WRITE_KD_MT}
      then data\<lparr>lo_last_bytes_used := 0x1, lo_length := word_of_int reclen, lo_operation := 0x01\<rparr>
      else if cmd \<in> {CCW_WRITE_CKD, CCW_WRITE_CKD_MT}
      then data\<lparr>lo_last_bytes_used := 0x1, lo_length := word_of_int reclen, lo_operation := 0x03\<rparr>
      else if cmd \<in> {CCW_READ, CCW_READ_MT, CCW_READ_KD, CCW_READ_KD_MT}
      then data\<lparr>lo_last_bytes_used := 0x1, lo_length := word_of_int reclen, lo_operation := 0x06\<rparr>
      else if cmd \<in> {CCW_READ_CKD, CCW_READ_CKD_MT}
      then data\<lparr>lo_last_bytes_used := 0x1, lo_length := word_of_int reclen, lo_operation := 0x16\<rparr>
      else if cmd = CCW_READ_COUNT
      then data\<lparr>lo_operation := 0x06\<rparr>
      else if cmd = CCW_ERASE
      then data\<lparr>lo_length := word_of_int reclen, lo_last_bytes_used := 0x1, lo_operation := 0x0b\<rparr>
      else data)"

text \<open>
  \<^verbatim>\<open>locate_record(ccw, data, trk, rec_on_trk, no_rec, cmd, device, reclen)\<close>; the
  caller says which payload slot \<^verbatim>\<open>data\<close> is. It divides by the device's tracks
  per cylinder; its callers below have checked that this is not zero.
\<close>

definition locate_record ::
  "eckd_private \<Rightarrow> nat \<Rightarrow> int \<Rightarrow> int \<Rightarrow> int \<Rightarrow> eckd_cmd \<Rightarrow> int \<Rightarrow> ccw1 \<times> LO_eckd_data" where
  "locate_record private slot trk rec_on_trk no_rec cmd reclen =
     (let ccw = \<lparr>cmd_code = CCW_LOCATE_RECORD, flags = {}, ccw_count = 16, cda = To_LO slot\<rparr>;
          data0 = LO_zero\<lparr>lo_sector := word_of_int (lo_sector_hint private rec_on_trk reclen),
                          lo_count := word_of_int no_rec\<rparr>;
          data1 = lo_switch cmd reclen data0;
          heads = uint (rdc_trk_per_cyl private)
      in (ccw, data1\<lparr>seek_cyl := word_of_int (c_div trk heads),
                      search_cyl := word_of_int (c_div trk heads),
                      seek_head := word_of_int (c_mod trk heads),
                      search_head := word_of_int (c_mod trk heads),
                      search_record := word_of_int rec_on_trk\<rparr>))"

section \<open>Requests and kernel state\<close>

datatype cqr_payload = DE_payload DE_eckd_data | PFX_payload PFX_eckd_data

text \<open>
  \<^verbatim>\<open>struct dasd_ccw_req\<close>: the channel program \<open>cpaddr\<close> in order, and the data
  area split into its parts (define-extent or prefix payload, locate-record
  payloads, indirection words, count fields). Time stamps, expiry and path
  masks are left out.
\<close>

record dasd_ccw_req =
  cpaddr :: "ccw1 list"
  payload :: cqr_payload
  lo_data :: "LO_eckd_data list"
  idaws :: "nat list"
  ects :: "eckd_count list"
  cplength :: nat
  datasize :: nat
  startdev :: nat
  memdev :: nat
  cqr_block :: "dasd_block option"
  retries :: nat
  status :: cqr_status
  failfast :: bool

text \<open>
  The state the build functions work on: the private data of each device
  (by device number), byte-addressed memory, the number of requests currently
  allocated by \<^verbatim>\<open>dasd_smalloc_request\<close> and not yet given back by
  \<^verbatim>\<open>dasd_sfree_request\<close> (both outside the sources), and the requests
  queued on each device.
\<close>

record kstate =
  privs :: "nat \<Rightarrow> eckd_private"
  mem :: "nat \<Rightarrow> 8 word"
  chunks :: nat
  ccw_queue :: "nat \<Rightarrow> dasd_ccw_req list"

definition memset :: "(nat \<Rightarrow> 8 word) \<Rightarrow> nat \<Rightarrow> 8 word \<Rightarrow> nat \<Rightarrow> (nat \<Rightarrow> 8 word)" where
  "memset m dst v n = (\<lambda>a. if dst \<le> a \<and> a < dst + n then v else m a)"

definition memcpy :: "(nat \<Rightarrow> 8 word) \<Rightarrow> nat \<Rightarrow> nat \<Rightarrow> nat \<Rightarrow> (nat \<Rightarrow> 8 word)" where
  "memcpy m dst src n = (\<lambda>a. if dst \<le> a \<and> a < dst + n then m (src + (a - dst)) else m a)"

text \<open>\<^verbatim>\<open>ccw[-1].flags |= CCW_FLAG_CC\<close>, on a program kept newest CCW first.\<close>

fun chain_cc :: "ccw1 list \<Rightarrow> ccw1 list" where
  "chain_cc [] = []"
| "chain_cc (c # cs) = c\<lparr>flags := insert CCW_FLAG_CC (flags c)\<rparr> # cs"


section \<open>Building the channel program of a block request\<close>

text \<open>
  \<^verbatim>\<open>rq_data_dir(req)\<close>, the start sector and sector count (both 64-bit), the
  segments \<^verbatim>\<open>rq_for_each_segment\<close> walks, and \<^verbatim>\<open>blk_noretry_request(req)\<close>.
  A segment is the address of its page, the offset in it and its length.
\<close>

datatype data_dir = READ | WRITE | DIR_OTHER

record bio_vec =
  bv_page :: nat
  bv_offset :: nat
  bv_len :: nat

record request =
  rq_data_dir :: data_dir
  sector :: nat
  nr_sectors :: nat
  segs :: "bio_vec list"
  noretry :: bool

text \<open>
  The first walk over the segments: \<^verbatim>\<open>bv_len & (blksize - 1)\<close> on unsigned ints
  (so \<open>blksize - 1\<close> wraps for a zero block size), the block count and the count of
  indirection words.
\<close>

fun count_segments ::
  "externals \<Rightarrow> nat \<Rightarrow> nat \<Rightarrow> bio_vec list \<Rightarrow> nat \<times> nat \<Rightarrow> (nat \<times> nat) option" where
  "count_segments x blksz shift [] acc = Some acc"
| "count_segments x blksz shift (bv # bvs) (cnt, cidaw) =
     (if bv_len bv AND ((blksz + (2 ^ 32 - 1)) mod 2 ^ 32) \<noteq> 0 then None
      else count_segments x blksz shift bvs
             (cnt + drop_bit (shift + 9) (bv_len bv),
              if CONFIG_64BIT x \<and> idal_is_needed x (bv_page bv) (bv_len bv)
              then cidaw + drop_bit (shift + 9) (bv_len bv) else cidaw))"

record cp_geometry =
  g_cmd :: eckd_cmd
  g_blksize :: nat
  g_blk_per_trk :: nat
  g_first_rec :: nat
  g_first_trk :: nat
  g_first_offs :: nat
  g_last_rec :: nat
  g_last_trk :: nat
  g_count :: nat
  g_cidaw :: nat

text \<open>
  \<^verbatim>\<open>dasd_eckd_build_cp\<close> up to the "Paranoia" check. \<^verbatim>\<open>sector_div\<close> divides by
  \<^verbatim>\<open>blk_per_trk\<close>, which is 0 for a device type without a formula.
\<close>

definition cp_validate ::
  "externals \<Rightarrow> eckd_private \<Rightarrow> dasd_block \<Rightarrow> request \<Rightarrow> cp_geometry outcome" where
  "cp_validate x private block req =
     (if rq_data_dir req \<noteq> READ \<and> rq_data_dir req \<noteq> WRITE then Err EINVAL
      else
        let cmd = (if rq_data_dir req = READ then CCW_READ_MT else CCW_WRITE_MT);
            blksz = bp_block block;
            blk_per_trk = unat (recs_per_track (rdc_dev_type private) 0 (word_of_nat blksz))
        in if blk_per_trk = 0 then Fault
           else
             let first_rec = drop_bit (s2b_shift block) (sector req);
                 last_rec = drop_bit (s2b_shift block)
                              ((sector req + nr_sectors req + (2 ^ 64 - 1)) mod 2 ^ 64)
             in case count_segments x blksz (s2b_shift block) (segs req) (0, 0) of
                  None \<Rightarrow> Err EINVAL
                | Some (cnt, cidaw) \<Rightarrow>
                    if cnt \<noteq> (last_rec + 2 ^ 64 - first_rec + 1) mod 2 ^ 64 then Err EINVAL
                    else Ok \<lparr>g_cmd = cmd, g_blksize = blksz, g_blk_per_trk = blk_per_trk,
                             g_first_rec = first_rec,
                             g_first_trk = first_rec div blk_per_trk,
                             g_first_offs = first_rec mod blk_per_trk,
                             g_last_rec = last_rec,
                             g_last_trk = last_rec div blk_per_trk,
                             g_count = cnt, g_cidaw = cidaw\<rparr>)"

text \<open>\<^verbatim>\<open>cplength\<close> and \<^verbatim>\<open>datasize\<close>, with the extra locate records of a CDL volume.\<close>

definition cp_sizes :: "externals \<Rightarrow> eckd_private \<Rightarrow> cp_geometry \<Rightarrow> nat \<times> nat" where
  "cp_sizes x private g =
     (let cpl = 2 + g_count g;
          dsz = (if feature_prefix private then sizeof_PFX x else sizeof_DE x)
                + sizeof_LO x + g_cidaw g * sizeof_long x
      in if uses_cdl private \<and> g_first_rec g < 2 * g_blk_per_trk g
         then (let cnt = (if g_last_rec g \<ge> 2 * g_blk_per_trk g
                          then 2 * g_blk_per_trk g - g_first_rec g else g_count g)
               in (cpl + cnt, dsz + cnt * sizeof_LO x))
         else (cpl, dsz))"

text \<open>The first CCW: prefix on the base device if available, else define extent on the start device.\<close>

definition cp_first_ccw ::
  "externals \<Rightarrow> eckd_private \<Rightarrow> eckd_private \<Rightarrow> cp_geometry
     \<Rightarrow> (errno option \<times> ccw1 \<times> cqr_payload) option" where
  "cp_first_ccw x private startpriv g =
     (if feature_prefix private
      then (case prefix x private startpriv (to_int (g_first_trk g)) (to_int (g_last_trk g)) (g_cmd g) of
              None \<Rightarrow> None
            | Some (rc, ccw, pfx) \<Rightarrow> Some (rc, ccw, PFX_payload pfx))
      else (case define_extent x startpriv (to_int (g_first_trk g)) (to_int (g_last_trk g)) (g_cmd g) of
              None \<Rightarrow> None
            | Some (rc, ccw, de) \<Rightarrow> Some (rc, ccw, DE_payload de)))"

text \<open>
  The state of the second walk: the program so far (newest CCW first), the
  locate-record payloads, the indirection words, \<^verbatim>\<open>recid\<close> and memory.
\<close>

record cp_state =
  cp_ccws :: "ccw1 list"
  cp_LO :: "LO_eckd_data list"
  cp_idaws :: "nat list"
  cp_recid :: nat
  cp_mem :: "nat \<Rightarrow> 8 word"

record cp_ctx =
  cx_ext :: externals
  cx_private :: eckd_private
  cx_cmd :: eckd_cmd
  cx_dir :: data_dir
  cx_blksize :: nat
  cx_blk_per_trk :: nat
  cx_last_rec :: nat

text \<open>\<^verbatim>\<open>ccw[-1].flags |= CCW_FLAG_CC; locate_record(ccw++, LO_data++, ...)\<close>\<close>

definition add_locate ::
  "eckd_private \<Rightarrow> int \<Rightarrow> int \<Rightarrow> int \<Rightarrow> eckd_cmd \<Rightarrow> int \<Rightarrow> cp_state \<Rightarrow> cp_state" where
  "add_locate private trk rec_on_trk no_rec cmd reclen s =
     (let (ccw, lo) = locate_record private (length (cp_LO s)) trk rec_on_trk no_rec cmd reclen
      in s\<lparr>cp_ccws := ccw # chain_cc (cp_ccws s), cp_LO := cp_LO s @ [lo]\<rparr>)"

text \<open>
  Whether the block \<^verbatim>\<open>recid\<close> is transferred as a CDL special record, and the
  \<^verbatim>\<open>rcmd\<close> and \<^verbatim>\<open>count\<close> its data CCW gets (the body of the inner loop up to the
  \<^verbatim>\<open>memset\<close>).
\<close>

definition cp_special :: "bool \<Rightarrow> nat \<Rightarrow> nat \<Rightarrow> bool" where
  "cp_special cdl blk_per_trk recid =
     (cdl \<and> recid < 2 * blk_per_trk \<and> dasd_eckd_cdl_special blk_per_trk recid)"

definition cp_rcmd :: "bool \<Rightarrow> nat \<Rightarrow> eckd_cmd \<Rightarrow> nat \<Rightarrow> eckd_cmd" where
  "cp_rcmd cdl blk_per_trk cmd recid =
     (if cp_special cdl blk_per_trk recid then set_kd_bit cmd else cmd)"

definition cp_count :: "bool \<Rightarrow> nat \<Rightarrow> nat \<Rightarrow> nat \<Rightarrow> nat" where
  "cp_count cdl blk_per_trk blksz recid =
     (if cp_special cdl blk_per_trk recid then dasd_eckd_cdl_reclen recid else blksz)"

text \<open>One pass of the inner loop, for the block at \<^verbatim>\<open>dst\<close>.\<close>

definition cp_block :: "cp_ctx \<Rightarrow> nat \<Rightarrow> cp_state \<Rightarrow> cp_state" where
  "cp_block c dst s =
     (let private = cx_private c; blksz = cx_blksize c; blk_per_trk = cx_blk_per_trk c;
          recid = cp_recid s;
          trkid = recid div blk_per_trk;
          recoffs = recid mod blk_per_trk;
          rcmd = cp_rcmd (uses_cdl private) blk_per_trk (cx_cmd c) recid;
          cnt = cp_count (uses_cdl private) blk_per_trk blksz recid;
          s1 = (if cp_special (uses_cdl private) blk_per_trk recid
                   \<and> cnt < blksz \<and> cx_dir c = READ
                then s\<lparr>cp_mem := memset (cp_mem s) (dst + cnt) 0xe5 (blksz - cnt)\<rparr> else s);
          s2 = (if uses_cdl private \<and> recid < 2 * blk_per_trk
                then add_locate private (to_int trkid) (to_int (recoffs + 1)) 1 rcmd (int cnt) s1
                else s1);
          s3 = (if uses_cdl private \<and> recid = 2 * blk_per_trk
                then add_locate private (to_int trkid) (to_int (recoffs + 1))
                       (to_int ((cx_last_rec c + 2 ^ 64 - recid + 1) mod 2 ^ 64))
                       (cx_cmd c) (int cnt) s2
                else s2);
          ida = idal_is_needed (cx_ext c) dst blksz;
          ccw = \<lparr>cmd_code = rcmd,
                 flags = (if ida then {CCW_FLAG_IDA} else {}),
                 ccw_count = cnt,
                 cda = (if ida then To_idaws (length (cp_idaws s3)) else To_mem dst)\<rparr>
      in s3\<lparr>cp_ccws := ccw # chain_cc (cp_ccws s3),
            cp_idaws := (if ida then cp_idaws s3 @ idal_create_words (cx_ext c) dst blksz
                         else cp_idaws s3),
            cp_recid := recid + 1\<rparr>)"

text \<open>
  \<^verbatim>\<open>for (off = 0; off < bv->bv_len; off += blksize)\<close>. With a zero block size the
  first walk has rejected every non-empty segment, so the loop is never entered
  with \<open>blksz = 0\<close> and \<open>off < len\<close>; the guard \<open>0 < blksz\<close> only makes that explicit.
\<close>

function cp_segment_loop :: "cp_ctx \<Rightarrow> nat \<Rightarrow> nat \<Rightarrow> nat \<Rightarrow> cp_state \<Rightarrow> cp_state" where
  "cp_segment_loop c len off dst s =
     (if off < len \<and> 0 < cx_blksize c
      then cp_segment_loop c len (off + cx_blksize c) (dst + cx_blksize c) (cp_block c dst s)
      else s)"
  by pat_completeness auto
termination
  by (relation "measure (\<lambda>(c, len, off, dst, s). len - off)") auto

declare cp_segment_loop.simps [simp del]

text \<open>
  The second \<^verbatim>\<open>rq_for_each_segment\<close>: the k-th segment may be replaced by a copy
  from \<^verbatim>\<open>dasd_page_cache\<close>; a write fills the copy first.
\<close>

fun cp_segments :: "cp_ctx \<Rightarrow> nat \<Rightarrow> bio_vec list \<Rightarrow> cp_state \<Rightarrow> cp_state" where
  "cp_segments c k [] s = s"
| "cp_segments c k (bv # bvs) s =
     (let dst0 = bv_page bv + bv_offset bv;
          copy = (if dasd_page_cache (cx_ext c) then kmem_cache_alloc (cx_ext c) k else None);
          s1 = (case copy of
                  Some cp \<Rightarrow>
                    if cx_dir c = WRITE
                    then s\<lparr>cp_mem := memcpy (cp_mem s) (cp + bv_offset bv) dst0 (bv_len bv)\<rparr>
                    else s
                | None \<Rightarrow> s);
          dst = (case copy of Some cp \<Rightarrow> cp + bv_offset bv | None \<Rightarrow> dst0)
      in cp_segments c (k + 1) bvs (cp_segment_loop c (bv_len bv) 0 dst s1))"

text \<open>
  The part of \<^verbatim>\<open>dasd_eckd_build_cp\<close> after the first CCW: one locate record
  in front if all blocks are standard blocks, then the walk over the segments.
  \<open>ccw\<close> is the define-extent or prefix CCW, \<open>m\<close> the memory.
\<close>

definition cp_context :: "externals \<Rightarrow> eckd_private \<Rightarrow> cp_geometry \<Rightarrow> request \<Rightarrow> cp_ctx" where
  "cp_context x private g req =
     \<lparr>cx_ext = x, cx_private = private, cx_cmd = g_cmd g,
      cx_dir = rq_data_dir req, cx_blksize = g_blksize g,
      cx_blk_per_trk = g_blk_per_trk g, cx_last_rec = g_last_rec g\<rparr>"

definition cp_fill ::
  "externals \<Rightarrow> eckd_private \<Rightarrow> cp_geometry \<Rightarrow> request \<Rightarrow> ccw1 \<Rightarrow> (nat \<Rightarrow> 8 word)
     \<Rightarrow> cp_state" where
  "cp_fill x private g req ccw m =
     (let s0 = \<lparr>cp_ccws = [ccw], cp_LO = [], cp_idaws = [],
                 cp_recid = g_first_rec g, cp_mem = m\<rparr>;
          s1 = (if \<not> uses_cdl private \<or> g_first_rec g > 2 * g_blk_per_trk g
                then add_locate private (to_int (g_first_trk g))
                       (to_int (g_first_offs g + 1))
                       (to_int ((g_last_rec g + 2 ^ 64 - g_first_rec g + 1) mod 2 ^ 64))
                       (g_cmd g) (to_int (g_blksize g)) s0
                else s0)
      in cp_segments (cp_context x private g req) 0 (segs req) s1)"

text \<open>
  \<^verbatim>\<open>dasd_eckd_build_cp(startdev, block, req)\<close>. After the allocation the only
  error path frees the request again. \<^verbatim>\<open>locate_record\<close> works on the base
  device, whose tracks per cylinder must not be zero either.
\<close>

definition dasd_eckd_build_cp ::
  "externals \<Rightarrow> kstate \<Rightarrow> nat \<Rightarrow> dasd_block \<Rightarrow> request \<Rightarrow> dasd_ccw_req outcome \<times> kstate" where
  "dasd_eckd_build_cp x st startdv block req =
     (let private = privs st (base block) in
      case cp_validate x private block req of
        Fault \<Rightarrow> (Fault, st)
      | Err e \<Rightarrow> (Err e, st)
      | Ok g \<Rightarrow>
          (case smalloc_error x (fst (cp_sizes x private g)) (snd (cp_sizes x private g)) of
             Some e \<Rightarrow> (Err e, st)
           | None \<Rightarrow>
               (let st1 = st\<lparr>chunks := chunks st + 1\<rparr> in
                case cp_first_ccw x private (privs st startdv) g of
                  None \<Rightarrow> (Fault, st1)
                | Some (rc, ccw, pl) \<Rightarrow>
                    if rc = Some EAGAIN then (Err EAGAIN, st1\<lparr>chunks := chunks st1 - 1\<rparr>)
                    else if rdc_trk_per_cyl private = 0 then (Fault, st1)
                    else
                      (let s2 = cp_fill x private g req ccw (mem st1)
                       in (Ok \<lparr>cpaddr = rev (cp_ccws s2), payload = pl, lo_data = cp_LO s2,
                               idaws = cp_idaws s2, ects = [],
                               cplength = fst (cp_sizes x private g),
                               datasize = snd (cp_sizes x private g),
                               startdev = startdv, memdev = startdv, cqr_block = Some block,
                               retries = 256, status = DASD_CQR_FILLED,
                               failfast = noretry req\<rparr>,
                           st1\<lparr>mem := cp_mem s2\<rparr>)))))"

text \<open>
  \<^verbatim>\<open>
  #define DASD_ECKD_CHANQ_MAX_SIZE 4
  \<close>
  \<^verbatim>\<open>dasd_eckd_build_alias_cp(base, block, req)\<close>: the start device is the alias the
  alias management picks, or the base device itself. The lock taken around the
  counter update has no counterpart in this sequential model.
\<close>

definition DASD_ECKD_CHANQ_MAX_SIZE :: int where
  "DASD_ECKD_CHANQ_MAX_SIZE = 4"

definition add_priv_count :: "nat \<Rightarrow> int \<Rightarrow> kstate \<Rightarrow> kstate" where
  "add_priv_count dev d st =
     st\<lparr>privs := (privs st)(dev := (privs st dev)\<lparr>priv_count := priv_count (privs st dev) + d\<rparr>)\<rparr>"

definition dasd_eckd_build_alias_cp ::
  "externals \<Rightarrow> kstate \<Rightarrow> nat \<Rightarrow> dasd_block \<Rightarrow> request \<Rightarrow> dasd_ccw_req outcome \<times> kstate" where
  "dasd_eckd_build_alias_cp x st bdev block req =
     (let startdv = (case dasd_alias_get_start_dev x bdev of None \<Rightarrow> bdev | Some d \<Rightarrow> d)
      in if priv_count (privs st startdv) \<ge> DASD_ECKD_CHANQ_MAX_SIZE then (Err EBUSY, st)
         else
           (case dasd_eckd_build_cp x (add_priv_count startdv 1 st) startdv block req of
              (Fault, st2) \<Rightarrow> (Fault, st2)
            | (Err e, st2) \<Rightarrow> (Err e, add_priv_count startdv (- 1) st2)
            | (Ok cqr, st2) \<Rightarrow> (Ok cqr, st2)))"


section \<open>Disk layout analysis, second phase\<close>

text \<open>
  The loop over the first three count fields of track 0 (\<^verbatim>\<open>uses_cdl\<close> is 1 on
  entry): it returns \<^verbatim>\<open>uses_cdl\<close> and the value of \<^verbatim>\<open>i\<close> after the loop.
\<close>

function cdl_check_loop :: "eckd_count list \<Rightarrow> nat \<Rightarrow> bool \<times> nat" where
  "cdl_check_loop ca i =
     (if i < 3
      then (if unat (ec_kl (ca ! i)) \<noteq> 4
               \<or> int (unat (ec_dl (ca ! i))) \<noteq> int (dasd_eckd_cdl_reclen i) - 4
            then (False, i)
            else cdl_check_loop ca (i + 1))
      else (True, i))"
  by pat_completeness auto
termination
  by (relation "measure (\<lambda>(ca, i). 3 - i)") auto

declare cdl_check_loop.simps [simp del]

text \<open>The loop over all five count fields for the Linux disk layout; returns \<^verbatim>\<open>i\<close>.\<close>

function ldl_check_loop :: "eckd_count list \<Rightarrow> nat \<Rightarrow> nat" where
  "ldl_check_loop ca i =
     (if i < 5
      then (if ec_kl (ca ! i) \<noteq> 0 \<or> ec_dl (ca ! i) \<noteq> ec_dl (ca ! 0)
            then i
            else ldl_check_loop ca (i + 1))
      else i)"
  by pat_completeness auto
termination
  by (relation "measure (\<lambda>(ca, i). 5 - i)") auto

declare ldl_check_loop.simps [simp del]

text \<open>
  \<^verbatim>\<open>for (sb = 512; sb < block->bp_block; sb = sb << 1) block->s2b_shift++;\<close>
  \<^verbatim>\<open>sb\<close> is an unsigned int; it cannot wrap while the block size is at most
  \<open>2^31\<close>, and a block size set by the analysis comes from a 16-bit field.
\<close>

function s2b_loop :: "nat \<Rightarrow> nat \<Rightarrow> nat \<Rightarrow> nat" where
  "s2b_loop sb shift bp =
     (if sb < bp \<and> 0 < sb then s2b_loop (2 * sb) (shift + 1) bp else shift)"
  by pat_completeness auto
termination
  by (relation "measure (\<lambda>(sb, shift, bp). bp - sb)") auto

declare s2b_loop.simps [simp del]

text \<open>
  \<^verbatim>\<open>dasd_eckd_end_analysis(block)\<close> returns \<^verbatim>\<open>rc\<close> and leaves the private data and
  the block behind. \<open>count_area\<close> holds five entries; the local pointer
  \<^verbatim>\<open>count_area\<close> is an optional index into it.
\<close>

definition dasd_eckd_end_analysis ::
  "externals \<Rightarrow> eckd_private \<Rightarrow> dasd_block \<Rightarrow> errno option \<times> eckd_private \<times> dasd_block" where
  "dasd_eckd_end_analysis x private block =
     (let st = init_cqr_status private;
          p1 = private\<lparr>init_cqr_status := None\<rparr>
      in if st \<noteq> Some DASD_CQR_DONE then (Some EMEDIUMTYPE, p1, block)
         else
           let ca = count_area p1;
               (cdl, i) = cdl_check_loop ca 0;
               p2 = p1\<lparr>uses_cdl := cdl\<rparr>;
               ptr0 = (if i = 3 then Some 4 else None);
               ptr = (if \<not> cdl
                      then (if ldl_check_loop ca 0 = 5 then Some 0 else ptr0)
                      else ptr0);
               block1 = (case ptr of
                           None \<Rightarrow> block
                         | Some k \<Rightarrow>
                             if ec_kl (ca ! k) = 0
                                \<and> dasd_check_blocksize x (uint (ec_dl (ca ! k)))
                             then block\<lparr>bp_block := unat (ec_dl (ca ! k))\<rparr>
                             else block)
           in if bp_block block1 = 0 then (Some EMEDIUMTYPE, p2, block1)
              else
                let blk_per_trk = unat (recs_per_track (rdc_dev_type p2) 0
                                          (word_of_nat (bp_block block1)))
                in (None, p2,
                    block1\<lparr>s2b_shift := s2b_loop 512 0 (bp_block block1),
                           blocks := (unat (rdc_no_cyl p2) * unat (rdc_trk_per_cyl p2)
                                      * blk_per_trk) mod 2 ^ 32\<rparr>))"

section \<open>Formatting a track\<close>

record format_data_t =
  fd_start_unit :: int
  fd_stop_unit :: int
  fd_blksize :: int
  fd_intensity :: int

text \<open>
  The first \<^verbatim>\<open>switch (fdata->intensity)\<close>: \<^verbatim>\<open>cplength\<close> and \<^verbatim>\<open>datasize\<close>, or
  nothing for the default case.
\<close>

definition fmt_plan :: "externals \<Rightarrow> int \<Rightarrow> nat \<Rightarrow> (nat \<times> nat) option" where
  "fmt_plan x intens rpt =
     (if intens = 0x00 \<or> intens = 0x08
      then Some (2 + rpt, sizeof_DE x + sizeof_LO x + rpt * sizeof_eckd_count x)
      else if intens = 0x01 \<or> intens = 0x09
      then Some (3 + rpt, sizeof_DE x + sizeof_LO x + sizeof_eckd_count x
                          + rpt * sizeof_eckd_count x)
      else if intens = 0x04 \<or> intens = 0x0c
      then Some (3, sizeof_DE x + sizeof_LO x + sizeof_eckd_count x)
      else None)"

text \<open>
  The second switch, on \<^verbatim>\<open>fdata->intensity & ~0x08\<close>: define extent and locate
  record. The return code of \<^verbatim>\<open>define_extent\<close> is not looked at. The result is the
  program so far (newest first) with the two payloads.
\<close>

definition fmt_head ::
  "externals \<Rightarrow> eckd_private \<Rightarrow> dasd_block \<Rightarrow> format_data_t \<Rightarrow> nat
     \<Rightarrow> (ccw1 list \<times> DE_eckd_data \<times> LO_eckd_data list) option" where
  "fmt_head x private block fdata rpt =
     (let sel = fd_intensity fdata AND NOT 0x08;
          su = fd_start_unit fdata;
          dcmd = (if sel = 0x01 then CCW_WRITE_RECORD_ZERO else CCW_WRITE_CKD);
          no_rec = (if sel = 0x00 then int rpt else if sel = 0x01 then int rpt + 1 else 1);
          reclen = (if sel = 0x00 then fd_blksize fdata
                    else if sel = 0x01 then to_int (bp_block block) else 8)
      in if sel = 0x00 \<or> sel = 0x01 \<or> sel = 0x04
         then (case define_extent x private su su dcmd of
                 None \<Rightarrow> None
               | Some (rc, de_ccw, de) \<Rightarrow>
                   (let (lo_ccw, lo) = locate_record private 0 su 0 no_rec dcmd reclen
                    in Some (lo_ccw # chain_cc [de_ccw], de, [lo])))
         else None)"

definition fmt_ect :: "int \<Rightarrow> int \<Rightarrow> int \<Rightarrow> int \<Rightarrow> int \<Rightarrow> eckd_count" where
  "fmt_ect cyl head rec kl dl =
     \<lparr>ec_cyl = word_of_int cyl, ec_head = word_of_int head, ec_record = word_of_int rec,
      ec_kl = word_of_int kl, ec_dl = word_of_int dl\<rparr>"

text \<open>The count field of record \<open>i + 1\<close> in the "write remaining records" loop.\<close>

definition fmt_record_ect :: "format_data_t \<Rightarrow> int \<Rightarrow> int \<Rightarrow> nat \<Rightarrow> eckd_count" where
  "fmt_record_ect fdata cyl head i =
     (let cdl = (fd_intensity fdata AND 0x08 \<noteq> 0);
          kl0 = 0; dl0 = fd_blksize fdata;
          kl1 = (if cdl \<and> fd_start_unit fdata = 0 \<and> i < 3 then 4 else kl0);
          dl1 = (if cdl \<and> fd_start_unit fdata = 0 \<and> i < 3 then int (sizes_trk0 ! i) - 4 else dl0);
          kl2 = (if cdl \<and> fd_start_unit fdata = 1 then 44 else kl1);
          dl2 = (if cdl \<and> fd_start_unit fdata = 1 then int LABEL_SIZE - 44 else dl1)
      in fmt_ect cyl head (int i + 1) kl2 dl2)"

function fmt_records_loop ::
  "format_data_t \<Rightarrow> int \<Rightarrow> int \<Rightarrow> nat \<Rightarrow> nat \<Rightarrow> ccw1 list \<times> eckd_count list
     \<Rightarrow> ccw1 list \<times> eckd_count list" where
  "fmt_records_loop fdata cyl head rpt i (ccws, es) =
     (if i < rpt
      then fmt_records_loop fdata cyl head rpt (i + 1)
             (\<lparr>cmd_code = CCW_WRITE_CKD, flags = {CCW_FLAG_SLI}, ccw_count = 8,
               cda = To_ect (length es)\<rparr> # chain_cc ccws,
              es @ [fmt_record_ect fdata cyl head i])
      else (ccws, es))"
  by pat_completeness auto
termination
  by (relation "measure (\<lambda>(fdata, cyl, head, rpt, i, acc). rpt - i)") auto

declare fmt_records_loop.simps [simp del]

text \<open>The CCWs after the locate record: record zero, then the erase or the data records.\<close>

definition fmt_tail ::
  "format_data_t \<Rightarrow> int \<Rightarrow> int \<Rightarrow> nat \<Rightarrow> ccw1 list \<Rightarrow> ccw1 list \<times> eckd_count list" where
  "fmt_tail fdata cyl head rpt ccws =
     (let (ccws1, es1) =
            (if fd_intensity fdata AND 0x01 \<noteq> 0
             then (\<lparr>cmd_code = CCW_WRITE_RECORD_ZERO, flags = {CCW_FLAG_SLI}, ccw_count = 8,
                    cda = To_ect 0\<rparr> # chain_cc ccws,
                   [fmt_ect cyl head 0 0 8])
             else (ccws, []))
      in if (fd_intensity fdata AND NOT 0x08) AND 0x04 \<noteq> 0
         then (\<lparr>cmd_code = CCW_WRITE_CKD, flags = {CCW_FLAG_SLI}, ccw_count = 8,
                cda = To_ect (length es1)\<rparr> # chain_cc ccws1,
               es1 @ [fmt_ect cyl head 1 0 0])
         else fmt_records_loop fdata cyl head rpt 0 (ccws1, es1))"

text \<open>
  \<^verbatim>\<open>dasd_eckd_format_device(device, fdata)\<close>; \<open>block\<close> is \<^verbatim>\<open>device->block\<close>.
  \<^verbatim>\<open>rpt\<close>, \<^verbatim>\<open>cyl\<close> and \<^verbatim>\<open>head\<close> are computed before the sanity checks, so a device
  with zero tracks per cylinder traps first.
\<close>

definition dasd_eckd_format_device ::
  "externals \<Rightarrow> kstate \<Rightarrow> nat \<Rightarrow> dasd_block \<Rightarrow> format_data_t
     \<Rightarrow> dasd_ccw_req outcome \<times> kstate" where
  "dasd_eckd_format_device x st device block fdata =
     (let private = privs st device;
          rpt = unat (recs_per_track (rdc_dev_type private) 0 (word_of_int (fd_blksize fdata)));
          heads = uint (rdc_trk_per_cyl private)
      in if heads = 0 then (Fault, st)
         else
           let cyl = c_div (fd_start_unit fdata) heads;
               head = c_mod (fd_start_unit fdata) heads
           in if fd_start_unit fdata \<ge> uint (rdc_no_cyl private) * heads then (Err EINVAL, st)
              else if fd_start_unit fdata > fd_stop_unit fdata then (Err EINVAL, st)
              else if \<not> dasd_check_blocksize x (fd_blksize fdata) then (Err EINVAL, st)
              else
                (case fmt_plan x (fd_intensity fdata) rpt of
                   None \<Rightarrow> (Err EINVAL, st)
                 | Some (cpl, dsz) \<Rightarrow>
                     (case smalloc_error x cpl dsz of
                        Some e \<Rightarrow> (Err e, st)
                      | None \<Rightarrow>
                          (case fmt_head x private block fdata rpt of
                             None \<Rightarrow> (Fault, st\<lparr>chunks := chunks st + 1\<rparr>)
                           | Some (ccws, de, los) \<Rightarrow>
                               (let (ccws', es) = fmt_tail fdata cyl head rpt ccws
                                in (Ok \<lparr>cpaddr = rev ccws', payload = DE_payload de,
                                        lo_data = los, idaws = [], ects = es,
                                        cplength = cpl, datasize = dsz,
                                        startdev = device, memdev = device,
                                        cqr_block = None, retries = 5,
                                        status = DASD_CQR_FILLED, failfast = False\<rparr>,
                                    st\<lparr>chunks := chunks st + 1\<rparr>))))))"

section \<open>Helper definitions for the statements\<close>

text \<open>The condition under which no sum inside \<open>recs_per_track\<close> wraps around \<open>2^32\<close>.\<close>

definition sums_fit_u32 :: "nat \<Rightarrow> nat \<Rightarrow> nat \<Rightarrow> bool" where
  "sums_fit_u32 model kl dl =
     (if model = 0x3380 then kl + 12 + 31 < 2 ^ 32 \<and> dl + 12 + 31 < 2 ^ 32
      else if model = 0x3390 \<or> model = 0x9345 then
        kl + 6 * (ceil_frac (kl + 6) 232 + 1) + 33 < 2 ^ 32 \<and>
        dl + 6 * (ceil_frac (dl + 6) 232 + 1) + 33 < 2 ^ 32
      else True)"

text \<open>
  A sample configuration for concrete runs: helpers that never fail, no page
  cache, the four block sizes 512..4096 accepted; and a 3390 volume of 10
  cylinders with 15 tracks each in compatible disk layout, with sequential
  prestaging of 5 cylinders configured.
\<close>

definition ex_externals :: externals where
  "ex_externals =
     \<lparr>get_sync_clock = (Some ENOSYS, None),
      smalloc_error = (\<lambda>cpl dsz. None),
      dasd_page_cache = False,
      kmem_cache_alloc = (\<lambda>k. None),
      idal_is_needed = (\<lambda>a n. 2 ^ 31 < a + n),
      idal_create_words = (\<lambda>a n. [a]),
      dasd_alias_get_start_dev = (\<lambda>d. None),
      dasd_check_blocksize = (\<lambda>b. b = 512 \<or> b = 1024 \<or> b = 2048 \<or> b = 4096),
      sizeof_DE = 32, sizeof_LO = 16, sizeof_PFX = 64, sizeof_eckd_count = 8,
      sizeof_long = 8, CONFIG_64BIT = True\<rparr>"

definition ex_count :: "nat \<Rightarrow> nat \<Rightarrow> nat \<Rightarrow> eckd_count" where
  "ex_count r kl dl = \<lparr>ec_cyl = 0, ec_head = 0, ec_record = word_of_nat r,
                        ec_kl = word_of_nat kl, ec_dl = word_of_nat dl\<rparr>"

definition ex_private :: eckd_private where
  "ex_private =
     \<lparr>rdc_dev_type = 0x3390, rdc_cu_type = 0x3990, rdc_no_cyl = 10, rdc_trk_per_cyl = 15,
      XRC_supported = True, uses_cdl = True, attrib_operation = DASD_SEQ_PRESTAGE,
      attrib_nr_cyl = 5, feature_prefix = False, uid_type = UA_BASE_DEVICE,
      ned_unit_addr = 0, ned_ID = 0, init_cqr_status = Some DASD_CQR_DONE,
      count_area = [ex_count 1 4 24, ex_count 2 4 144, ex_count 3 4 80,
                    ex_count 4 44 96, ex_count 1 0 4096],
      priv_count = 0\<rparr>"

text \<open>
  The header patterns \<^verbatim>\<open>dasd_eckd_end_analysis\<close> looks for in the count fields:
  the three label records of track 0 (key length 4, data lengths 28 - 4, 148 - 4,
  84 - 4), and five records without key that share one data length.
\<close>

definition cdl_headers :: "eckd_count \<Rightarrow> eckd_count \<Rightarrow> eckd_count \<Rightarrow> bool" where
  "cdl_headers c0 c1 c2 =
     (ec_kl c0 = 4 \<and> ec_dl c0 = 24 \<and> ec_kl c1 = 4 \<and> ec_dl c1 = 144
      \<and> ec_kl c2 = 4 \<and> ec_dl c2 = 80)"

definition ldl_headers ::
  "eckd_count \<Rightarrow> eckd_count \<Rightarrow> eckd_count \<Rightarrow> eckd_count \<Rightarrow> eckd_count \<Rightarrow> bool" where
  "ldl_headers c0 c1 c2 c3 c4 =
     (ec_kl c0 = 0
      \<and> ec_kl c1 = 0 \<and> ec_dl c1 = ec_dl c0
      \<and> ec_kl c2 = 0 \<and> ec_dl c2 = ec_dl c0
      \<and> ec_kl c3 = 0 \<and> ec_dl c3 = ec_dl c0
      \<and> ec_kl c4 = 0 \<and> ec_dl c4 = ec_dl c0)"

definition ex_block0 :: dasd_block where
  "ex_block0 = \<lparr>base = 0, bp_block = 0, s2b_shift = 0, blocks = 0\<rparr>"


text \<open>
  A state in which every device is the sample volume, its block with 4 KiB
  blocks as the analysis leaves it, and a format request for track 0.
\<close>

definition ex_state :: kstate where
  "ex_state = \<lparr>privs = (\<lambda>d. ex_private), mem = (\<lambda>a. 0), chunks = 0, ccw_queue = (\<lambda>d. [])\<rparr>"

definition ex_block :: dasd_block where
  "ex_block = \<lparr>base = 0, bp_block = 4096, s2b_shift = 3, blocks = 1800\<rparr>"

definition ex_fdata :: "int \<Rightarrow> format_data_t" where
  "ex_fdata intens = \<lparr>fd_start_unit = 0, fd_stop_unit = 0, fd_blksize = 4096, fd_intensity = intens\<rparr>"


text \<open>
  The data-transfer CCWs of a request are those with a read or write opcode
  (plain or key-data, multi-track); define extent, prefix and locate record
  are not.
\<close>

definition is_data_ccw :: "ccw1 \<Rightarrow> bool" where
  "is_data_ccw c = (cmd_code c = CCW_READ_MT \<or> cmd_code c = CCW_WRITE_MT
                    \<or> cmd_code c = CCW_READ_KD_MT \<or> cmd_code c = CCW_WRITE_KD_MT)"

definition data_ccws :: "dasd_ccw_req \<Rightarrow> ccw1 list" where
  "data_ccws cqr = filter is_data_ccw (cpaddr cqr)"

text \<open>
  Where the blocks of a request lie: the k-th segment is transferred from its
  own memory or from the copy the page cache handed out for it, block after
  block.
\<close>

definition seg_dst :: "externals \<Rightarrow> nat \<Rightarrow> bio_vec \<Rightarrow> nat" where
  "seg_dst x k bv =
     (case (if dasd_page_cache x then kmem_cache_alloc x k else None) of
        Some cp \<Rightarrow> cp + bv_offset bv
      | None \<Rightarrow> bv_page bv + bv_offset bv)"

fun seg_block_addrs :: "externals \<Rightarrow> nat \<Rightarrow> nat \<Rightarrow> bio_vec list \<Rightarrow> nat list" where
  "seg_block_addrs x blksz k [] = []"
| "seg_block_addrs x blksz k (bv # bvs) =
     map (\<lambda>j. seg_dst x k bv + j * blksz) [0 ..< bv_len bv div blksz]
     @ seg_block_addrs x blksz (k + 1) bvs"

text \<open>The request a build returned, if it returned one; the define-extent part of a payload.\<close>

definition built :: "dasd_ccw_req outcome \<times> kstate \<Rightarrow> dasd_ccw_req option" where
  "built r = (case fst r of Ok cqr \<Rightarrow> Some cqr | Err e \<Rightarrow> None | Fault \<Rightarrow> None)"

definition payload_de :: "cqr_payload \<Rightarrow> DE_eckd_data" where
  "payload_de pl = (case pl of DE_payload de \<Rightarrow> de | PFX_payload pfx \<Rightarrow> define_extend pfx)"

text \<open>
  What a data CCW shows apart from the chaining flag, the views of all data
  CCWs of a program, and the view the inner loop of \<^verbatim>\<open>build_cp\<close> gives the
  block at \<open>dst\<close> with record id \<open>recid\<close>.
\<close>

definition ccw_view :: "ccw1 \<Rightarrow> eckd_cmd \<times> nat \<times> bool" where
  "ccw_view c = (cmd_code c, ccw_count c, CCW_FLAG_IDA \<in> flags c)"

definition dview :: "ccw1 list \<Rightarrow> (eckd_cmd \<times> nat \<times> bool) list" where
  "dview cs = map ccw_view (filter is_data_ccw cs)"

definition block_view :: "cp_ctx \<Rightarrow> nat \<Rightarrow> nat \<Rightarrow> eckd_cmd \<times> nat \<times> bool" where
  "block_view c dst recid =
     (cp_rcmd (uses_cdl (cx_private c)) (cx_blk_per_trk c) (cx_cmd c) recid,
      cp_count (uses_cdl (cx_private c)) (cx_blk_per_trk c) (cx_blksize c) recid,
      idal_is_needed (cx_ext c) dst (cx_blksize c))"

text \<open>
  The return code of the XRC check on a device: errors of the sync clock other
  than \<^verbatim>\<open>ENOSYS\<close> and \<^verbatim>\<open>EACCES\<close>, if the device supports XRC at all.
\<close>

definition xrc_rc :: "externals \<Rightarrow> eckd_private \<Rightarrow> errno option" where
  "xrc_rc x private =
     (if \<not> XRC_supported private then None
      else if fst (get_sync_clock x) = Some ENOSYS \<or> fst (get_sync_clock x) = Some EACCES
           then None else fst (get_sync_clock x))"

text \<open>
  Two requests on the sample volume (4 KiB blocks, 12 per track): a read of
  block 0, the first label record, and a write of blocks 24 and 25, the first
  two standard blocks behind the two special tracks.
\<close>

definition ex_req_label :: request where
  "ex_req_label = \<lparr>rq_data_dir = READ, sector = 0, nr_sectors = 8,
                    segs = [\<lparr>bv_page = 0x10000, bv_offset = 0, bv_len = 4096\<rparr>],
                    noretry = False\<rparr>"

definition ex_req_data :: request where
  "ex_req_data = \<lparr>rq_data_dir = WRITE, sector = 192, nr_sectors = 16,
                   segs = [\<lparr>bv_page = 0x20000, bv_offset = 0, bv_len = 8192\<rparr>],
                   noretry = False\<rparr>"

text \<open>The sample state with four requests in flight on every device.\<close>

definition ex_state_busy :: kstate where
  "ex_state_busy = ex_state\<lparr>privs := (\<lambda>d. ex_private\<lparr>priv_count := 4\<rparr>)\<rparr>"




section \<open>Shared lemmas\<close>

lemma length_chain_cc [simp]: "length (chain_cc cs) = length cs"
  by (cases cs) simp_all


section \<open>Records per track: the code against the formulas\<close>

lemma ceil_frac_div: 
  assumes b: "0 < b" shows "ceil_frac a b = (a + (b - 1)) div b"
proof -
  define q where "q = (a + (b - 1)) div b"
  have lo: "q * b \<le> a + (b - 1)" unfolding q_def by simp
  have hi: "a + (b - 1) < (q + 1) * b" unfolding q_def using b
    by (metis Suc_eq_plus1 dividend_less_div_times mult.commute mult_Suc_right)
  from hi b have 1: "a \<le> q * b" by simp
  from lo b have 2: "q * b < a + b" by linarith
  have rb: "0 < real b" using b by simp
  have "real a \<le> real q * real b" using 1 by (metis of_nat_le_iff of_nat_mult)
  then have u: "real a / real b \<le> real q" using rb by (simp add: pos_divide_le_eq)
  have "real q * real b < real a + real b" using 2 by (metis of_nat_less_iff of_nat_mult of_nat_add)
  then have "(real q - 1) * real b < real a" by (simp add: algebra_simps)
  then have l: "real q - 1 < real a / real b" using rb by (simp add: pos_less_divide_eq)
  have "\<lceil>real a / real b\<rceil> = int q"
    by (rule ceiling_unique) (use u l in simp_all)
  then show ?thesis by (simp add: ceil_frac_def q_def)
qed

lemma unat_ceil_quot:
  assumes "d2 \<noteq> 0" "unat d1 + (unat d2 - 1) < 2 ^ 32"
  shows "unat (ceil_quot d1 d2) = (unat d1 + (unat d2 - 1)) div unat d2"
proof -
  have m: "unat (d2 - 1) = unat d2 - 1" using assms(1) by (simp add: unat_minus_one)
  have "unat (d1 + (d2 - 1)) = unat d1 + unat (d2 - 1)"
    using assms(2) m unat_add_lem[of d1 "d2 - 1"] by simp
  then show ?thesis by (simp add: ceil_quot_def unat_div m)
qed



lemma unat_ceil_quot_32:
  assumes "unat x + 12 + 31 < 2 ^ 32"
  shows "unat (ceil_quot (x + 12) 32) = ceil_frac (unat x + 12) 32"
    and "unat (ceil_quot (x + 12) 32) \<le> 134217727"
proof -
  have a: "unat (x + 12) = unat x + 12"
    using assms unat_add_lem[of x 12] by simp
  have "unat (ceil_quot (x + 12) 32) = (unat (x + 12) + (unat (32::u32) - 1)) div unat (32::u32)"
    by (rule unat_ceil_quot) (use assms a in simp_all)
  then have e: "unat (ceil_quot (x + 12) 32) = (unat x + 12 + 31) div 32"
    by (simp add: a)
  show "unat (ceil_quot (x + 12) 32) = ceil_frac (unat x + 12) 32"
    using e by (simp add: ceil_frac_div)
  show "unat (ceil_quot (x + 12) 32) \<le> 134217727"
    using e assms by simp
qed

lemma unat_ceil_quot_34:
  assumes "unat x + 6 * (ceil_frac (unat x + 6) 232 + 1) + 33 < 2 ^ 32"
  shows "unat (ceil_quot (x + 6 * (ceil_quot (x + 6) 232 + 1)) 34)
           = ceil_frac (unat x + 6 * (ceil_frac (unat x + 6) 232 + 1)) 34"
    and "unat (ceil_quot (x + 6 * (ceil_quot (x + 6) 232 + 1)) 34) \<le> 126322567"
proof -
  define c where "c = (unat x + 6 + 231) div 232"
  have cf: "ceil_frac (unat x + 6) 232 = c"
    by (simp add: ceil_frac_div c_def)
  have b: "unat x + 6 * (c + 1) + 33 < 2 ^ 32"
    using assms cf by simp
  have small: "unat x + 6 + 231 < 2 ^ 32"
    using b unfolding c_def by simp
  have a: "unat (x + 6) = unat x + 6"
    using small unat_add_lem[of x 6] by simp
  have "unat (ceil_quot (x + 6) 232) = (unat (x + 6) + (unat (232::u32) - 1)) div unat (232::u32)"
    by (rule unat_ceil_quot) (use small a in simp_all)
  then have q: "unat (ceil_quot (x + 6) 232) = c"
    by (simp add: a c_def)
  have dn: "unat (ceil_quot (x + 6) 232 + 1) = c + 1"
    using b q unat_add_lem[of "ceil_quot (x + 6) 232" 1] by simp
  have m: "unat (6 * (ceil_quot (x + 6) 232 + 1)) = 6 * (c + 1)"
    using b dn unat_mult_lem[of 6 "ceil_quot (x + 6) 232 + 1"] by simp
  have s: "unat (x + 6 * (ceil_quot (x + 6) 232 + 1)) = unat x + 6 * (c + 1)"
    using b m unat_add_lem[of x "6 * (ceil_quot (x + 6) 232 + 1)"] by simp
  have "unat (ceil_quot (x + 6 * (ceil_quot (x + 6) 232 + 1)) 34)
          = (unat (x + 6 * (ceil_quot (x + 6) 232 + 1)) + (unat (34::u32) - 1)) div unat (34::u32)"
    by (rule unat_ceil_quot) (use b s in simp_all)
  from this[unfolded s] have e: "unat (ceil_quot (x + 6 * (ceil_quot (x + 6) 232 + 1)) 34)
          = (unat x + 6 * (c + 1) + 33) div 34"
    by simp
  show "unat (ceil_quot (x + 6 * (ceil_quot (x + 6) 232 + 1)) 34)
           = ceil_frac (unat x + 6 * (ceil_frac (unat x + 6) 232 + 1)) 34"
    using e by (simp add: ceil_frac_div cf)
  show "unat (ceil_quot (x + 6 * (ceil_quot (x + 6) 232 + 1)) 34) \<le> 126322567"
    using e b by simp
qed

lemma unat_div_sum2:
  fixes n k a :: u32
  assumes "unat a \<le> 134217727" "unat k \<le> 1000"
  shows "unat (n div (k + a)) = unat n div (unat k + unat a)"
proof -
  have "unat (k + a) = unat k + unat a"
    using assms unat_add_lem[of k a] by simp
  then show ?thesis by (simp add: unat_div)
qed

lemma unat_div_sum3:
  fixes n k a j b :: u32
  assumes "unat a \<le> 134217727" "unat b \<le> 134217727" "unat k \<le> 1000" "unat j \<le> 1000"
  shows "unat (n div (k + a + j + b)) = unat n div (unat k + unat a + unat j + unat b)"
proof -
  have 1: "unat (k + a) = unat k + unat a"
    using assms unat_add_lem[of k a] by simp
  have 2: "unat (k + a + j) = unat k + unat a + unat j"
    using assms 1 unat_add_lem[of "k + a" j] by simp
  have 3: "unat (k + a + j + b) = unat k + unat a + unat j + unat b"
    using assms 2 unat_add_lem[of "k + a + j" b] by simp
  then show ?thesis by (simp add: unat_div)
qed

lemma rpt_3380:
  assumes "sums_fit_u32 0x3380 (unat kl) (unat dl)"
  shows "unat (recs_per_track 0x3380 kl dl) = capacity_formula 0x3380 (unat kl) (unat dl)"
proof -
  from assms have k: "unat kl + 12 + 31 < 2 ^ 32" and d: "unat dl + 12 + 31 < 2 ^ 32"
    by (simp_all add: sums_fit_u32_def)
  note K = unat_ceil_quot_32[OF k] and D = unat_ceil_quot_32[OF d]
  show ?thesis
  proof (cases "kl = 0")
    case True
    have "unat (1499 div (15 + ceil_quot (dl + 12) 32)) = 1499 div (15 + ceil_frac (unat dl + 12) 32)"
      using unat_div_sum2[OF D(2), of 15 1499] D(1) by simp
    then show ?thesis using True by (simp add: recs_per_track_def capacity_formula_def)
  next
    case False
    then have nz: "unat kl \<noteq> 0" by (simp add: unat_eq_0)
    have "unat (1499 div (22 + ceil_quot (kl + 12) 32 + 0 + ceil_quot (dl + 12) 32))
            = 1499 div (22 + ceil_frac (unat kl + 12) 32 + ceil_frac (unat dl + 12) 32)"
      using unat_div_sum3[OF K(2) D(2), of 22 0 1499] K(1) D(1) by simp
    then show ?thesis using False nz by (simp add: recs_per_track_def capacity_formula_def)
  qed
qed


lemma le_134: "unat (a::u32) \<le> 126322567 \<Longrightarrow> unat a \<le> 134217727"
  by simp

lemma rpt_3390:
  assumes "sums_fit_u32 0x3390 (unat kl) (unat dl)"
  shows "unat (recs_per_track 0x3390 kl dl) = capacity_formula 0x3390 (unat kl) (unat dl)"
proof -
  from assms have k: "unat kl + 6 * (ceil_frac (unat kl + 6) 232 + 1) + 33 < 2 ^ 32"
    and d: "unat dl + 6 * (ceil_frac (unat dl + 6) 232 + 1) + 33 < 2 ^ 32"
    by (simp_all add: sums_fit_u32_def)
  note K = unat_ceil_quot_34[OF k] and D = unat_ceil_quot_34[OF d]
  show ?thesis
  proof (cases "kl = 0")
    case True
    have "unat (1729 div (19 + ceil_quot (dl + 6 * (ceil_quot (dl + 6) 232 + 1)) 34))
            = 1729 div (19 + ceil_frac (unat dl + 6 * (ceil_frac (unat dl + 6) 232 + 1)) 34)"
      using unat_div_sum2[OF le_134[OF D(2)], of 19 1729] D(1) by simp
    then show ?thesis using True by (simp add: recs_per_track_def capacity_formula_def)
  next
    case False
    then have nz: "unat kl \<noteq> 0" by (simp add: unat_eq_0)
    have "unat (1729 div (19 + ceil_quot (kl + 6 * (ceil_quot (kl + 6) 232 + 1)) 34 + 9
                          + ceil_quot (dl + 6 * (ceil_quot (dl + 6) 232 + 1)) 34))
            = 1729 div (19 + ceil_frac (unat kl + 6 * (ceil_frac (unat kl + 6) 232 + 1)) 34 + 9
                          + ceil_frac (unat dl + 6 * (ceil_frac (unat dl + 6) 232 + 1)) 34)"
      using unat_div_sum3[OF le_134[OF K(2)] le_134[OF D(2)], of 19 9 1729] K(1) D(1) by simp
    then show ?thesis using False nz by (simp add: recs_per_track_def capacity_formula_def)
  qed
qed

lemma rpt_9345:
  assumes "sums_fit_u32 0x9345 (unat kl) (unat dl)"
  shows "unat (recs_per_track 0x9345 kl dl) = capacity_formula 0x9345 (unat kl) (unat dl)"
proof -
  from assms have k: "unat kl + 6 * (ceil_frac (unat kl + 6) 232 + 1) + 33 < 2 ^ 32"
    and d: "unat dl + 6 * (ceil_frac (unat dl + 6) 232 + 1) + 33 < 2 ^ 32"
    by (simp_all add: sums_fit_u32_def)
  note K = unat_ceil_quot_34[OF k] and D = unat_ceil_quot_34[OF d]
  show ?thesis
  proof (cases "kl = 0")
    case True
    have "unat (1420 div (25 + ceil_quot (dl + 6 * (ceil_quot (dl + 6) 232 + 1)) 34))
            = 1420 div (25 + ceil_frac (unat dl + 6 * (ceil_frac (unat dl + 6) 232 + 1)) 34)"
      using unat_div_sum2[OF le_134[OF D(2)], of 25 1420] D(1) by simp
    then show ?thesis using True by (simp add: recs_per_track_def capacity_formula_def)
  next
    case False
    then have nz: "unat kl \<noteq> 0" by (simp add: unat_eq_0)
    have "unat (1420 div (25 + ceil_quot (kl + 6 * (ceil_quot (kl + 6) 232 + 1)) 34 + 0
                          + ceil_quot (dl + 6 * (ceil_quot (dl + 6) 232 + 1)) 34))
            = 1420 div (25 + ceil_frac (unat kl + 6 * (ceil_frac (unat kl + 6) 232 + 1)) 34
                          + ceil_frac (unat dl + 6 * (ceil_frac (unat dl + 6) 232 + 1)) 34)"
      using unat_div_sum3[OF le_134[OF K(2)] le_134[OF D(2)], of 25 0 1420] K(1) D(1) by simp
    then show ?thesis using False nz by (simp add: recs_per_track_def capacity_formula_def)
  qed
qed

lemma rpt_other:
  "dev_type \<noteq> 0x3380 \<Longrightarrow> dev_type \<noteq> 0x3390 \<Longrightarrow> dev_type \<noteq> 0x9345 \<Longrightarrow>
   recs_per_track dev_type kl dl = 0 \<and> capacity_formula (unat dev_type) kl' dl' = 0"
  by (simp add: recs_per_track_def capacity_formula_def word_unat_eq_iff)


text \<open>
  Claim C2, as amended. \<open>recs_per_track\<close> is a function of the device type, the key
  length and the data length alone. For every device type other than 0x3380,
  0x3390 and 0x9345 it is 0. As long as no intermediate sum wraps around \<open>2^32\<close>
  (\<open>sums_fit_u32\<close>, which holds for every length up to \<open>2^31\<close>), it equals
  the closed-form capacity formula with true ceilings and a truncating final
  division; for a 3390 with key length 0 that is
  \<open>1729 div (19 + ceil ((dl + 6 * (ceil ((dl + 6) / 232) + 1)) / 34))\<close>.
\<close>

theorem recs_per_track_formula:
  "(dev_type \<noteq> 0x3380 \<and> dev_type \<noteq> 0x3390 \<and> dev_type \<noteq> 0x9345 \<longrightarrow>
      recs_per_track dev_type kl dl = 0)
   \<and> (sums_fit_u32 (unat dev_type) (unat kl) (unat dl) \<longrightarrow>
      unat (recs_per_track dev_type kl dl) = capacity_formula (unat dev_type) (unat kl) (unat dl))
   \<and> (unat dl + 6 * (ceil_frac (unat dl + 6) 232 + 1) + 33 < 2 ^ 32 \<longrightarrow>
      unat (recs_per_track 0x3390 0 dl)
        = 1729 div (19 + ceil_frac (unat dl + 6 * (ceil_frac (unat dl + 6) 232 + 1)) 34))"
proof (intro conjI impI)
  assume "dev_type \<noteq> 0x3380 \<and> dev_type \<noteq> 0x3390 \<and> dev_type \<noteq> 0x9345"
  then show "recs_per_track dev_type kl dl = 0" using rpt_other by blast
next
  assume f: "sums_fit_u32 (unat dev_type) (unat kl) (unat dl)"
  consider "dev_type = 0x3380" | "dev_type = 0x3390" | "dev_type = 0x9345"
    | "dev_type \<noteq> 0x3380 \<and> dev_type \<noteq> 0x3390 \<and> dev_type \<noteq> 0x9345" by blast
  then show "unat (recs_per_track dev_type kl dl) = capacity_formula (unat dev_type) (unat kl) (unat dl)"
  proof cases
    case 1 then show ?thesis using f rpt_3380[of kl dl] by simp
  next
    case 2 then show ?thesis using f rpt_3390[of kl dl] by simp
  next
    case 3 then show ?thesis using f rpt_9345[of kl dl] by simp
  next
    case 4 then show ?thesis using rpt_other[of dev_type kl dl "unat kl" "unat dl"] by simp
  qed
next
  assume "unat dl + 6 * (ceil_frac (unat dl + 6) 232 + 1) + 33 < 2 ^ 32"
  then have "sums_fit_u32 0x3390 (unat (0::u32)) (unat dl)"
    by (simp add: sums_fit_u32_def ceil_frac_div)
  from rpt_3390[OF this]
  show "unat (recs_per_track 0x3390 0 dl)
        = 1729 div (19 + ceil_frac (unat dl + 6 * (ceil_frac (unat dl + 6) 232 + 1)) 34)"
    by (simp add: capacity_formula_def)
qed


theorem recs_per_track_formula_witness:
  "sums_fit_u32 (unat (0x3390 :: u16)) (unat (0 :: u32)) (unat (4096 :: u32))
   \<and> unat (recs_per_track 0x3390 0 4096) = capacity_formula 0x3390 0 4096
   \<and> capacity_formula 0x3390 0 4096 = 12
   \<and> (0x1234 :: u16) \<noteq> 0x3380 \<and> (0x1234 :: u16) \<noteq> 0x3390 \<and> (0x1234 :: u16) \<noteq> 0x9345
   \<and> recs_per_track 0x1234 0 4096 = 0
   \<and> unat (recs_per_track 0x3390 0 512)
        = 1729 div (19 + ceil_frac (512 + 6 * (ceil_frac (512 + 6) 232 + 1)) 34)"
  using recs_per_track_formula[of "0x3390" 0 4096] recs_per_track_formula[of "0x1234" 0 4096]
    recs_per_track_formula[of "0x3390" 0 512]
  by (simp add: sums_fit_u32_def capacity_formula_def ceil_frac_def)

text \<open>
  The claim without the bound fails: the data length \<open>2^32 - 6\<close> makes
  \<^verbatim>\<open>dl + 6\<close> wrap to 0, and the code returns 91 where the formula gives 0.
\<close>

theorem recs_per_track_wrap_counterexample:
  "unat (recs_per_track 0x3390 0 0xFFFFFFFA) = 91
   \<and> 1729 div (19 + ceil_frac (unat (0xFFFFFFFA :: u32)
                   + 6 * (ceil_frac (unat (0xFFFFFFFA :: u32) + 6) 232 + 1)) 34) = 0"
  by (simp add: recs_per_track_def ceil_quot_def ceil_frac_def)

section \<open>The record layout classifier\<close>

text \<open>
  The number of records per track the classifier is called with: \<open>build_cp\<close>
  passes \<open>recs_per_track\<close> of the volume's block size without key. For the three
  device types with a capacity formula and the block sizes 512, 1024, 2048 and
  4096 a track holds at least 9 records (for any other device type it holds 0
  and \<open>build_cp\<close> divides by it before it classifies anything).
\<close>

lemma recs_per_track_accepted:
  assumes "t = 0x3380 \<or> t = 0x3390 \<or> t = 0x9345"
    and "bs = 512 \<or> bs = 1024 \<or> bs = 2048 \<or> bs = 4096"
  shows "9 \<le> unat (recs_per_track t 0 bs)"
  using assms by (auto simp: recs_per_track_def ceil_quot_def Let_def)

text \<open>
  Claim C1. On a CDL volume, for every number \<open>rpt\<close> of records per track from 3
  on (every volume the driver accepts has at least 9), record index \<open>i\<close> is
  special exactly when \<open>i < 3\<close> or \<open>rpt \<le> i < 2 * rpt\<close>. The indices 0, 1, 2 have
  the lengths 28, 148, 84, the special indices in \<open>[rpt, 2 * rpt)\<close> have the label
  length 140. The data CCW \<open>build_cp\<close> builds for a special record carries that
  length; for every other index, and so for every index from \<open>2 * rpt\<close> on, it
  carries the block size.
\<close>

theorem cdl_classifier:
  assumes "3 \<le> rpt"
  shows "(dasd_eckd_cdl_special rpt i \<longleftrightarrow> i < 3 \<or> (rpt \<le> i \<and> i < 2 * rpt))
   \<and> dasd_eckd_cdl_reclen 0 = 28 \<and> dasd_eckd_cdl_reclen 1 = 148 \<and> dasd_eckd_cdl_reclen 2 = 84
   \<and> (rpt \<le> i \<and> i < 2 * rpt \<longrightarrow> dasd_eckd_cdl_reclen i = 140)
   \<and> (dasd_eckd_cdl_special rpt i \<longrightarrow> cp_count True rpt blksz i = dasd_eckd_cdl_reclen i)
   \<and> (\<not> dasd_eckd_cdl_special rpt i \<longrightarrow> cp_count True rpt blksz i = blksz)
   \<and> (2 * rpt \<le> i \<longrightarrow> cp_count True rpt blksz i = blksz)
   \<and> ((t = 0x3380 \<or> t = 0x3390 \<or> t = 0x9345)
        \<and> (bs = 512 \<or> bs = 1024 \<or> bs = 2048 \<or> bs = 4096)
        \<longrightarrow> 3 \<le> unat (recs_per_track t 0 bs))"
proof -
  have "3 \<le> unat (recs_per_track t 0 bs)"
    if "t = 0x3380 \<or> t = 0x3390 \<or> t = 0x9345"
      and "bs = 512 \<or> bs = 1024 \<or> bs = 2048 \<or> bs = 4096"
    using recs_per_track_accepted[OF that] by simp
  then show ?thesis
    using assms
    by (auto simp: dasd_eckd_cdl_special_def dasd_eckd_cdl_reclen_def sizes_trk0_def
        LABEL_SIZE_def cp_count_def cp_special_def)
qed

theorem cdl_classifier_witness:
  "unat (recs_per_track 0x3390 0 4096) = 12 \<and> (3::nat) \<le> 12
   \<and> dasd_eckd_cdl_special 12 2 \<and> cp_count True 12 4096 2 = 84
   \<and> dasd_eckd_cdl_special 12 12 \<and> cp_count True 12 4096 12 = 140
   \<and> dasd_eckd_cdl_special 12 23 \<and> cp_count True 12 4096 23 = 140
   \<and> \<not> dasd_eckd_cdl_special 12 5 \<and> cp_count True 12 4096 5 = 4096
   \<and> \<not> dasd_eckd_cdl_special 12 24 \<and> cp_count True 12 4096 24 = 4096"
proof -
  have r: "unat (recs_per_track 0x3390 0 4096) = 12"
    by (simp add: recs_per_track_def ceil_quot_def Let_def)
  have h: "(3::nat) \<le> 12" by simp
  show ?thesis
    using cdl_classifier[OF h, where i = 2 and blksz = 4096 and t = "0x3390" and bs = 4096]
      cdl_classifier[OF h, where i = 12 and blksz = 4096 and t = "0x3390" and bs = 4096]
      cdl_classifier[OF h, where i = 23 and blksz = 4096 and t = "0x3390" and bs = 4096]
      cdl_classifier[OF h, where i = 5 and blksz = 4096 and t = "0x3390" and bs = 4096]
      cdl_classifier[OF h, where i = 24 and blksz = 4096 and t = "0x3390" and bs = 4096]
    by (simp add: r)
qed

section \<open>Define extent: end cylinder and permissions\<close>

lemma check_XRC_op: "check_XRC x p c d = (rc, c', d') \<Longrightarrow>
   attr_operation d' = attr_operation d \<and> mask_perm d' = mask_perm d \<and> mask_auth d' = mask_auth d"
  by (auto simp: check_XRC_def Let_def split: if_splits option.splits)

lemma de_format_mode_fields [simp]:
  "attr_operation (de_format_mode p t d) = attr_operation d"
  "mask_perm (de_format_mode p t d) = mask_perm d"
  "mask_auth (de_format_mode p t d) = mask_auth d"
  "ep_sys_time (de_format_mode p t d) = ep_sys_time d"
  by (simp_all add: de_format_mode_def)

lemma de_geometry_fields [simp]:
  "attr_operation (de_geometry p t tt d) = attr_operation d"
  "mask_perm (de_geometry p t tt d) = mask_perm d"
  "mask_auth (de_geometry p t tt d) = mask_auth d"
  "ep_sys_time (de_geometry p t tt d) = ep_sys_time d"
  "end_ext_cyl (de_geometry p t tt d) = de_end_cyl p (attr_operation d) tt"
  by (simp_all add: de_geometry_def Let_def)

lemma de_end_cyl_min:
  fixes e n g :: u16
  shows "(if uint e + uint n < uint g then e + n else g - 1)
           = word_of_int (min (uint e + uint n) (uint g - 1))"
  by (auto simp: min_def)

lemma uint_u16_bound: "uint (g::u16) < 65536"
  using uint_bounded[of g] by simp

lemma de_end_cyl_min_uint:
  fixes e n g :: u16
  assumes "g \<noteq> 0"
  shows "uint (if uint e + uint n < uint g then e + n else g - 1)
           = min (uint e + uint n) (uint g - 1)"
proof (cases "uint e + uint n < uint g")
  case True
  then have "uint e + uint n < 2 ^ LENGTH(16)" using uint_u16_bound[of g] by simp
  then have "uint (e + n) = uint e + uint n" by (simp only: uint_add_lem)
  then show ?thesis using True by (simp add: min_def)
next
  case False
  have "uint g \<noteq> 0" using assms by (simp add: uint_0_iff)
  then have "1 \<le> uint g" using uint_ge_0[of g] by linarith
  then have "uint (g - 1) = uint g - 1" using uint_sub_lem[of 1 g] by simp
  then show ?thesis using False by (simp add: min_def)
qed

lemma c_div_nonneg: "0 \<le> a \<Longrightarrow> 0 < b \<Longrightarrow> c_div a b = a div b"
  by (cases "a = 0") (simp_all add: c_div_def sgn_if)

lemma de_switch_fields:
  assumes "de_switch x p cmd c d = (rc, c', d')"
  shows "attr_operation d' =
           (if cmd \<in> {CCW_READ_HOME_ADDRESS, CCW_READ_RECORD_ZERO, CCW_READ, CCW_READ_MT,
                       CCW_READ_CKD, CCW_READ_CKD_MT, CCW_READ_KD, CCW_READ_KD_MT, CCW_READ_COUNT,
                       CCW_WRITE, CCW_WRITE_MT, CCW_WRITE_KD, CCW_WRITE_KD_MT}
            then attrib_operation p
            else if cmd \<in> {CCW_WRITE_CKD, CCW_WRITE_CKD_MT, CCW_ERASE, CCW_WRITE_HOME_ADDRESS,
                            CCW_WRITE_RECORD_ZERO}
            then DASD_BYPASS_CACHE else attr_operation d)"
  using assms
  by (auto simp: de_switch_def split: if_splits dest!: check_XRC_op)

lemma define_extent_Some:
  assumes "rdc_trk_per_cyl p \<noteq> 0"
  shows "\<exists>rc ccw de. define_extent x p t tt cmd = Some (rc, ccw, de)"
proof -
  obtain rc c d where "de_switch x p cmd
      \<lparr>cmd_code = CCW_DEFINE_EXTENT, flags = {}, ccw_count = 16, cda = To_payload\<rparr> DE_zero = (rc, c, d)"
    by (metis prod_cases3)
  then show ?thesis using assms by (simp add: define_extent_def Let_def)
qed


text \<open>
  Claim C6. Whenever the extent's operation attribute is sequential prestage or
  sequential access, the 16-bit end cylinder is
  \<open>min (end track cylinder + configured extension) (cylinders - 1)\<close>, computed on
  ints and stored in the field (on a volume with at least one cylinder the
  stored value is that minimum itself); for every other attribute it is the
  cylinder of the end track, \<open>totrk / tracks per cylinder\<close>.
\<close>

theorem define_extent_end_cylinder:
  assumes "define_extent x private trk totrk cmd = Some (rc, ccw, de)"
  shows "(let e = (word_of_int (c_div totrk (uint (rdc_trk_per_cyl private))) :: u16);
              n = attrib_nr_cyl private; g = rdc_no_cyl private
          in (attr_operation de = DASD_SEQ_PRESTAGE \<or> attr_operation de = DASD_SEQ_ACCESS \<longrightarrow>
                end_ext_cyl de = word_of_int (min (uint e + uint n) (uint g - 1))
                \<and> (g \<noteq> 0 \<longrightarrow> uint (end_ext_cyl de) = min (uint e + uint n) (uint g - 1)))
           \<and> (attr_operation de \<noteq> DASD_SEQ_PRESTAGE \<and> attr_operation de \<noteq> DASD_SEQ_ACCESS \<longrightarrow>
                end_ext_cyl de = e
                \<and> (0 \<le> totrk \<and> totrk div uint (rdc_trk_per_cyl private) < 2 ^ 16 \<longrightarrow>
                     uint (end_ext_cyl de) = totrk div uint (rdc_trk_per_cyl private))))"
proof -
  obtain c1 d1 where sw: "de_switch x private cmd
      \<lparr>cmd_code = CCW_DEFINE_EXTENT, flags = {}, ccw_count = 16, cda = To_payload\<rparr> DE_zero = (rc, c1, d1)"
    and heads: "rdc_trk_per_cyl private \<noteq> 0"
    and de: "de = de_geometry private trk totrk (de_format_mode private trk (d1\<lparr>attr_mode := 0x3\<rparr>))"
    using assms by (auto simp: define_extent_def Let_def split: prod.splits if_splits)
  have op: "attr_operation de = attr_operation d1" by (simp add: de)
  have ec: "end_ext_cyl de = de_end_cyl private (attr_operation d1) totrk" by (simp add: de)
  have hpos: "0 < uint (rdc_trk_per_cyl private)"
    using heads uint_ge_0[of "rdc_trk_per_cyl private"] by (simp add: uint_0_iff less_le)
  show ?thesis
  proof (cases "attr_operation d1 = DASD_SEQ_PRESTAGE \<or> attr_operation d1 = DASD_SEQ_ACCESS")
    case True
    then show ?thesis
      using de_end_cyl_min[of "word_of_int (c_div totrk (uint (rdc_trk_per_cyl private)))"
              "attrib_nr_cyl private" "rdc_no_cyl private"]
            de_end_cyl_min_uint[of "rdc_no_cyl private"
              "word_of_int (c_div totrk (uint (rdc_trk_per_cyl private)))" "attrib_nr_cyl private"]
      by (auto simp: op ec de_end_cyl_def Let_def)
  next
    case False
    have "uint (word_of_int (totrk div uint (rdc_trk_per_cyl private)) :: u16)
            = totrk div uint (rdc_trk_per_cyl private)"
      if "0 \<le> totrk" "totrk div uint (rdc_trk_per_cyl private) < 2 ^ 16"
      using that hpos by (simp add: uint_word_of_int pos_imp_zdiv_nonneg_iff)
    then show ?thesis using False hpos
      by (auto simp: op ec de_end_cyl_def Let_def c_div_nonneg)
  qed
qed


text \<open>
  The scenario of the claim: 10 cylinders of 15 tracks, extension 5, a read
  ending on track 138 (cylinder 9) gives end cylinder 9, not 14.
\<close>

theorem define_extent_end_cylinder_witness:
  "define_extent ex_externals ex_private 0 138 CCW_READ_MT \<noteq> None
   \<and> attr_operation (snd (snd (the (define_extent ex_externals ex_private 0 138 CCW_READ_MT))))
       = DASD_SEQ_PRESTAGE
   \<and> rdc_no_cyl ex_private = 10 \<and> attrib_nr_cyl ex_private = 5
   \<and> c_div 138 (uint (rdc_trk_per_cyl ex_private)) = 9
   \<and> end_ext_cyl (snd (snd (the (define_extent ex_externals ex_private 0 138 CCW_READ_MT)))) = 9
   \<and> attr_operation (snd (snd (the (define_extent ex_externals ex_private 0 138 CCW_WRITE_CKD))))
       = DASD_BYPASS_CACHE
   \<and> uint (end_ext_cyl (snd (snd (the (define_extent ex_externals ex_private 0 138 CCW_WRITE_CKD))))) = 9"
proof -
  have h: "rdc_trk_per_cyl ex_private \<noteq> 0" by (simp add: ex_private_def)
  obtain rc ccw de where a: "define_extent ex_externals ex_private 0 138 CCW_READ_MT = Some (rc, ccw, de)"
    using define_extent_Some[OF h] by blast
  obtain rc' ccw' de' where b: "define_extent ex_externals ex_private 0 138 CCW_WRITE_CKD = Some (rc', ccw', de')"
    using define_extent_Some[OF h] by blast
  have opa: "attr_operation de = DASD_SEQ_PRESTAGE"
    using a by (auto simp: define_extent_def Let_def ex_private_def de_switch_def split: prod.splits)
  have opb: "attr_operation de' = DASD_BYPASS_CACHE"
    using b by (auto simp: define_extent_def Let_def ex_private_def de_switch_def check_XRC_def ex_externals_def split: prod.splits)
  have f: "rdc_no_cyl ex_private = 10" "attrib_nr_cyl ex_private = 5"
    "rdc_trk_per_cyl ex_private = 15"
    by (simp_all add: ex_private_def)
  have cd: "c_div 138 15 = 9"
    by (simp add: c_div_def)
  show ?thesis
    using define_extent_end_cylinder[OF a] define_extent_end_cylinder[OF b] opa opb
    by (simp add: a b Let_def f cd)
qed


lemma de_switch_perm:
  assumes "de_switch x p cmd c DE_zero = (rc, c', d')"
  shows "(mask_perm d', mask_auth d') =
           (if cmd \<in> {CCW_READ_HOME_ADDRESS, CCW_READ_RECORD_ZERO, CCW_READ, CCW_READ_MT,
                       CCW_READ_CKD, CCW_READ_CKD_MT, CCW_READ_KD, CCW_READ_KD_MT, CCW_READ_COUNT}
            then (1, 0)
            else if cmd \<in> {CCW_WRITE, CCW_WRITE_MT, CCW_WRITE_KD, CCW_WRITE_KD_MT} then (2, 0)
            else if cmd \<in> {CCW_ERASE, CCW_WRITE_HOME_ADDRESS, CCW_WRITE_RECORD_ZERO} then (3, 1)
            else (0, 0))"
  using assms
  by (auto simp: de_switch_def DE_zero_def split: if_splits dest!: check_XRC_op)

text \<open>
  Claim C7, as amended. The permission mask depends on the opcode alone: the
  read opcodes give read permission (mask 0x1), the plain and key-data writes
  WRITE, WRITE_MT, WRITE_KD, WRITE_KD_MT give write permission (mask 0x2), the
  count-key-data writes WRITE_CKD and WRITE_CKD_MT leave the mask at 0, and
  ERASE, WRITE_HOME_ADDRESS and WRITE_RECORD_ZERO give mask 0x3 with the
  authorisation bit.
\<close>

theorem define_extent_permissions:
  assumes "define_extent x private trk totrk cmd = Some (rc, ccw, de)"
  shows "(cmd \<in> {CCW_READ_HOME_ADDRESS, CCW_READ_RECORD_ZERO, CCW_READ, CCW_READ_MT,
                  CCW_READ_CKD, CCW_READ_CKD_MT, CCW_READ_KD, CCW_READ_KD_MT, CCW_READ_COUNT}
            \<longrightarrow> mask_perm de = 0x1 \<and> mask_auth de = 0)
       \<and> (cmd \<in> {CCW_WRITE, CCW_WRITE_MT, CCW_WRITE_KD, CCW_WRITE_KD_MT}
            \<longrightarrow> mask_perm de = 0x2 \<and> mask_auth de = 0)
       \<and> (cmd \<in> {CCW_WRITE_CKD, CCW_WRITE_CKD_MT}
            \<longrightarrow> mask_perm de = 0 \<and> mask_auth de = 0)
       \<and> (cmd \<in> {CCW_ERASE, CCW_WRITE_HOME_ADDRESS, CCW_WRITE_RECORD_ZERO}
            \<longrightarrow> mask_perm de = 0x3 \<and> mask_auth de = 0x1)"
proof -
  obtain c1 d1 where sw: "de_switch x private cmd
      \<lparr>cmd_code = CCW_DEFINE_EXTENT, flags = {}, ccw_count = 16, cda = To_payload\<rparr> DE_zero = (rc, c1, d1)"
    and de: "de = de_geometry private trk totrk (de_format_mode private trk (d1\<lparr>attr_mode := 0x3\<rparr>))"
    using assms by (auto simp: define_extent_def Let_def split: prod.splits if_splits)
  have "mask_perm de = mask_perm d1" "mask_auth de = mask_auth d1" by (simp_all add: de)
  then show ?thesis using de_switch_perm[OF sw] by (auto split: if_splits)
qed

theorem define_extent_permissions_witness:
  "define_extent ex_externals ex_private 0 30 CCW_READ_MT \<noteq> None
   \<and> mask_perm (snd (snd (the (define_extent ex_externals ex_private 0 30 CCW_READ_MT)))) = 1
   \<and> mask_perm (snd (snd (the (define_extent ex_externals ex_private 0 30 CCW_WRITE_MT)))) = 2
   \<and> mask_perm (snd (snd (the (define_extent ex_externals ex_private 0 30 CCW_ERASE)))) = 3
   \<and> mask_auth (snd (snd (the (define_extent ex_externals ex_private 0 30 CCW_ERASE)))) = 1
   \<and> mask_perm (snd (snd (the (define_extent ex_externals ex_private 0 30 CCW_WRITE_CKD_MT)))) = 0"
proof -
  have h: "rdc_trk_per_cyl ex_private \<noteq> 0" by (simp add: ex_private_def)
  obtain r1 c1 d1 where a: "define_extent ex_externals ex_private 0 30 CCW_READ_MT = Some (r1, c1, d1)"
    using define_extent_Some[OF h] by blast
  obtain r2 c2 d2 where b: "define_extent ex_externals ex_private 0 30 CCW_WRITE_MT = Some (r2, c2, d2)"
    using define_extent_Some[OF h] by blast
  obtain r3 c3 d3 where c: "define_extent ex_externals ex_private 0 30 CCW_ERASE = Some (r3, c3, d3)"
    using define_extent_Some[OF h] by blast
  obtain r4 c4 d4 where d: "define_extent ex_externals ex_private 0 30 CCW_WRITE_CKD_MT = Some (r4, c4, d4)"
    using define_extent_Some[OF h] by blast
  show ?thesis
    using define_extent_permissions[OF a] define_extent_permissions[OF b]
      define_extent_permissions[OF c] define_extent_permissions[OF d]
    by (simp add: a b c d)
qed

text \<open>
  A write opcode without write permission: \<^verbatim>\<open>DASD_ECKD_CCW_WRITE_CKD\<close>, the
  opcode the format path uses, has its own case in the switch, which sets no
  permission at all.
\<close>

theorem write_ckd_permission_counterexample:
  "define_extent ex_externals ex_private 0 0 CCW_WRITE_CKD \<noteq> None
   \<and> mask_perm (snd (snd (the (define_extent ex_externals ex_private 0 0 CCW_WRITE_CKD)))) = 0
   \<and> mask_auth (snd (snd (the (define_extent ex_externals ex_private 0 0 CCW_WRITE_CKD)))) = 0"
  by (simp add: define_extent_def de_switch_def check_XRC_def ex_externals_def ex_private_def
      DE_zero_def de_format_mode_def de_geometry_def Let_def)


section \<open>Disk layout analysis\<close>

lemma unat_u8_eq_4: "unat (k :: 8 word) = 4 \<longleftrightarrow> k = 4"
  by (simp add: word_unat_eq_iff)

lemma uint_u16_eqs:
  "uint (d :: u16) = 24 \<longleftrightarrow> d = 24"
  "uint (d :: u16) = 144 \<longleftrightarrow> d = 144"
  "uint (d :: u16) = 80 \<longleftrightarrow> d = 80"
  by (simp_all add: word_uint_eq_iff)

lemma cdl_check_loop_headers:
  "fst (cdl_check_loop [c0, c1, c2, c3, c4] 0) = cdl_headers c0 c1 c2"
  "snd (cdl_check_loop [c0, c1, c2, c3, c4] 0) = 3 \<longleftrightarrow> cdl_headers c0 c1 c2"
  by (auto simp: cdl_check_loop.simps cdl_headers_def dasd_eckd_cdl_reclen_def sizes_trk0_def
      unat_u8_eq_4 uint_u16_eqs)

lemma ldl_check_loop_headers:
  "ldl_check_loop [c0, c1, c2, c3, c4] 0 = 5 \<longleftrightarrow> ldl_headers c0 c1 c2 c3 c4"
  by (auto simp: ldl_check_loop.simps ldl_headers_def)


text \<open>
  Claim C4, as amended. Given that phase 1 completed with status Done and the
  block size is still unset (0) on entry: the volume is flagged as compatible
  disk layout exactly when the first three count fields of track 0 have key
  length 4 and data lengths 24, 144, 80. In that case the analysis succeeds,
  with the data length of the fifth count field (first record of track 2) as
  block size, when that field has key length 0 and a valid block size, and
  reports EMEDIUMTYPE otherwise. If the three fields do not match, the volume
  is native Linux layout when all five count fields have key length 0 and the
  data length of the first, and that length is a valid block size; otherwise
  EMEDIUMTYPE is reported.
\<close>

theorem end_analysis_classification:
  assumes fin: "init_cqr_status private = Some DASD_CQR_DONE"
    and ca: "count_area private = [c0, c1, c2, c3, c4]"
    and unset: "bp_block block = 0"
    and nz: "\<not> dasd_check_blocksize x 0"
    and res: "dasd_eckd_end_analysis x private block = (rc, private', block')"
  shows "(uses_cdl private' \<longleftrightarrow> cdl_headers c0 c1 c2)
       \<and> (cdl_headers c0 c1 c2 \<longrightarrow>
            (if ec_kl c4 = 0 \<and> dasd_check_blocksize x (uint (ec_dl c4))
             then rc = None \<and> bp_block block' = unat (ec_dl c4)
             else rc = Some EMEDIUMTYPE))
       \<and> (\<not> cdl_headers c0 c1 c2 \<longrightarrow>
            (if ldl_headers c0 c1 c2 c3 c4 \<and> dasd_check_blocksize x (uint (ec_dl c0))
             then rc = None \<and> bp_block block' = unat (ec_dl c0)
             else rc = Some EMEDIUMTYPE))"
proof (cases "cdl_headers c0 c1 c2")
  case True
  have l: "cdl_check_loop [c0, c1, c2, c3, c4] 0 = (True, 3)"
    using cdl_check_loop_headers[of c0 c1 c2 c3 c4] True
    by (simp add: prod_eq_iff)
  have z: "unat (ec_dl c4) = 0 \<Longrightarrow> \<not> dasd_check_blocksize x (uint (ec_dl c4))"
    using nz by (simp add: unat_eq_0)
  show ?thesis using res True fin unset z
    by (auto simp: dasd_eckd_end_analysis_def Let_def ca l split: if_splits)
next
  case False
  define i where "i = snd (cdl_check_loop [c0, c1, c2, c3, c4] 0)"
  have l: "cdl_check_loop [c0, c1, c2, c3, c4] 0 = (False, i)" and i: "i \<noteq> 3"
    using cdl_check_loop_headers[of c0 c1 c2 c3 c4] False
    by (simp_all add: prod_eq_iff i_def)
  have z: "unat (ec_dl c0) = 0 \<Longrightarrow> \<not> dasd_check_blocksize x (uint (ec_dl c0))"
    using nz by (simp add: unat_eq_0)
  have k: "ldl_headers c0 c1 c2 c3 c4 \<Longrightarrow> ec_kl c0 = 0" by (simp add: ldl_headers_def)
  show ?thesis using res False fin unset z i k
    by (auto simp: dasd_eckd_end_analysis_def Let_def ca l ldl_check_loop_headers split: if_splits)
qed


theorem end_analysis_classification_witness:
  "init_cqr_status ex_private = Some DASD_CQR_DONE
   \<and> count_area ex_private = [ex_count 1 4 24, ex_count 2 4 144, ex_count 3 4 80,
                               ex_count 4 44 96, ex_count 1 0 4096]
   \<and> bp_block ex_block0 = 0 \<and> \<not> dasd_check_blocksize ex_externals 0
   \<and> cdl_headers (ex_count 1 4 24) (ex_count 2 4 144) (ex_count 3 4 80)
   \<and> ec_kl (ex_count 1 0 4096) = 0
   \<and> dasd_check_blocksize ex_externals (uint (ec_dl (ex_count 1 0 4096)))
   \<and> fst (dasd_eckd_end_analysis ex_externals ex_private ex_block0) = None
   \<and> uses_cdl (fst (snd (dasd_eckd_end_analysis ex_externals ex_private ex_block0)))
   \<and> bp_block (snd (snd (dasd_eckd_end_analysis ex_externals ex_private ex_block0))) = 4096"
proof -
  obtain rc p b where r: "dasd_eckd_end_analysis ex_externals ex_private ex_block0 = (rc, p, b)"
    by (metis prod_cases3)
  have h1: "init_cqr_status ex_private = Some DASD_CQR_DONE"
    and h2: "count_area ex_private = [ex_count 1 4 24, ex_count 2 4 144, ex_count 3 4 80,
                               ex_count 4 44 96, ex_count 1 0 4096]"
    by (simp_all add: ex_private_def)
  have h3: "bp_block ex_block0 = 0" by (simp add: ex_block0_def)
  have h4: "\<not> dasd_check_blocksize ex_externals 0" by (simp add: ex_externals_def)
  have c: "cdl_headers (ex_count 1 4 24) (ex_count 2 4 144) (ex_count 3 4 80)"
    by (simp add: cdl_headers_def ex_count_def)
  have k: "ec_kl (ex_count 1 0 4096) = 0"
    "dasd_check_blocksize ex_externals (uint (ec_dl (ex_count 1 0 4096)))"
    "unat (ec_dl (ex_count 1 0 4096)) = 4096"
    by (simp_all add: ex_count_def ex_externals_def)
  show ?thesis
    using end_analysis_classification[OF h1 h2 h3 h4 r] h1 h2 h3 h4 c k
    by (simp add: r)
qed

text \<open>
  Matching label records alone do not make the analysis report a compatible
  disk layout: with a keyed first record on track 2 the volume is flagged CDL
  and reported as EMEDIUMTYPE.
\<close>

theorem end_analysis_cdl_counterexample:
  "cdl_headers (ex_count 1 4 24) (ex_count 2 4 144) (ex_count 3 4 80)
   \<and> dasd_eckd_end_analysis ex_externals
        (ex_private\<lparr>count_area := [ex_count 1 4 24, ex_count 2 4 144, ex_count 3 4 80,
                                     ex_count 4 44 96, ex_count 1 4 4096]\<rparr>) ex_block0
       = (Some EMEDIUMTYPE,
          ex_private\<lparr>init_cqr_status := None,
                      count_area := [ex_count 1 4 24, ex_count 2 4 144, ex_count 3 4 80,
                                     ex_count 4 44 96, ex_count 1 4 4096]\<rparr>,
          ex_block0)"
  by (simp add: cdl_headers_def ex_count_def dasd_eckd_end_analysis_def Let_def ex_private_def
      ex_block0_def cdl_check_loop.simps dasd_eckd_cdl_reclen_def sizes_trk0_def)


section \<open>The format planner\<close>

lemma fmt_records_loop_length:
  "length (fst (fmt_records_loop fdata cyl head rpt i acc)) = length (fst acc) + (rpt - i)"
proof (induction fdata cyl head rpt i acc rule: fmt_records_loop.induct)
  case (1 fdata cyl head rpt i ccws es)
  show ?case
  proof (cases "i < rpt")
    case True
    then show ?thesis using 1 by (subst fmt_records_loop.simps) simp
  next
    case False
    then show ?thesis by (subst fmt_records_loop.simps) simp
  qed
qed

lemma intensity_bits:
  "(0::int) AND NOT 8 = 0" "(8::int) AND NOT 8 = 0" 
  "(1::int) AND NOT 8 = 1" "(9::int) AND NOT 8 = 1"
  "(4::int) AND NOT 8 = 4" "(12::int) AND NOT 8 = 4"
  "(0::int) AND 1 = 0" "(8::int) AND 1 = 0" "(1::int) AND 1 = 1" "(9::int) AND 1 = 1"
  "(4::int) AND 1 = 0" "(12::int) AND 1 = 0"
  "(4::int) AND 4 = 4" "(1::int) AND 4 = 0" "(0::int) AND 4 = 0"
  by simp_all


lemma fmt_head_Some:
  assumes "rdc_trk_per_cyl private \<noteq> 0"
    and "fd_intensity fdata \<in> {0x00, 0x08, 0x01, 0x09, 0x04, 0x0c}"
  shows "\<exists>ccws de los. fmt_head x private block fdata rpt = Some (ccws, de, los)
           \<and> length ccws = 2"
proof -
  have sel: "fd_intensity fdata AND NOT 0x08 \<in> {0x00, 0x01, 0x04}"
    using assms(2) by (auto simp: intensity_bits)
  define dcmd where "dcmd = (if fd_intensity fdata AND NOT 0x08 = 0x01
                             then CCW_WRITE_RECORD_ZERO else CCW_WRITE_CKD)"
  obtain rc c d where de: "define_extent x private (fd_start_unit fdata) (fd_start_unit fdata) dcmd
                        = Some (rc, c, d)"
    using define_extent_Some[OF assms(1)] by blast
  show ?thesis using sel de
    by (auto simp: fmt_head_def Let_def dcmd_def split: prod.splits)
qed

lemma fmt_tail_length:
  assumes "fd_intensity fdata \<in> {0x00, 0x08, 0x01, 0x09, 0x04, 0x0c}"
  shows "length (fst (fmt_tail fdata cyl head rpt ccws)) =
           length ccws + (if fd_intensity fdata \<in> {0x00, 0x08} then rpt
                          else if fd_intensity fdata \<in> {0x01, 0x09} then 1 + rpt else 1)"
  using assms
  by (auto simp: fmt_tail_def Let_def intensity_bits fmt_records_loop_length split: prod.splits)

text \<open>
  Claim C8. On a device with a geometry, the format planner returns EINVAL for
  every intensity other than 0x00, 0x08 (normal format), 0x01, 0x09 (write
  record zero, then format) and 0x04, 0x0c (invalidate track). For these six
  values, a request that passes the sanity checks and gets its memory is built;
  its channel program has \<open>2 + rpt\<close>, \<open>3 + rpt\<close> and \<open>3\<close> CCWs respectively, which
  is the \<^verbatim>\<open>cplength\<close> it was allocated with.
\<close>

theorem format_device_intensity:
  assumes heads: "rdc_trk_per_cyl (privs st device) \<noteq> 0"
  shows "(fd_intensity fdata \<notin> {0x00, 0x08, 0x01, 0x09, 0x04, 0x0c} \<longrightarrow>
            dasd_eckd_format_device x st device block fdata = (Err EINVAL, st))
       \<and> (let rpt = unat (recs_per_track (rdc_dev_type (privs st device)) 0
                          (word_of_int (fd_blksize fdata)));
               n = (if fd_intensity fdata \<in> {0x00, 0x08} then 2 + rpt
                    else if fd_intensity fdata \<in> {0x01, 0x09} then 3 + rpt else 3)
           in fd_intensity fdata \<in> {0x00, 0x08, 0x01, 0x09, 0x04, 0x0c}
              \<and> fd_start_unit fdata
                   < uint (rdc_no_cyl (privs st device)) * uint (rdc_trk_per_cyl (privs st device))
              \<and> fd_start_unit fdata \<le> fd_stop_unit fdata
              \<and> dasd_check_blocksize x (fd_blksize fdata)
              \<and> smalloc_error x (fst (the (fmt_plan x (fd_intensity fdata) rpt)))
                                 (snd (the (fmt_plan x (fd_intensity fdata) rpt))) = None
              \<longrightarrow> (\<exists>cqr. dasd_eckd_format_device x st device block fdata
                            = (Ok cqr, st\<lparr>chunks := chunks st + 1\<rparr>)
                         \<and> cplength cqr = n \<and> length (cpaddr cqr) = n))"
proof (intro conjI)
  have h: "uint (rdc_trk_per_cyl (privs st device)) \<noteq> 0"
    using heads by (simp add: uint_0_iff)
  show "fd_intensity fdata \<notin> {0x00, 0x08, 0x01, 0x09, 0x04, 0x0c} \<longrightarrow>
            dasd_eckd_format_device x st device block fdata = (Err EINVAL, st)"
    using h by (auto simp: dasd_eckd_format_device_def Let_def fmt_plan_def)
next
  define rpt where "rpt = unat (recs_per_track (rdc_dev_type (privs st device)) 0
                          (word_of_int (fd_blksize fdata)))"
  define n where "n = (if fd_intensity fdata \<in> {0x00, 0x08} then 2 + rpt
                    else if fd_intensity fdata \<in> {0x01, 0x09} then 3 + rpt else 3)"
  have h: "uint (rdc_trk_per_cyl (privs st device)) \<noteq> 0"
    using heads by (simp add: uint_0_iff)
  have "\<exists>cqr. dasd_eckd_format_device x st device block fdata
                  = (Ok cqr, st\<lparr>chunks := chunks st + 1\<rparr>)
               \<and> cplength cqr = n \<and> length (cpaddr cqr) = n"
    if i: "fd_intensity fdata \<in> {0x00, 0x08, 0x01, 0x09, 0x04, 0x0c}"
      and s1: "fd_start_unit fdata
                   < uint (rdc_no_cyl (privs st device)) * uint (rdc_trk_per_cyl (privs st device))"
      and s2: "fd_start_unit fdata \<le> fd_stop_unit fdata"
      and s3: "dasd_check_blocksize x (fd_blksize fdata)"
      and al: "smalloc_error x (fst (the (fmt_plan x (fd_intensity fdata) rpt)))
                                 (snd (the (fmt_plan x (fd_intensity fdata) rpt))) = None"
  proof -
    obtain cpl dsz where pl: "fmt_plan x (fd_intensity fdata) rpt = Some (cpl, dsz)" and cpl: "cpl = n"
      using i by (auto simp: fmt_plan_def n_def)
    obtain ccws de los where hd: "fmt_head x (privs st device) block fdata rpt = Some (ccws, de, los)"
      and l2: "length ccws = 2"
      using fmt_head_Some[OF heads i] by blast
    obtain ccws' es where tl: "fmt_tail fdata
        (c_div (fd_start_unit fdata) (uint (rdc_trk_per_cyl (privs st device))))
        (c_mod (fd_start_unit fdata) (uint (rdc_trk_per_cyl (privs st device)))) rpt ccws = (ccws', es)"
      by (metis surj_pair)
    have ln: "length ccws' = n"
      using fmt_tail_length[OF i, of "c_div (fd_start_unit fdata) (uint (rdc_trk_per_cyl (privs st device)))"
              "c_mod (fd_start_unit fdata) (uint (rdc_trk_per_cyl (privs st device)))" rpt ccws]
        l2 i
      by (auto simp: tl n_def)
    show ?thesis
      using h s1 s2 s3 al pl cpl hd tl ln
      by (simp add: dasd_eckd_format_device_def Let_def rpt_def[symmetric])
  qed
  then show "let rpt = unat (recs_per_track (rdc_dev_type (privs st device)) 0
                          (word_of_int (fd_blksize fdata)));
               n = (if fd_intensity fdata \<in> {0x00, 0x08} then 2 + rpt
                    else if fd_intensity fdata \<in> {0x01, 0x09} then 3 + rpt else 3)
           in fd_intensity fdata \<in> {0x00, 0x08, 0x01, 0x09, 0x04, 0x0c}
              \<and> fd_start_unit fdata
                   < uint (rdc_no_cyl (privs st device)) * uint (rdc_trk_per_cyl (privs st device))
              \<and> fd_start_unit fdata \<le> fd_stop_unit fdata
              \<and> dasd_check_blocksize x (fd_blksize fdata)
              \<and> smalloc_error x (fst (the (fmt_plan x (fd_intensity fdata) rpt)))
                                 (snd (the (fmt_plan x (fd_intensity fdata) rpt))) = None
              \<longrightarrow> (\<exists>cqr. dasd_eckd_format_device x st device block fdata
                            = (Ok cqr, st\<lparr>chunks := chunks st + 1\<rparr>)
                         \<and> cplength cqr = n \<and> length (cpaddr cqr) = n)"
    unfolding Let_def rpt_def[symmetric] n_def[symmetric] by blast
qed


theorem format_device_intensity_witness:
  "rdc_trk_per_cyl (privs ex_state 0) \<noteq> 0
   \<and> fd_intensity (ex_fdata 0x05) \<notin> {0x00, 0x08, 0x01, 0x09, 0x04, 0x0c}
   \<and> dasd_eckd_format_device ex_externals ex_state 0 ex_block (ex_fdata 0x05) = (Err EINVAL, ex_state)
   \<and> fd_intensity (ex_fdata 0x09) \<in> {0x00, 0x08, 0x01, 0x09, 0x04, 0x0c}
   \<and> unat (recs_per_track (rdc_dev_type (privs ex_state 0)) 0
             (word_of_int (fd_blksize (ex_fdata 0x09)))) = 12
   \<and> (\<exists>cqr. dasd_eckd_format_device ex_externals ex_state 0 ex_block (ex_fdata 0x09)
                = (Ok cqr, ex_state\<lparr>chunks := chunks ex_state + 1\<rparr>)
             \<and> cplength cqr = 15 \<and> length (cpaddr cqr) = 15)"
proof -
  have h: "rdc_trk_per_cyl (privs ex_state 0) \<noteq> 0"
    by (simp add: ex_state_def ex_private_def)
  have r: "unat (recs_per_track (rdc_dev_type (privs ex_state 0)) 0
             (word_of_int (fd_blksize (ex_fdata 0x09)))) = 12"
    by (simp add: ex_state_def ex_private_def ex_fdata_def recs_per_track_def ceil_quot_def)
  have i: "fd_intensity (ex_fdata 0x05) = 5" "fd_intensity (ex_fdata 0x09) = 9"
    "fd_start_unit (ex_fdata 0x09) = 0" "fd_stop_unit (ex_fdata 0x09) = 0"
    "dasd_check_blocksize ex_externals (fd_blksize (ex_fdata 0x09))"
    by (simp_all add: ex_fdata_def ex_externals_def)
  have g: "uint (rdc_no_cyl (privs ex_state 0)) * uint (rdc_trk_per_cyl (privs ex_state 0)) = 150"
    by (simp add: ex_state_def ex_private_def)
  have a: "smalloc_error ex_externals cpl dsz = None" for cpl dsz
    by (simp add: ex_externals_def)
  show ?thesis
    using format_device_intensity[OF h, of "ex_fdata 0x05" ex_externals ex_block]
      format_device_intensity[OF h, of "ex_fdata 0x09" ex_externals ex_block]
    by (simp add: h r i g a Let_def)
qed


section \<open>The channel program of a block request\<close>








lemma dview_simps [simp]:
  "dview [] = []"
  "dview (chain_cc cs) = dview cs"
  "dview (c # cs) = (if is_data_ccw c then ccw_view c # dview cs else dview cs)"
  by (cases cs; simp add: dview_def ccw_view_def is_data_ccw_def)+

lemma dview_rev: "dview (rev cs) = rev (dview cs)"
  by (simp add: dview_def rev_map rev_filter del: dview_simps)

lemma locate_record_cmd [simp]:
  "cmd_code (fst (locate_record p slot trk r n cmd len)) = CCW_LOCATE_RECORD"
  by (simp add: locate_record_def Let_def)

lemma add_locate_fields [simp]:
  "dview (cp_ccws (add_locate p trk r n cmd len s)) = dview (cp_ccws s)"
  "cp_idaws (add_locate p trk r n cmd len s) = cp_idaws s"
  "cp_recid (add_locate p trk r n cmd len s) = cp_recid s"
  "cp_mem (add_locate p trk r n cmd len s) = cp_mem s"
  by (auto simp: add_locate_def Let_def is_data_ccw_def locate_record_def split: prod.splits)


lemma set_kd_bit_data:
  "cmd = CCW_READ_MT \<or> cmd = CCW_WRITE_MT \<Longrightarrow>
   is_data_ccw \<lparr>cmd_code = cp_rcmd cdl bpt cmd recid, flags = f, ccw_count = n, cda = a\<rparr>"
  by (auto simp: is_data_ccw_def cp_rcmd_def)

lemma cp_block_fields:
  assumes "cx_cmd c = CCW_READ_MT \<or> cx_cmd c = CCW_WRITE_MT"
  shows "dview (cp_ccws (cp_block c dst s)) = block_view c dst (cp_recid s) # dview (cp_ccws s)"
    and "cp_recid (cp_block c dst s) = cp_recid s + 1"
    and "cp_idaws (cp_block c dst s) =
           cp_idaws s @ (if idal_is_needed (cx_ext c) dst (cx_blksize c)
                         then idal_create_words (cx_ext c) dst (cx_blksize c) else [])"
  using set_kd_bit_data[OF assms]
  by (simp_all add: cp_block_def Let_def block_view_def ccw_view_def)

lemma fold_cp_block_fields:
  assumes "cx_cmd c = CCW_READ_MT \<or> cx_cmd c = CCW_WRITE_MT"
  shows "dview (cp_ccws (fold (cp_block c) ds s))
           = rev (map2 (block_view c) ds [cp_recid s ..< cp_recid s + length ds]) @ dview (cp_ccws s)
         \<and> cp_recid (fold (cp_block c) ds s) = cp_recid s + length ds
         \<and> cp_idaws (fold (cp_block c) ds s)
           = cp_idaws s @ concat (map (\<lambda>dst. if idal_is_needed (cx_ext c) dst (cx_blksize c)
                                   then idal_create_words (cx_ext c) dst (cx_blksize c) else []) ds)"
proof (induction ds arbitrary: s)
  case Nil
  then show ?case by simp
next
  case (Cons d ds)
  have u: "[cp_recid s ..< cp_recid s + length (d # ds)]
             = cp_recid s # [Suc (cp_recid s) ..< Suc (cp_recid s) + length ds]"
    by (subst upt_rec) simp
  show ?case
    using Cons.IH[of "cp_block c d s"] cp_block_fields[OF assms, of d s]
    by (simp only: u) simp
qed

lemma cp_segment_loop_fold:
  assumes "0 < cx_blksize c"
  shows "cp_segment_loop c (off + n * cx_blksize c) off dst s
           = fold (cp_block c) (map (\<lambda>j. dst + j * cx_blksize c) [0 ..< n]) s"
proof (induction n arbitrary: off dst s)
  case 0
  then show ?case by (subst cp_segment_loop.simps) simp
next
  case (Suc n)
  have m: "map (\<lambda>j. dst + j * cx_blksize c) [0 ..< Suc n]
             = dst # map (\<lambda>j. dst + cx_blksize c + j * cx_blksize c) [0 ..< n]"
    by (simp add: upt_conv_Cons map_Suc_upt[symmetric] add.assoc del: upt_Suc)
  have l: "off + Suc n * cx_blksize c = (off + cx_blksize c) + n * cx_blksize c" by simp
  show ?case
    using assms Suc.IH[of "off + cx_blksize c" "dst + cx_blksize c" "cp_block c dst s"]
    by (subst cp_segment_loop.simps) (simp only: m l, simp)
qed


lemma map2_upt_append:
  "map2 f (xs @ ys) [r ..< r + length xs + length ys]
     = map2 f xs [r ..< r + length xs] @ map2 f ys [r + length xs ..< r + length xs + length ys]"
proof -
  have "[r ..< r + length xs + length ys] = [r ..< r + length xs] @ [r + length xs ..< r + length xs + length ys]"
    by (metis upt_add_eq_append le_add1)
  then show ?thesis by simp
qed

lemma cp_segments_fields:
  assumes cmd: "cx_cmd c = CCW_READ_MT \<or> cx_cmd c = CCW_WRITE_MT"
    and pos: "0 < cx_blksize c"
    and dvd: "\<forall>bv \<in> set bvs. cx_blksize c dvd bv_len bv"
  shows "dview (cp_ccws (cp_segments c k bvs s))
           = rev (map2 (block_view c) (seg_block_addrs (cx_ext c) (cx_blksize c) k bvs)
                   [cp_recid s ..< cp_recid s + length (seg_block_addrs (cx_ext c) (cx_blksize c) k bvs)])
             @ dview (cp_ccws s)
         \<and> cp_recid (cp_segments c k bvs s)
             = cp_recid s + length (seg_block_addrs (cx_ext c) (cx_blksize c) k bvs)
         \<and> cp_idaws (cp_segments c k bvs s)
           = cp_idaws s @ concat (map (\<lambda>dst. if idal_is_needed (cx_ext c) dst (cx_blksize c)
                                   then idal_create_words (cx_ext c) dst (cx_blksize c) else [])
                                  (seg_block_addrs (cx_ext c) (cx_blksize c) k bvs))"
  using dvd
proof (induction bvs arbitrary: k s)
  case Nil
  then show ?case by simp
next
  case (Cons bv bvs)
  define bs where "bs = cx_blksize c"
  define n where "n = bv_len bv div bs"
  define dst where "dst = seg_dst (cx_ext c) k bv"
  define A1 where "A1 = map (\<lambda>j. dst + j * bs) [0 ..< n]"
  define A2 where "A2 = seg_block_addrs (cx_ext c) bs (k + 1) bvs"
  define s1 where "s1 = (case (if dasd_page_cache (cx_ext c) then kmem_cache_alloc (cx_ext c) k else None) of
                  Some cp \<Rightarrow>
                    if cx_dir c = WRITE
                    then s\<lparr>cp_mem := memcpy (cp_mem s) (cp + bv_offset bv) (bv_page bv + bv_offset bv) (bv_len bv)\<rparr>
                    else s
                | None \<Rightarrow> s)"
  define s2 where "s2 = fold (cp_block c) A1 s1"
  have len: "bv_len bv = 0 + n * bs"
    using Cons.prems by (simp add: n_def bs_def)
  have s1f: "cp_ccws s1 = cp_ccws s" "cp_recid s1 = cp_recid s" "cp_idaws s1 = cp_idaws s"
    by (simp_all add: s1_def split: option.splits)
  have step: "cp_segments c k (bv # bvs) s = cp_segments c (k + 1) bvs s2"
    using cp_segment_loop_fold[OF pos, of 0 n dst s1] len
    by (simp add: Let_def s2_def A1_def s1_def dst_def seg_dst_def bs_def split: option.splits)
  have A: "seg_block_addrs (cx_ext c) (cx_blksize c) k (bv # bvs) = A1 @ A2"
    by (simp add: A1_def A2_def dst_def n_def bs_def)
  note F = fold_cp_block_fields[OF cmd, of A1 s1, folded s2_def, unfolded s1f]
  have IH: "dview (cp_ccws (cp_segments c (k + 1) bvs s2))
           = rev (map2 (block_view c) A2 [cp_recid s2 ..< cp_recid s2 + length A2]) @ dview (cp_ccws s2)
         \<and> cp_recid (cp_segments c (k + 1) bvs s2) = cp_recid s2 + length A2
         \<and> cp_idaws (cp_segments c (k + 1) bvs s2)
           = cp_idaws s2 @ concat (map (\<lambda>dst. if idal_is_needed (cx_ext c) dst (cx_blksize c)
                                   then idal_create_words (cx_ext c) dst (cx_blksize c) else []) A2)"
    using Cons.IH[of "k + 1" s2] Cons.prems by (simp add: A2_def bs_def)
  show ?case
    unfolding step A
    using IH F map2_upt_append[of "block_view c" A1 A2 "cp_recid s"]
    by (simp add: add.assoc)
qed


text \<open>With a power-of-two block size the mask test is a divisibility test.\<close>

lemma blksize_mask:
  assumes "k < 32"
  shows "n AND (((2::nat) ^ k + (2 ^ 32 - 1)) mod 2 ^ 32) = n mod 2 ^ k"
proof -
  have lt: "(2::nat) ^ k < 2 ^ 32"
    using assms power_strict_increasing[of k 32 "2::nat"] by simp
  have pos: "(1::nat) \<le> 2 ^ k" by simp
  have "((2::nat) ^ k + (2 ^ 32 - 1)) = (2 ^ k - 1) + 2 ^ 32"
    using pos by simp
  then have "((2::nat) ^ k + (2 ^ 32 - 1)) mod 2 ^ 32 = (2 ^ k - 1) mod 2 ^ 32"
    by (metis mod_add_self2)
  also have "\<dots> = 2 ^ k - 1" using lt by simp
  finally have "((2::nat) ^ k + (2 ^ 32 - 1)) mod 2 ^ 32 = mask k"
    by (simp add: mask_eq_exp_minus_1)
  then show ?thesis
    by (simp add: take_bit_eq_mask[symmetric] take_bit_eq_mod)
qed

lemma count_segments_pow2:
  assumes "sh + 9 < 32"
  shows "count_segments x (2 ^ (sh + 9)) sh (bv # bvs) (cnt, ci) =
     (if bv_len bv mod 2 ^ (sh + 9) \<noteq> 0 then None
      else count_segments x (2 ^ (sh + 9)) sh bvs
             (cnt + bv_len bv div 2 ^ (sh + 9),
              if CONFIG_64BIT x \<and> idal_is_needed x (bv_page bv) (bv_len bv)
              then ci + bv_len bv div 2 ^ (sh + 9) else ci))"
  by (simp only: count_segments.simps blksize_mask[OF assms] drop_bit_eq_div)

lemma count_segments_Some:
  assumes "count_segments x (2 ^ (sh + 9)) sh bvs (cnt0, ci0) = Some (cnt, ci)"
    and "sh + 9 < 32"
  shows "(\<forall>bv \<in> set bvs. 2 ^ (sh + 9) dvd bv_len bv)
       \<and> cnt = cnt0 + sum_list (map (\<lambda>bv. bv_len bv div 2 ^ (sh + 9)) bvs)"
  using assms(1)
proof (induction bvs arbitrary: cnt0 ci0)
  case Nil
  then show ?case by simp
next
  case (Cons bv bvs)
  note st = count_segments_pow2[OF assms(2), of x bv bvs cnt0 ci0]
  from Cons.prems have z: "bv_len bv mod 2 ^ (sh + 9) = 0"
    unfolding st by (simp split: if_splits)
  from Cons.prems obtain ci1 where
    r: "count_segments x (2 ^ (sh + 9)) sh bvs (cnt0 + bv_len bv div 2 ^ (sh + 9), ci1) = Some (cnt, ci)"
    unfolding st using z by (simp split: if_splits)
  show ?case using Cons.IH[OF r] z
    by (simp add: dvd_eq_mod_eq_0)
qed

lemma cp_validate_Ok:
  assumes "cp_validate x private block req = Ok g"
  shows "g_blksize g = bp_block block"
    and "g_blk_per_trk g = unat (recs_per_track (rdc_dev_type private) 0 (word_of_nat (bp_block block)))"
    and "g_blk_per_trk g \<noteq> 0"
    and "g_first_rec g = drop_bit (s2b_shift block) (sector req)"
    and "g_cmd g = (if rq_data_dir req = READ then CCW_READ_MT else CCW_WRITE_MT)"
    and "rq_data_dir req = READ \<or> rq_data_dir req = WRITE"
    and "\<exists>ci. count_segments x (bp_block block) (s2b_shift block) (segs req) (0, 0) = Some (g_count g, ci)"
  using assms
  by (auto simp: cp_validate_def Let_def split: if_splits option.splits)

lemma build_cp_Ok:
  assumes "dasd_eckd_build_cp x st sd block req = (Ok cqr, st')"
  obtains g rc ccw pl where
    "cp_validate x (privs st (base block)) block req = Ok g"
    "cp_first_ccw x (privs st (base block)) (privs st sd) g = Some (rc, ccw, pl)"
    "rc \<noteq> Some EAGAIN"
    "cpaddr cqr = rev (cp_ccws (cp_fill x (privs st (base block)) g req ccw (mem st)))"
    "idaws cqr = cp_idaws (cp_fill x (privs st (base block)) g req ccw (mem st))"
    "payload cqr = pl"
    "st' = st\<lparr>chunks := chunks st + 1,
              mem := cp_mem (cp_fill x (privs st (base block)) g req ccw (mem st))\<rparr>"
  using assms
  by (auto simp: dasd_eckd_build_cp_def Let_def split: outcome.splits option.splits if_splits)


lemma check_XRC_cmd: "check_XRC x p c d = (rc, c', d') \<Longrightarrow> cmd_code c' = cmd_code c"
  by (auto simp: check_XRC_def Let_def split: if_splits)

lemma de_switch_cmd: "de_switch x p cmd c d = (rc, c', d') \<Longrightarrow> cmd_code c' = cmd_code c"
  by (auto simp: de_switch_def split: if_splits dest: check_XRC_cmd)

lemma cp_first_ccw_not_data:
  assumes "cp_first_ccw x p sp g = Some (rc, ccw, pl)"
  shows "\<not> is_data_ccw ccw"
proof (cases "feature_prefix p")
  case True
  then have "cmd_code ccw = CCW_PFX" using assms
    by (auto simp: cp_first_ccw_def prefix_def Let_def split: option.splits prod.splits if_splits)
  then show ?thesis by (simp add: is_data_ccw_def)
next
  case False
  then obtain de where d: "define_extent x sp (to_int (g_first_trk g)) (to_int (g_last_trk g)) (g_cmd g)
                 = Some (rc, ccw, de)"
    using assms by (auto simp: cp_first_ccw_def split: option.splits)
  then have "cmd_code ccw = CCW_DEFINE_EXTENT"
    by (auto simp: define_extent_def Let_def split: prod.splits if_splits dest: de_switch_cmd)
  then show ?thesis by (simp add: is_data_ccw_def)
qed

lemma length_seg_block_addrs:
  "length (seg_block_addrs x bs k bvs) = sum_list (map (\<lambda>bv. bv_len bv div bs) bvs)"
  by (induction bvs arbitrary: k) simp_all

lemma sum_list_multiples:
  "\<forall>bv \<in> set bvs. (bs::nat) dvd bv_len bv \<Longrightarrow>
   sum_list (map bv_len bvs) = sum_list (map (\<lambda>bv. bv_len bv div bs) bvs) * bs"
  by (induction bvs) (simp_all add: algebra_simps)

lemma cp_fill_view:
  assumes v: "cp_validate x private block req = Ok g"
    and f: "cp_first_ccw x private sp g = Some (rc, ccw, pl)"
    and inv: "bp_block block = 2 ^ (s2b_shift block + 9)" "s2b_shift block + 9 < 32"
  shows "dview (rev (cp_ccws (cp_fill x private g req ccw m)))
           = map2 (block_view (cp_context x private g req))
               (seg_block_addrs x (bp_block block) 0 (segs req))
               [g_first_rec g ..< g_first_rec g + length (seg_block_addrs x (bp_block block) 0 (segs req))]"
    and "cp_idaws (cp_fill x private g req ccw m)
           = concat (map (\<lambda>dst. if idal_is_needed x dst (bp_block block)
                                   then idal_create_words x dst (bp_block block) else [])
                         (seg_block_addrs x (bp_block block) 0 (segs req)))"
    and "sum_list (map bv_len (segs req))
           = length (seg_block_addrs x (bp_block block) 0 (segs req)) * bp_block block"
proof -
  define c where "c = cp_context x private g req"
  note V = cp_validate_Ok[OF v]
  obtain ci where cs: "count_segments x (2 ^ (s2b_shift block + 9)) (s2b_shift block) (segs req) (0, 0)
                         = Some (g_count g, ci)"
    using V(7) inv(1) by auto
  note C = count_segments_Some[OF cs inv(2)]
  have cmd: "cx_cmd c = CCW_READ_MT \<or> cx_cmd c = CCW_WRITE_MT"
    by (simp add: c_def cp_context_def V(5))
  have bs: "cx_blksize c = bp_block block" "cx_ext c = x"
    by (simp_all add: c_def cp_context_def V(1))
  have pos: "0 < cx_blksize c" by (simp add: bs inv(1))
  have dvd: "\<forall>bv \<in> set (segs req). cx_blksize c dvd bv_len bv"
    using C by (simp add: bs inv(1))
  define s1 where "s1 = (let s0 = \<lparr>cp_ccws = [ccw], cp_LO = [], cp_idaws = [],
                 cp_recid = g_first_rec g, cp_mem = m\<rparr>
           in if \<not> uses_cdl private \<or> g_first_rec g > 2 * g_blk_per_trk g
                then add_locate private (to_int (g_first_trk g))
                       (to_int (g_first_offs g + 1))
                       (to_int ((g_last_rec g + 2 ^ 64 - g_first_rec g + 1) mod 2 ^ 64))
                       (g_cmd g) (to_int (g_blksize g)) s0
                else s0)"
  have fill: "cp_fill x private g req ccw m = cp_segments c 0 (segs req) s1"
    by (simp add: cp_fill_def s1_def c_def Let_def)
  have s1f: "dview (cp_ccws s1) = []" "cp_recid s1 = g_first_rec g" "cp_idaws s1 = []"
    using cp_first_ccw_not_data[OF f] by (simp_all add: s1_def Let_def)
  note S = cp_segments_fields[OF cmd pos dvd, of 0 s1, unfolded s1f bs, folded fill]
  show "dview (rev (cp_ccws (cp_fill x private g req ccw m)))
           = map2 (block_view (cp_context x private g req))
               (seg_block_addrs x (bp_block block) 0 (segs req))
               [g_first_rec g ..< g_first_rec g + length (seg_block_addrs x (bp_block block) 0 (segs req))]"
    using S by (simp add: dview_rev c_def)
  show "cp_idaws (cp_fill x private g req ccw m)
           = concat (map (\<lambda>dst. if idal_is_needed x dst (bp_block block)
                                   then idal_create_words x dst (bp_block block) else [])
                         (seg_block_addrs x (bp_block block) 0 (segs req)))"
    using S by simp
  show "sum_list (map bv_len (segs req))
           = length (seg_block_addrs x (bp_block block) 0 (segs req)) * bp_block block"
    using sum_list_multiples[of "segs req" "bp_block block"] dvd
    by (simp add: length_seg_block_addrs bs)
qed


lemma map2_snd: "length xs = length ys \<Longrightarrow> map2 (\<lambda>x y. h y) xs ys = map h ys"
  by (induction xs ys rule: list_induct2) simp_all

lemma map2_fst: "length xs = length ys \<Longrightarrow> map2 (\<lambda>x y. h x) xs ys = map h xs"
  by (induction xs ys rule: list_induct2) simp_all

lemma build_cp_views:
  assumes ok: "dasd_eckd_build_cp x st sd block req = (Ok cqr, st')"
    and inv: "bp_block block = 512 * 2 ^ s2b_shift block" "s2b_shift block \<le> 3"
  defines "bs \<equiv> bp_block block"
    and "bpt \<equiv> unat (recs_per_track (rdc_dev_type (privs st (base block))) 0
                        (word_of_nat (bp_block block)))"
    and "first \<equiv> drop_bit (s2b_shift block) (sector req)"
    and "addrs \<equiv> seg_block_addrs x (bp_block block) 0 (segs req)"
    and "cmd \<equiv> (if rq_data_dir req = READ then CCW_READ_MT else CCW_WRITE_MT)"
  shows "length (data_ccws cqr) = length addrs"
    and "sum_list (map bv_len (segs req)) = length addrs * bs"
    and "map (\<lambda>c. CCW_FLAG_IDA \<in> flags c) (data_ccws cqr) = map (\<lambda>dst. idal_is_needed x dst bs) addrs"
    and "idaws cqr = concat (map (\<lambda>dst. if idal_is_needed x dst bs
                                        then idal_create_words x dst bs else []) addrs)"
    and "map ccw_count (data_ccws cqr)
           = map (cp_count (uses_cdl (privs st (base block))) bpt bs) [first ..< first + length addrs]"
    and "map cmd_code (data_ccws cqr)
           = map (cp_rcmd (uses_cdl (privs st (base block))) bpt cmd)
                 [first ..< first + length addrs]"
proof -
  have i1: "bp_block block = 2 ^ (s2b_shift block + 9)" using inv(1) by (simp add: power_add)
  have i2: "s2b_shift block + 9 < 32" using inv(2) by simp
  obtain g rc ccw pl where
    v: "cp_validate x (privs st (base block)) block req = Ok g"
    and f: "cp_first_ccw x (privs st (base block)) (privs st sd) g = Some (rc, ccw, pl)"
    and cp: "cpaddr cqr = rev (cp_ccws (cp_fill x (privs st (base block)) g req ccw (mem st)))"
    and id: "idaws cqr = cp_idaws (cp_fill x (privs st (base block)) g req ccw (mem st))"
    using build_cp_Ok[OF ok] by metis
  note V = cp_validate_Ok[OF v]
  note W = cp_fill_view[OF v f i1 i2]
  define c where "c = cp_context x (privs st (base block)) g req"
  have bv: "block_view c = (\<lambda>dst recid.
      (cp_rcmd (uses_cdl (privs st (base block))) bpt cmd recid,
       cp_count (uses_cdl (privs st (base block))) bpt bs recid,
       idal_is_needed x dst bs))"
    by (simp add: block_view_def c_def cp_context_def V bpt_def bs_def cmd_def fun_eq_iff)
  have view: "map ccw_view (data_ccws cqr) = map2 (block_view c) addrs [first ..< first + length addrs]"
    using W(1) by (simp add: data_ccws_def cp dview_def c_def addrs_def first_def V(4) del: dview_simps)
  have len: "length addrs = length [first ..< first + length addrs]" by simp
  show "length (data_ccws cqr) = length addrs"
    using arg_cong[OF view, of length] by simp
  show "sum_list (map bv_len (segs req)) = length addrs * bs"
    using W(3) by (simp add: addrs_def bs_def)
  show "idaws cqr = concat (map (\<lambda>dst. if idal_is_needed x dst bs
                                        then idal_create_words x dst bs else []) addrs)"
    unfolding id addrs_def bs_def by (rule W(2))
  have "map (\<lambda>c. CCW_FLAG_IDA \<in> flags c) (data_ccws cqr)
          = map (\<lambda>v. snd (snd v)) (map ccw_view (data_ccws cqr))"
    by (simp add: ccw_view_def)
  also have "\<dots> = map2 (\<lambda>dst recid. idal_is_needed x dst bs) addrs [first ..< first + length addrs]"
    unfolding view bv by (simp add: split_def)
  finally show "map (\<lambda>c. CCW_FLAG_IDA \<in> flags c) (data_ccws cqr)
                  = map (\<lambda>dst. idal_is_needed x dst bs) addrs"
    using map2_fst[OF len] by simp
  have "map ccw_count (data_ccws cqr) = map (\<lambda>v. fst (snd v)) (map ccw_view (data_ccws cqr))"
    by (simp add: ccw_view_def)
  also have "\<dots> = map2 (\<lambda>dst recid. cp_count (uses_cdl (privs st (base block))) bpt bs recid)
                      addrs [first ..< first + length addrs]"
    unfolding view bv by (simp add: split_def)
  finally show "map ccw_count (data_ccws cqr)
           = map (cp_count (uses_cdl (privs st (base block))) bpt bs) [first ..< first + length addrs]"
    using map2_snd[OF len] by simp
  have "map cmd_code (data_ccws cqr) = map fst (map ccw_view (data_ccws cqr))"
    by (simp add: ccw_view_def)
  also have "\<dots> = map2 (\<lambda>dst recid. cp_rcmd (uses_cdl (privs st (base block))) bpt cmd recid)
                      addrs [first ..< first + length addrs]"
    unfolding view bv by (simp add: split_def)
  finally show "map cmd_code (data_ccws cqr)
           = map (cp_rcmd (uses_cdl (privs st (base block))) bpt cmd)
                 [first ..< first + length addrs]"
    using map2_snd[OF len] by simp
qed

section \<open>Scatter/gather conservation\<close>






lemma ex_bpt: "unat (recs_per_track 0x3390 0 4096) = 12"
  by (simp add: recs_per_track_def ceil_quot_def)

lemma ex_validate_label:
  "cp_validate ex_externals ex_private ex_block ex_req_label
     = Ok \<lparr>g_cmd = CCW_READ_MT, g_blksize = 4096, g_blk_per_trk = 12, g_first_rec = 0,
           g_first_trk = 0, g_first_offs = 0, g_last_rec = 0, g_last_trk = 0,
           g_count = 1, g_cidaw = 0\<rparr>"
  by (simp add: cp_validate_def Let_def ex_private_def ex_block_def ex_req_label_def ex_bpt
      ex_externals_def drop_bit_eq_div)

lemma ex_validate_data:
  "cp_validate ex_externals ex_private ex_block ex_req_data
     = Ok \<lparr>g_cmd = CCW_WRITE_MT, g_blksize = 4096, g_blk_per_trk = 12, g_first_rec = 24,
           g_first_trk = 2, g_first_offs = 0, g_last_rec = 25, g_last_trk = 2,
           g_count = 2, g_cidaw = 0\<rparr>"
  by (simp add: cp_validate_def Let_def ex_private_def ex_block_def ex_req_data_def ex_bpt
      ex_externals_def drop_bit_eq_div)




lemma check_XRC_rc: "fst (check_XRC x p c d) = xrc_rc x p"
  by (auto simp: check_XRC_def xrc_rc_def Let_def split: option.splits)

lemma check_XRC_on_prefix_rc: "fst (check_XRC_on_prefix x p pfx) = xrc_rc x p"
  by (auto simp: check_XRC_on_prefix_def xrc_rc_def Let_def split: option.splits)

lemma define_extent_rc:
  assumes "define_extent x p t tt cmd = Some (rc, c, d)"
  shows "cmd = CCW_READ_MT \<Longrightarrow> rc = None"
    and "cmd = CCW_WRITE_MT \<Longrightarrow> rc = xrc_rc x p"
  using assms check_XRC_rc[of x p]
  by (auto simp: define_extent_def Let_def de_switch_def split: prod.splits if_splits)
     (metis fst_conv)+

lemma prefix_Some:
  assumes "rdc_trk_per_cyl p \<noteq> 0"
  shows "\<exists>rc ccw pfx. prefix x p sp t tt cmd = Some (rc, ccw, pfx)"
  using assms by (simp add: prefix_def Let_def split: prod.splits)

lemma prefix_rc:
  assumes "prefix x p sp t tt cmd = Some (rc, c, pfx)"
  shows "cmd = CCW_READ_MT \<Longrightarrow> rc = None"
    and "cmd = CCW_WRITE_MT \<Longrightarrow> rc = xrc_rc x p"
  using assms check_XRC_on_prefix_rc[of x p]
  by (auto simp: prefix_def Let_def pfx_switch_def split: prod.splits if_splits)
     (metis fst_conv)+

lemma cp_first_ccw_Some:
  assumes "rdc_trk_per_cyl (if feature_prefix p then p else sp) \<noteq> 0"
  shows "\<exists>rc ccw pl. cp_first_ccw x p sp g = Some (rc, ccw, pl)"
proof (cases "feature_prefix p")
  case True
  then obtain rc ccw pfx where
    "prefix x p sp (to_int (g_first_trk g)) (to_int (g_last_trk g)) (g_cmd g) = Some (rc, ccw, pfx)"
    using prefix_Some[of p] assms by (metis (full_types))
  then show ?thesis using True by (simp add: cp_first_ccw_def)
next
  case False
  then obtain rc ccw de where
    "define_extent x sp (to_int (g_first_trk g)) (to_int (g_last_trk g)) (g_cmd g) = Some (rc, ccw, de)"
    using define_extent_Some[of sp] assms by (metis (full_types))
  then show ?thesis using False by (simp add: cp_first_ccw_def)
qed

lemma cp_first_ccw_rc:
  assumes "cp_first_ccw x p sp g = Some (rc, ccw, pl)"
  shows "g_cmd g = CCW_READ_MT \<Longrightarrow> rc = None"
    and "g_cmd g = CCW_WRITE_MT \<Longrightarrow> rc = xrc_rc x (if feature_prefix p then p else sp)"
  using assms
  by (auto simp: cp_first_ccw_def split: if_splits option.splits dest: define_extent_rc prefix_rc)

lemma build_cp_succeeds:
  assumes "cp_validate x (privs st (base block)) block req = Ok g"
    and "smalloc_error x (fst (cp_sizes x (privs st (base block)) g))
                         (snd (cp_sizes x (privs st (base block)) g)) = None"
    and "cp_first_ccw x (privs st (base block)) (privs st sd) g = Some (rc, ccw, pl)"
    and "rc \<noteq> Some EAGAIN"
    and "rdc_trk_per_cyl (privs st (base block)) \<noteq> 0"
  shows "\<exists>cqr. dasd_eckd_build_cp x st sd block req
                  = (Ok cqr, st\<lparr>chunks := chunks st + 1,
                                 mem := cp_mem (cp_fill x (privs st (base block)) g req ccw (mem st))\<rparr>)
               \<and> payload cqr = pl \<and> startdev cqr = sd"
  using assms by (simp add: dasd_eckd_build_cp_def Let_def)


text \<open>
  Claim C3, as amended. For every request that \<open>build_cp\<close> accepts on a volume
  whose block size is 512, 1024, 2048 or 4096 with the matching shift: the
  segments total \<open>N * block size\<close> bytes, where \<open>N\<close> is the number of data CCWs,
  one per block; a data CCW carries the indirection flag exactly when
  \<^verbatim>\<open>idal_is_needed\<close> holds for its block, and only those blocks contribute words
  to the indirection list; the byte count of the data CCW for record \<open>r\<close> is the
  block size, except for a CDL special record below \<open>2 * blk_per_trk\<close>, where it is
  the special record length. So the byte counts add up to the segment lengths
  when the volume has no CDL or the request starts at or behind record
  \<open>2 * blk_per_trk\<close>.
\<close>

theorem build_cp_data_ccws:
  assumes ok: "dasd_eckd_build_cp x st sd block req = (Ok cqr, st')"
    and inv: "bp_block block = 512 * 2 ^ s2b_shift block" "s2b_shift block \<le> 3"
  shows "(let bs = bp_block block;
              private = privs st (base block);
              bpt = unat (recs_per_track (rdc_dev_type private) 0 (word_of_nat bs));
              first = drop_bit (s2b_shift block) (sector req);
              addrs = seg_block_addrs x bs 0 (segs req);
              N = length (data_ccws cqr)
          in sum_list (map bv_len (segs req)) = N * bs
           \<and> length addrs = N
           \<and> map (\<lambda>c. CCW_FLAG_IDA \<in> flags c) (data_ccws cqr)
               = map (\<lambda>dst. idal_is_needed x dst bs) addrs
           \<and> idaws cqr = concat (map (\<lambda>dst. if idal_is_needed x dst bs
                                              then idal_create_words x dst bs else []) addrs)
           \<and> map ccw_count (data_ccws cqr)
               = map (cp_count (uses_cdl private) bpt bs) [first ..< first + N]
           \<and> (\<not> uses_cdl private \<or> 2 * bpt \<le> first \<longrightarrow>
                sum_list (map ccw_count (data_ccws cqr)) = sum_list (map bv_len (segs req))))"
proof -
  note V = build_cp_views[OF ok inv]
  define bs where "bs = bp_block block"
  define bpt where "bpt = unat (recs_per_track (rdc_dev_type (privs st (base block))) 0
                        (word_of_nat (bp_block block)))"
  define first where "first = drop_bit (s2b_shift block) (sector req)"
  define N where "N = length (data_ccws cqr)"
  have cnt: "map ccw_count (data_ccws cqr)
               = map (cp_count (uses_cdl (privs st (base block))) bpt bs) [first ..< first + N]"
    using V(5) by (simp add: V(1) bs_def bpt_def first_def N_def)
  have std: "sum_list (map ccw_count (data_ccws cqr)) = sum_list (map bv_len (segs req))"
    if "\<not> uses_cdl (privs st (base block)) \<or> 2 * bpt \<le> first"
  proof -
    have e: "cp_count (uses_cdl (privs st (base block))) bpt bs r = bs"
      if "r \<in> set [first ..< first + N]" for r
      using that \<open>\<not> uses_cdl (privs st (base block)) \<or> 2 * bpt \<le> first\<close>
      by (auto simp: cp_count_def cp_special_def)
    have m: "map (cp_count (uses_cdl (privs st (base block))) bpt bs) [first ..< first + N]
                 = map (\<lambda>r. bs) [first ..< first + N]"
      by (rule map_cong[OF refl]) (rule e)
    have "sum_list (map ccw_count (data_ccws cqr)) = sum_list (map (\<lambda>r. bs) [first ..< first + N])"
      by (simp only: cnt m)
    also have "\<dots> = N * bs" by (simp add: sum_list_triv)
    finally have "sum_list (map ccw_count (data_ccws cqr)) = N * bs" .
    then show ?thesis using V(2) by (simp add: V(1) N_def bs_def)
  qed
  show ?thesis
    unfolding Let_def
    using V(2,3,4) cnt std
    by (simp add: V(1) bs_def bpt_def first_def N_def)
qed

lemma ex_state_privs [simp]: "privs ex_state d = ex_private"
  by (simp add: ex_state_def)

lemma ex_built:
  assumes "cp_validate ex_externals ex_private ex_block req = Ok g"
  shows "\<exists>cqr st'. dasd_eckd_build_cp ex_externals ex_state 0 ex_block req = (Ok cqr, st')"
proof -
  have h: "rdc_trk_per_cyl ex_private \<noteq> 0" "\<not> feature_prefix ex_private"
    by (simp_all add: ex_private_def)
  obtain rc ccw pl where f: "cp_first_ccw ex_externals ex_private ex_private g = Some (rc, ccw, pl)"
    using cp_first_ccw_Some[of ex_private ex_private ex_externals g] h by auto
  have c: "g_cmd g = CCW_READ_MT \<or> g_cmd g = CCW_WRITE_MT"
    using cp_validate_Ok(5)[OF assms] by simp
  have "xrc_rc ex_externals ex_private = None"
    by (simp add: xrc_rc_def ex_externals_def)
  then have rc: "rc \<noteq> Some EAGAIN"
    using cp_first_ccw_rc[OF f] c by auto
  have a: "smalloc_error ex_externals cpl dsz = None" for cpl dsz
    by (simp add: ex_externals_def)
  have v': "cp_validate ex_externals (privs ex_state (base ex_block)) ex_block req = Ok g"
    using assms by simp
  have f': "cp_first_ccw ex_externals (privs ex_state (base ex_block)) (privs ex_state 0) g
              = Some (rc, ccw, pl)"
    using f by simp
  have h': "rdc_trk_per_cyl (privs ex_state (base ex_block)) \<noteq> 0"
    using h by simp
  show ?thesis
    using build_cp_succeeds[OF v' a f' rc h'] by blast
qed

theorem build_cp_data_ccws_witness:
  "built (dasd_eckd_build_cp ex_externals ex_state 0 ex_block ex_req_data) \<noteq> None
   \<and> bp_block ex_block = 512 * 2 ^ s2b_shift ex_block \<and> s2b_shift ex_block \<le> 3
   \<and> 2 * unat (recs_per_track (rdc_dev_type (privs ex_state (base ex_block))) 0
                  (word_of_nat (bp_block ex_block)))
        \<le> drop_bit (s2b_shift ex_block) (sector ex_req_data)
   \<and> sum_list (map bv_len (segs ex_req_data)) = 8192
   \<and> length (data_ccws (the (built
          (dasd_eckd_build_cp ex_externals ex_state 0 ex_block ex_req_data)))) = 2
   \<and> map ccw_count (data_ccws (the (built
          (dasd_eckd_build_cp ex_externals ex_state 0 ex_block ex_req_data)))) = [4096, 4096]
   \<and> sum_list (map ccw_count (data_ccws (the (built
          (dasd_eckd_build_cp ex_externals ex_state 0 ex_block ex_req_data))))) = 8192"
proof -
  obtain cqr st' where
    ok: "dasd_eckd_build_cp ex_externals ex_state 0 ex_block ex_req_data = (Ok cqr, st')"
    using ex_built[OF ex_validate_data] by blast
  have i: "bp_block ex_block = 512 * 2 ^ s2b_shift ex_block" "s2b_shift ex_block \<le> 3"
    by (simp_all add: ex_block_def)
  have b: "bp_block ex_block = 4096" "s2b_shift ex_block = 3" "base ex_block = 0"
    by (simp_all add: ex_block_def)
  have r: "sector ex_req_data = 192"
    "segs ex_req_data = [\<lparr>bv_page = 0x20000, bv_offset = 0, bv_len = 8192\<rparr>]"
    by (simp_all add: ex_req_data_def)
  have p: "rdc_dev_type ex_private = 0x3390" "uses_cdl ex_private"
    by (simp_all add: ex_private_def)
  have d: "drop_bit 3 (192::nat) = 24" by (simp add: drop_bit_eq_div)
  have u: "[24 ..< 26] = [24, 25::nat]" by (simp add: upt_rec)
  have c: "cp_count True 12 4096 24 = 4096" "cp_count True 12 4096 25 = 4096"
    by (simp_all add: cp_count_def cp_special_def)
  from build_cp_data_ccws[OF ok i]
  have n: "length (data_ccws cqr) = 2"
    by (simp add: Let_def b r)
  show ?thesis
    using build_cp_data_ccws[OF ok i] n
    by (simp add: Let_def ok built_def b r p ex_bpt d u c)
qed

text \<open>
  On the CDL volume a read of block 0 with one 4096-byte segment gives one data
  CCW with byte count 28: the counts do not add up to the segment lengths.
\<close>

theorem build_cp_label_counterexample:
  "map_option (map ccw_count \<circ> data_ccws)
     (built (dasd_eckd_build_cp ex_externals ex_state 0 ex_block ex_req_label)) = Some [28]
   \<and> sum_list (map bv_len (segs ex_req_label)) = 4096"
proof -
  obtain cqr st' where
    ok: "dasd_eckd_build_cp ex_externals ex_state 0 ex_block ex_req_label = (Ok cqr, st')"
    using ex_built[OF ex_validate_label] by blast
  have i: "bp_block ex_block = 512 * 2 ^ s2b_shift ex_block" "s2b_shift ex_block \<le> 3"
    by (simp_all add: ex_block_def)
  have b: "bp_block ex_block = 4096" "s2b_shift ex_block = 3" "base ex_block = 0"
    by (simp_all add: ex_block_def)
  have r: "sector ex_req_label = 0"
    "segs ex_req_label = [\<lparr>bv_page = 0x10000, bv_offset = 0, bv_len = 4096\<rparr>]"
    by (simp_all add: ex_req_label_def)
  have p: "rdc_dev_type ex_private = 0x3390" "uses_cdl ex_private"
    by (simp_all add: ex_private_def)
  have c: "cp_count True 12 4096 0 = 28"
    by (simp add: cp_count_def cp_special_def dasd_eckd_cdl_special_def dasd_eckd_cdl_reclen_def
        sizes_trk0_def)
  have "map ccw_count (data_ccws cqr) = [28]"
    using build_cp_views(5)[OF ok i]
    by (simp add: b r p ex_bpt c)
  then show ?thesis by (simp add: ok built_def r)
qed


section \<open>The sync clock and XRC\<close>

text \<open>
  What \<^verbatim>\<open>check_XRC\<close> leaves in the extent of an XRC device, whatever the clock
  returns: both flag bits, and the time stamp the clock stored, if any.
\<close>

lemma check_XRC_stamp:
  assumes "check_XRC x p c d = (rc, c', d')" "XRC_supported p"
  shows "ga_extended d' = (ga_extended d OR 0x08) OR 0x02"
    and "ep_sys_time d' = (case snd (get_sync_clock x) of None \<Rightarrow> ep_sys_time d | Some t \<Rightarrow> t)"
  using assms by (auto simp: check_XRC_def Let_def split: option.splits)

lemma check_XRC_on_prefix_stamp:
  assumes "check_XRC_on_prefix x p pfx = (rc, pfx')" "XRC_supported p"
  shows "ga_extended (define_extend pfx') = (ga_extended (define_extend pfx) OR 0x08) OR 0x02"
    and "ep_sys_time (define_extend pfx')
           = (case snd (get_sync_clock x) of None \<Rightarrow> ep_sys_time (define_extend pfx) | Some t \<Rightarrow> t)"
    and "validity_time_stamp pfx'"
  using assms by (auto simp: check_XRC_on_prefix_def Let_def split: option.splits)

lemma or_0x40_and_0x0a: "((w :: 8 word) OR 0x40) AND 0x0a = w AND 0x0a"
  by (simp add: bit.conj_disj_distrib2)

lemma de_format_mode_ga:
  "ga_extended (de_format_mode p t d) AND 0x0a = ga_extended d AND 0x0a"
  by (simp add: de_format_mode_def or_0x40_and_0x0a)

lemma de_geometry_ga [simp]:
  "ga_extended (de_geometry p t tt d) = ga_extended d"
  by (simp add: de_geometry_def Let_def)

lemma define_extent_stamp:
  assumes "define_extent x p t tt CCW_WRITE_MT = Some (rc, c, d)" "XRC_supported p"
  shows "ga_extended d AND 0x0a = 0x0a"
    and "ep_sys_time d = (case snd (get_sync_clock x) of None \<Rightarrow> 0 | Some t \<Rightarrow> t)"
proof -
  obtain c1 d1 where sw: "check_XRC x p
      \<lparr>cmd_code = CCW_DEFINE_EXTENT, flags = {}, ccw_count = 16, cda = To_payload\<rparr>
      (DE_zero\<lparr>mask_perm := 0x02, attr_operation := attrib_operation p\<rparr>) = (rc, c1, d1)"
    and de: "d = de_geometry p t tt (de_format_mode p t (d1\<lparr>attr_mode := 0x3\<rparr>))"
    using assms(1)
    by (auto simp: define_extent_def de_switch_def Let_def split: prod.splits if_splits)
  note S = check_XRC_stamp[OF sw assms(2)]
  show "ga_extended d AND 0x0a = 0x0a"
    by (simp add: de de_format_mode_ga S DE_zero_def)
  show "ep_sys_time d = (case snd (get_sync_clock x) of None \<Rightarrow> 0 | Some t \<Rightarrow> t)"
    by (simp add: de de_format_mode_ga S DE_zero_def split: option.splits)
qed

lemma prefix_stamp:
  assumes "prefix x p sp t tt CCW_WRITE_MT = Some (rc, c, pfx)" "XRC_supported p"
  shows "ga_extended (define_extend pfx) AND 0x0a = 0x0a"
    and "ep_sys_time (define_extend pfx) = (case snd (get_sync_clock x) of None \<Rightarrow> 0 | Some t \<Rightarrow> t)"
    and "validity_time_stamp pfx"
proof -
  define pfx0 where "pfx0 = \<lparr>pfx_format = 0, pfx_base_address = ned_unit_addr p,
                  pfx_base_lss = ned_ID p, validity_define_extend = True,
                  validity_verify_base = (uid_type sp \<noteq> UA_BASE_DEVICE),
                  validity_hyper_pav = (uid_type sp = UA_HYPER_PAV_ALIAS),
                  validity_time_stamp = False, define_extend = DE_zero\<rparr>"
  obtain pfx1 where sw: "check_XRC_on_prefix x p (pfx0\<lparr>define_extend :=
              (define_extend pfx0)\<lparr>mask_perm := 0x02, attr_operation := attrib_operation p\<rparr>\<rparr>)
            = (rc, pfx1)"
    and de: "pfx = pfx1\<lparr>define_extend := de_geometry p t tt
                 (de_format_mode p t ((define_extend pfx1)\<lparr>attr_mode := 0x3\<rparr>))\<rparr>"
    using assms(1)
    by (auto simp: prefix_def pfx_switch_def pfx0_def Let_def split: prod.splits if_splits)
  note S = check_XRC_on_prefix_stamp[OF sw assms(2)]
  show "ga_extended (define_extend pfx) AND 0x0a = 0x0a"
    by (simp add: de de_format_mode_ga S pfx0_def DE_zero_def)
  show "ep_sys_time (define_extend pfx) = (case snd (get_sync_clock x) of None \<Rightarrow> 0 | Some t \<Rightarrow> t)"
    by (simp add: de de_format_mode_ga S pfx0_def DE_zero_def split: option.splits)
  show "validity_time_stamp pfx"
    by (simp add: de S)
qed

lemma cp_first_ccw_stamp:
  assumes "cp_first_ccw x p sp g = Some (rc, ccw, pl)" "g_cmd g = CCW_WRITE_MT"
    and "XRC_supported (if feature_prefix p then p else sp)"
  shows "ga_extended (payload_de pl) AND 0x0a = 0x0a"
    and "ep_sys_time (payload_de pl) = (case snd (get_sync_clock x) of None \<Rightarrow> 0 | Some t \<Rightarrow> t)"
    and "\<forall>pfx. pl = PFX_payload pfx \<longrightarrow> validity_time_stamp pfx"
  using assms
  by (auto simp: cp_first_ccw_def payload_de_def split: if_splits option.splits
      dest: define_extent_stamp prefix_stamp)

text \<open>
  The define-extent or prefix CCW stays the first CCW of the program, with the
  byte count and the SLI flag it got: the CCWs behind it only set its chaining
  flag.
\<close>

lemma chain_cc_last:
  assumes "cs \<noteq> []"
  shows "chain_cc cs \<noteq> []"
    and "ccw_count (last (chain_cc cs)) = ccw_count (last cs)"
    and "CCW_FLAG_SLI \<in> flags (last (chain_cc cs)) \<longleftrightarrow> CCW_FLAG_SLI \<in> flags (last cs)"
  using assms by (cases cs; cases "tl cs"; auto)+

lemma add_locate_last:
  assumes "cp_ccws s \<noteq> []"
  shows "cp_ccws (add_locate p trk r n cmd len s) \<noteq> []"
    and "ccw_count (last (cp_ccws (add_locate p trk r n cmd len s))) = ccw_count (last (cp_ccws s))"
    and "CCW_FLAG_SLI \<in> flags (last (cp_ccws (add_locate p trk r n cmd len s)))
           \<longleftrightarrow> CCW_FLAG_SLI \<in> flags (last (cp_ccws s))"
  using chain_cc_last[OF assms]
  by (simp_all add: add_locate_def Let_def split: prod.splits)

lemma cp_block_last:
  assumes "cp_ccws s \<noteq> []"
  shows "cp_ccws (cp_block c dst s) \<noteq> []"
    and "ccw_count (last (cp_ccws (cp_block c dst s))) = ccw_count (last (cp_ccws s))"
    and "CCW_FLAG_SLI \<in> flags (last (cp_ccws (cp_block c dst s)))
           \<longleftrightarrow> CCW_FLAG_SLI \<in> flags (last (cp_ccws s))"
proof -
  define s1 where "s1 = (if cp_special (uses_cdl (cx_private c)) (cx_blk_per_trk c) (cp_recid s)
                            \<and> cx_dir c = READ
                            \<and> cp_count (uses_cdl (cx_private c)) (cx_blk_per_trk c) (cx_blksize c)
                                  (cp_recid s) < cx_blksize c
                         then s\<lparr>cp_mem := memset (cp_mem s)
                                   (dst + cp_count (uses_cdl (cx_private c)) (cx_blk_per_trk c)
                                            (cx_blksize c) (cp_recid s)) 0xe5
                                   (cx_blksize c - cp_count (uses_cdl (cx_private c))
                                      (cx_blk_per_trk c) (cx_blksize c) (cp_recid s))\<rparr>
                         else s)"
  show "cp_ccws (cp_block c dst s) \<noteq> []"
    by (simp add: cp_block_def Let_def)
  have k: "ccw_count (last (cp_ccws (cp_block c dst s))) = ccw_count (last (cp_ccws s))
         \<and> (CCW_FLAG_SLI \<in> flags (last (cp_ccws (cp_block c dst s)))
           \<longleftrightarrow> CCW_FLAG_SLI \<in> flags (last (cp_ccws s)))"
    using assms
    by (auto simp: cp_block_def Let_def chain_cc_last add_locate_last)
  show "ccw_count (last (cp_ccws (cp_block c dst s))) = ccw_count (last (cp_ccws s))"
    using k by simp
  show "CCW_FLAG_SLI \<in> flags (last (cp_ccws (cp_block c dst s)))
           \<longleftrightarrow> CCW_FLAG_SLI \<in> flags (last (cp_ccws s))"
    using k by simp
qed

lemma cp_segment_loop_last:
  assumes "cp_ccws s \<noteq> []"
  shows "cp_ccws (cp_segment_loop c len off dst s) \<noteq> []
       \<and> ccw_count (last (cp_ccws (cp_segment_loop c len off dst s))) = ccw_count (last (cp_ccws s))
       \<and> (CCW_FLAG_SLI \<in> flags (last (cp_ccws (cp_segment_loop c len off dst s)))
           \<longleftrightarrow> CCW_FLAG_SLI \<in> flags (last (cp_ccws s)))"
  using assms
proof (induction c len off dst s rule: cp_segment_loop.induct)
  case (1 c len off dst s)
  show ?case
  proof (cases "off < len \<and> 0 < cx_blksize c")
    case True
    note B = cp_block_last[OF "1.prems", of c dst]
    have e: "cp_segment_loop c len off dst s
               = cp_segment_loop c len (off + cx_blksize c) (dst + cx_blksize c) (cp_block c dst s)"
      using True by (subst cp_segment_loop.simps) simp
    show ?thesis
      unfolding e using "1.IH"[OF True B(1)] B(2,3) by simp
  next
    case False
    have e: "cp_segment_loop c len off dst s = s"
      using False by (subst cp_segment_loop.simps) auto
    show ?thesis
      unfolding e using "1.prems" by simp
  qed
qed

lemma cp_segments_last:
  assumes "cp_ccws s \<noteq> []"
  shows "cp_ccws (cp_segments c k bvs s) \<noteq> []
       \<and> ccw_count (last (cp_ccws (cp_segments c k bvs s))) = ccw_count (last (cp_ccws s))
       \<and> (CCW_FLAG_SLI \<in> flags (last (cp_ccws (cp_segments c k bvs s)))
           \<longleftrightarrow> CCW_FLAG_SLI \<in> flags (last (cp_ccws s)))"
  using assms
proof (induction bvs arbitrary: k s)
  case Nil
  then show ?case by simp
next
  case (Cons bv bvs)
  define s1 where "s1 = (case (if dasd_page_cache (cx_ext c) then kmem_cache_alloc (cx_ext c) k else None) of
                  Some cp \<Rightarrow>
                    if cx_dir c = WRITE
                    then s\<lparr>cp_mem := memcpy (cp_mem s) (cp + bv_offset bv)
                                         (bv_page bv + bv_offset bv) (bv_len bv)\<rparr>
                    else s
                | None \<Rightarrow> s)"
  have c1: "cp_ccws s1 = cp_ccws s"
    by (simp add: s1_def split: option.splits)
  define dst where "dst = (case (if dasd_page_cache (cx_ext c) then kmem_cache_alloc (cx_ext c) k else None) of
                      Some cp \<Rightarrow> cp + bv_offset bv | None \<Rightarrow> bv_page bv + bv_offset bv)"
  have n1: "cp_ccws s1 \<noteq> []" using Cons.prems by (simp add: c1)
  note L = cp_segment_loop_last[OF n1, of c "bv_len bv" 0 dst]
  have step: "cp_segments c k (bv # bvs) s
                = cp_segments c (k + 1) bvs (cp_segment_loop c (bv_len bv) 0 dst s1)"
    by (simp add: Let_def s1_def dst_def)
  show ?case
    unfolding step
    using Cons.IH[of "cp_segment_loop c (bv_len bv) 0 dst s1" "k + 1"] L
    by (simp add: c1)
qed

lemma cp_fill_first:
  "cp_ccws (cp_fill x p g req ccw m) \<noteq> []"
  "ccw_count (hd (rev (cp_ccws (cp_fill x p g req ccw m)))) = ccw_count ccw"
  "CCW_FLAG_SLI \<in> flags (hd (rev (cp_ccws (cp_fill x p g req ccw m))))
     \<longleftrightarrow> CCW_FLAG_SLI \<in> flags ccw"
proof -
  define s0 where "s0 = \<lparr>cp_ccws = [ccw], cp_LO = [], cp_idaws = [],
                 cp_recid = g_first_rec g, cp_mem = m\<rparr>"
  define s1 where "s1 = (if \<not> uses_cdl p \<or> g_first_rec g > 2 * g_blk_per_trk g
                then add_locate p (to_int (g_first_trk g))
                       (to_int (g_first_offs g + 1))
                       (to_int ((g_last_rec g + 2 ^ 64 - g_first_rec g + 1) mod 2 ^ 64))
                       (g_cmd g) (to_int (g_blksize g)) s0
                else s0)"
  have n0: "cp_ccws s0 \<noteq> []" by (simp add: s0_def)
  have a: "cp_ccws s1 \<noteq> []" "ccw_count (last (cp_ccws s1)) = ccw_count ccw"
    "CCW_FLAG_SLI \<in> flags (last (cp_ccws s1)) \<longleftrightarrow> CCW_FLAG_SLI \<in> flags ccw"
    using add_locate_last[OF n0] by (simp_all add: s1_def s0_def)
  have f: "cp_fill x p g req ccw m = cp_segments (cp_context x p g req) 0 (segs req) s1"
    by (simp add: cp_fill_def s1_def s0_def Let_def)
  note S = cp_segments_last[OF a(1), of "cp_context x p g req" 0 "segs req"]
  show "cp_ccws (cp_fill x p g req ccw m) \<noteq> []"
    using S by (simp add: f)
  then show "ccw_count (hd (rev (cp_ccws (cp_fill x p g req ccw m)))) = ccw_count ccw"
    "CCW_FLAG_SLI \<in> flags (hd (rev (cp_ccws (cp_fill x p g req ccw m))))
       \<longleftrightarrow> CCW_FLAG_SLI \<in> flags ccw"
    using S a by (simp_all add: f hd_rev)
qed

lemma check_XRC_ccw:
  assumes "check_XRC x p c d = (rc, c', d')" "XRC_supported p"
  shows "ccw_count c' = sizeof_DE x" "CCW_FLAG_SLI \<in> flags c'"
  using assms by (auto simp: check_XRC_def Let_def)

lemma cp_first_ccw_length:
  assumes "cp_first_ccw x p sp g = Some (rc, ccw, pl)" "g_cmd g = CCW_WRITE_MT"
    and "\<not> feature_prefix p" "XRC_supported sp"
  shows "ccw_count ccw = sizeof_DE x" "CCW_FLAG_SLI \<in> flags ccw"
proof -
  obtain d1 where "check_XRC x sp
      \<lparr>cmd_code = CCW_DEFINE_EXTENT, flags = {}, ccw_count = 16, cda = To_payload\<rparr>
      (DE_zero\<lparr>mask_perm := 0x02, attr_operation := attrib_operation sp\<rparr>) = (rc, ccw, d1)"
    using assms(1,2,3)
    by (auto simp: cp_first_ccw_def define_extent_def de_switch_def Let_def
        split: prod.splits if_splits option.splits)
  from check_XRC_ccw[OF this assms(4)]
  show "ccw_count ccw = sizeof_DE x" "CCW_FLAG_SLI \<in> flags ccw" by simp_all
qed

lemma build_cp_write_stamp:
  assumes v: "cp_validate x (privs st (base block)) block req = Ok g"
    and w: "rq_data_dir req = WRITE"
    and a: "smalloc_error x (fst (cp_sizes x (privs st (base block)) g))
                            (snd (cp_sizes x (privs st (base block)) g)) = None"
    and h: "rdc_trk_per_cyl (privs st (base block)) \<noteq> 0" "rdc_trk_per_cyl (privs st sd) \<noteq> 0"
    and xrc: "XRC_supported (if feature_prefix (privs st (base block))
                             then privs st (base block) else privs st sd)"
  shows "fst (get_sync_clock x) \<noteq> Some EAGAIN \<Longrightarrow>
           \<exists>cqr st'. dasd_eckd_build_cp x st sd block req = (Ok cqr, st')
              \<and> ga_extended (payload_de (payload cqr)) AND 0x0a = 0x0a
              \<and> ep_sys_time (payload_de (payload cqr))
                    = (case snd (get_sync_clock x) of None \<Rightarrow> 0 | Some t \<Rightarrow> t)
              \<and> (\<forall>pfx. payload cqr = PFX_payload pfx \<longrightarrow> validity_time_stamp pfx)
              \<and> (\<not> feature_prefix (privs st (base block)) \<longrightarrow>
                    ccw_count (hd (cpaddr cqr)) = sizeof_DE x
                    \<and> CCW_FLAG_SLI \<in> flags (hd (cpaddr cqr)))"
    and "fst (get_sync_clock x) = Some EAGAIN \<Longrightarrow>
           dasd_eckd_build_cp x st sd block req = (Err EAGAIN, st)"
proof -
  define xp where "xp = (if feature_prefix (privs st (base block))
                         then privs st (base block) else privs st sd)"
  have hx: "rdc_trk_per_cyl xp \<noteq> 0" using h by (simp add: xp_def)
  obtain rc ccw pl where f: "cp_first_ccw x (privs st (base block)) (privs st sd) g = Some (rc, ccw, pl)"
    using cp_first_ccw_Some[of "privs st (base block)" "privs st sd" x g] hx
    by (auto simp: xp_def)
  have cmd: "g_cmd g = CCW_WRITE_MT"
    using cp_validate_Ok(5)[OF v] w by simp
  have rc: "rc = xrc_rc x xp"
    using cp_first_ccw_rc(2)[OF f cmd] by (simp add: xp_def)
  note S = cp_first_ccw_stamp[OF f cmd xrc]
  show "\<exists>cqr st'. dasd_eckd_build_cp x st sd block req = (Ok cqr, st')
              \<and> ga_extended (payload_de (payload cqr)) AND 0x0a = 0x0a
              \<and> ep_sys_time (payload_de (payload cqr))
                    = (case snd (get_sync_clock x) of None \<Rightarrow> 0 | Some t \<Rightarrow> t)
              \<and> (\<forall>pfx. payload cqr = PFX_payload pfx \<longrightarrow> validity_time_stamp pfx)
              \<and> (\<not> feature_prefix (privs st (base block)) \<longrightarrow>
                    ccw_count (hd (cpaddr cqr)) = sizeof_DE x
                    \<and> CCW_FLAG_SLI \<in> flags (hd (cpaddr cqr)))"
    if "fst (get_sync_clock x) \<noteq> Some EAGAIN"
  proof -
    have n: "rc \<noteq> Some EAGAIN" using that by (simp add: rc xrc_rc_def)
    obtain cqr st' where ok: "dasd_eckd_build_cp x st sd block req = (Ok cqr, st')"
      and pl: "payload cqr = pl"
      using build_cp_succeeds[OF v a f n h(1)] by auto
    have ca: "cpaddr cqr = rev (cp_ccws (cp_fill x (privs st (base block)) g req ccw (mem st)))"
      using ok v a f n h(1) by (auto simp: dasd_eckd_build_cp_def Let_def)
    have "ccw_count (hd (cpaddr cqr)) = sizeof_DE x \<and> CCW_FLAG_SLI \<in> flags (hd (cpaddr cqr))"
      if np: "\<not> feature_prefix (privs st (base block))"
    proof -
      have "XRC_supported (privs st sd)" using xrc np by simp
      from cp_first_ccw_length[OF f cmd np this]
      show ?thesis by (simp add: ca cp_fill_first)
    qed
    then show ?thesis
      using ok pl S by auto
  qed
  show "dasd_eckd_build_cp x st sd block req = (Err EAGAIN, st)"
    if "fst (get_sync_clock x) = Some EAGAIN"
  proof -
    have "rc = Some EAGAIN" using that xrc by (simp add: rc xrc_rc_def xp_def)
    then show ?thesis
      using v a f by (simp add: dasd_eckd_build_cp_def Let_def)
  qed
qed

text \<open>
  Claim C5, as amended. Take a write request that passes validation and gets its
  memory, on devices with a geometry, where the device whose XRC facility is
  consulted (the base device with prefix, else the start device) advertises
  XRC. If the sync clock fails with \<^verbatim>\<open>ENOSYS\<close> or \<^verbatim>\<open>EACCES\<close>, \<^verbatim>\<open>check_XRC\<close>
  returns 0 and \<open>build_cp\<close> returns a request. Its extent is still marked: the
  bits \<^verbatim>\<open>0x08\<close> (Time Stamp Valid) and \<^verbatim>\<open>0x02\<close> (Extended Parameter) of
  \<^verbatim>\<open>ga_extended\<close> are set, a prefix has its time stamp validity bit set, a
  define-extent CCW has the length of the whole structure and the SLI flag, and
  the time stamp field holds what the clock stored before it failed, or 0 if
  it stored nothing. If the clock fails with \<^verbatim>\<open>EAGAIN\<close>, \<^verbatim>\<open>check_XRC\<close> returns it
  and \<open>build_cp\<close> returns \<^verbatim>\<open>EAGAIN\<close> in the state it started from: the request it
  had allocated is freed again and none is returned.
\<close>

theorem xrc_clock_errors:
  assumes v: "cp_validate x (privs st (base block)) block req = Ok g"
    and w: "rq_data_dir req = WRITE"
    and a: "smalloc_error x (fst (cp_sizes x (privs st (base block)) g))
                            (snd (cp_sizes x (privs st (base block)) g)) = None"
    and h: "rdc_trk_per_cyl (privs st (base block)) \<noteq> 0" "rdc_trk_per_cyl (privs st sd) \<noteq> 0"
    and xrc: "XRC_supported (if feature_prefix (privs st (base block))
                             then privs st (base block) else privs st sd)"
  shows "(let xp = (if feature_prefix (privs st (base block))
                     then privs st (base block) else privs st sd);
              rc = fst (get_sync_clock x);
              stored = snd (get_sync_clock x)
          in (rc = Some ENOSYS \<or> rc = Some EACCES \<longrightarrow>
                fst (check_XRC x xp c d) = None
                \<and> (\<exists>cqr st'. dasd_eckd_build_cp x st sd block req = (Ok cqr, st')
                       \<and> ga_extended (payload_de (payload cqr)) AND 0x0a = 0x0a
                       \<and> ep_sys_time (payload_de (payload cqr))
                             = (case stored of None \<Rightarrow> 0 | Some t \<Rightarrow> t)
                       \<and> (\<forall>pfx. payload cqr = PFX_payload pfx \<longrightarrow> validity_time_stamp pfx)
                       \<and> (\<not> feature_prefix (privs st (base block)) \<longrightarrow>
                             ccw_count (hd (cpaddr cqr)) = sizeof_DE x
                             \<and> CCW_FLAG_SLI \<in> flags (hd (cpaddr cqr)))))
           \<and> (rc = Some EAGAIN \<longrightarrow>
                fst (check_XRC x xp c d) = Some EAGAIN
                \<and> dasd_eckd_build_cp x st sd block req = (Err EAGAIN, st)))"
proof -
  define xp where "xp = (if feature_prefix (privs st (base block))
                         then privs st (base block) else privs st sd)"
  have x: "XRC_supported xp" using xrc by (simp add: xp_def)
  note B = build_cp_write_stamp[OF v w a h xrc]
  have un: "fst (check_XRC x xp c d) = None"
    if "fst (get_sync_clock x) = Some ENOSYS \<or> fst (get_sync_clock x) = Some EACCES"
    using that by (auto simp: check_XRC_rc xrc_rc_def)
  have ag: "fst (check_XRC x xp c d) = Some EAGAIN"
    if "fst (get_sync_clock x) = Some EAGAIN"
    using that x by (simp add: check_XRC_rc xrc_rc_def)
  have ok: "\<exists>cqr st'. dasd_eckd_build_cp x st sd block req = (Ok cqr, st')
              \<and> ga_extended (payload_de (payload cqr)) AND 0x0a = 0x0a
              \<and> ep_sys_time (payload_de (payload cqr))
                    = (case snd (get_sync_clock x) of None \<Rightarrow> 0 | Some t \<Rightarrow> t)
              \<and> (\<forall>pfx. payload cqr = PFX_payload pfx \<longrightarrow> validity_time_stamp pfx)
              \<and> (\<not> feature_prefix (privs st (base block)) \<longrightarrow>
                    ccw_count (hd (cpaddr cqr)) = sizeof_DE x
                    \<and> CCW_FLAG_SLI \<in> flags (hd (cpaddr cqr)))"
    if "fst (get_sync_clock x) = Some ENOSYS \<or> fst (get_sync_clock x) = Some EACCES"
    using that by (intro B(1)) auto
  show ?thesis
    unfolding Let_def xp_def[symmetric]
    using un ag ok B(2) by blast
qed

lemma ex_validate_data_x:
  "cp_validate (ex_externals\<lparr>get_sync_clock := clk\<rparr>) ex_private ex_block ex_req_data
     = Ok \<lparr>g_cmd = CCW_WRITE_MT, g_blksize = 4096, g_blk_per_trk = 12, g_first_rec = 24,
           g_first_trk = 2, g_first_offs = 0, g_last_rec = 25, g_last_trk = 2,
           g_count = 2, g_cidaw = 0\<rparr>"
  by (simp add: cp_validate_def Let_def ex_private_def ex_block_def ex_req_data_def ex_bpt
      ex_externals_def drop_bit_eq_div)

theorem xrc_clock_errors_witness:
  "rq_data_dir ex_req_data = WRITE \<and> XRC_supported ex_private
   \<and> get_sync_clock ex_externals = (Some ENOSYS, None)
   \<and> built (dasd_eckd_build_cp ex_externals ex_state 0 ex_block ex_req_data) \<noteq> None
   \<and> ga_extended (payload_de (payload (the (built
         (dasd_eckd_build_cp ex_externals ex_state 0 ex_block ex_req_data))))) AND 0x0a = 0x0a
   \<and> ep_sys_time (payload_de (payload (the (built
         (dasd_eckd_build_cp ex_externals ex_state 0 ex_block ex_req_data))))) = 0
   \<and> ccw_count (hd (cpaddr (the (built
         (dasd_eckd_build_cp ex_externals ex_state 0 ex_block ex_req_data))))) = 32
   \<and> dasd_eckd_build_cp (ex_externals\<lparr>get_sync_clock := (Some EAGAIN, None)\<rparr>)
         ex_state 0 ex_block ex_req_data = (Err EAGAIN, ex_state)"
proof -
  have w: "rq_data_dir ex_req_data = WRITE" by (simp add: ex_req_data_def)
  have p: "rdc_trk_per_cyl (privs ex_state (base ex_block)) \<noteq> 0"
    "rdc_trk_per_cyl (privs ex_state 0) \<noteq> 0"
    "XRC_supported (if feature_prefix (privs ex_state (base ex_block))
                    then privs ex_state (base ex_block) else privs ex_state 0)"
    "XRC_supported ex_private"
    by (simp_all add: ex_private_def)
  have a: "smalloc_error (ex_externals\<lparr>get_sync_clock := clk\<rparr>) cpl dsz = None" for clk cpl dsz
    by (simp add: ex_externals_def)
  have k: "get_sync_clock ex_externals = (Some ENOSYS, None)" by (simp add: ex_externals_def)
  have v1: "cp_validate ex_externals (privs ex_state (base ex_block)) ex_block ex_req_data
       = Ok \<lparr>g_cmd = CCW_WRITE_MT, g_blksize = 4096, g_blk_per_trk = 12, g_first_rec = 24,
           g_first_trk = 2, g_first_offs = 0, g_last_rec = 25, g_last_trk = 2,
           g_count = 2, g_cidaw = 0\<rparr>"
    using ex_validate_data by simp
  have v2: "cp_validate (ex_externals\<lparr>get_sync_clock := (Some EAGAIN, None)\<rparr>)
         (privs ex_state (base ex_block)) ex_block ex_req_data
       = Ok \<lparr>g_cmd = CCW_WRITE_MT, g_blksize = 4096, g_blk_per_trk = 12, g_first_rec = 24,
           g_first_trk = 2, g_first_offs = 0, g_last_rec = 25, g_last_trk = 2,
           g_count = 2, g_cidaw = 0\<rparr>"
    using ex_validate_data_x by simp
  have a1: "smalloc_error ex_externals cpl dsz = None" for cpl dsz
    by (simp add: ex_externals_def)
  from xrc_clock_errors[OF v1 w a1 p(1,2,3), where d = DE_zero
         and c = "\<lparr>cmd_code = CCW_DEFINE_EXTENT, flags = {}, ccw_count = 16, cda = To_payload\<rparr>"] k
  obtain cqr st' where ok: "dasd_eckd_build_cp ex_externals ex_state 0 ex_block ex_req_data = (Ok cqr, st')"
    and g: "ga_extended (payload_de (payload cqr)) AND 0x0a = 0x0a"
    and t: "ep_sys_time (payload_de (payload cqr)) = 0"
    and l: "ccw_count (hd (cpaddr cqr)) = 32"
    by (auto simp: Let_def ex_private_def ex_externals_def)
  have "dasd_eckd_build_cp (ex_externals\<lparr>get_sync_clock := (Some EAGAIN, None)\<rparr>)
         ex_state 0 ex_block ex_req_data = (Err EAGAIN, ex_state)"
    using xrc_clock_errors[OF v2 w a p(1,2,3), where d = DE_zero
         and c = "\<lparr>cmd_code = CCW_DEFINE_EXTENT, flags = {}, ccw_count = 16, cda = To_payload\<rparr>"]
    by (simp add: Let_def)
  then show ?thesis using ok g t l w p(4) k by (simp add: built_def)
qed

text \<open>
  The build does not come out without a time stamp. With the sample clock, which
  fails with \<^verbatim>\<open>ENOSYS\<close> and stores nothing, the extent of the built request has
  Time Stamp Valid and Extended Parameter set and its CCW transfers all 32 bytes
  of the structure, time stamp included; with a clock that stores the
  value 0x1234 before it fails with \<^verbatim>\<open>ENOSYS\<close>, the extent carries that value
  as well.
\<close>

theorem xrc_stamp_counterexample:
  "get_sync_clock ex_externals = (Some ENOSYS, None)
   \<and> built (dasd_eckd_build_cp ex_externals ex_state 0 ex_block ex_req_data) \<noteq> None
   \<and> ga_extended (payload_de (payload (the (built
         (dasd_eckd_build_cp ex_externals ex_state 0 ex_block ex_req_data))))) AND 0x0a = 0x0a
   \<and> ccw_count (hd (cpaddr (the (built
         (dasd_eckd_build_cp ex_externals ex_state 0 ex_block ex_req_data))))) = 32
   \<and> built (dasd_eckd_build_cp (ex_externals\<lparr>get_sync_clock := (Some ENOSYS, Some 0x1234)\<rparr>)
               ex_state 0 ex_block ex_req_data) \<noteq> None
   \<and> ga_extended (payload_de (payload (the (built
         (dasd_eckd_build_cp (ex_externals\<lparr>get_sync_clock := (Some ENOSYS, Some 0x1234)\<rparr>)
            ex_state 0 ex_block ex_req_data))))) AND 0x0a = 0x0a
   \<and> ep_sys_time (payload_de (payload (the (built
         (dasd_eckd_build_cp (ex_externals\<lparr>get_sync_clock := (Some ENOSYS, Some 0x1234)\<rparr>)
            ex_state 0 ex_block ex_req_data))))) = 0x1234"
proof -
  have w: "rq_data_dir ex_req_data = WRITE" by (simp add: ex_req_data_def)
  have p: "rdc_trk_per_cyl (privs ex_state (base ex_block)) \<noteq> 0"
    "rdc_trk_per_cyl (privs ex_state 0) \<noteq> 0"
    "XRC_supported (if feature_prefix (privs ex_state (base ex_block))
                    then privs ex_state (base ex_block) else privs ex_state 0)"
    by (simp_all add: ex_private_def)
  have a: "smalloc_error (ex_externals\<lparr>get_sync_clock := clk\<rparr>) cpl dsz = None" for clk cpl dsz
    by (simp add: ex_externals_def)
  have a1: "smalloc_error ex_externals cpl dsz = None" for cpl dsz
    by (simp add: ex_externals_def)
  have k: "get_sync_clock ex_externals = (Some ENOSYS, None)" by (simp add: ex_externals_def)
  have v1: "cp_validate ex_externals (privs ex_state (base ex_block)) ex_block ex_req_data
       = Ok \<lparr>g_cmd = CCW_WRITE_MT, g_blksize = 4096, g_blk_per_trk = 12, g_first_rec = 24,
           g_first_trk = 2, g_first_offs = 0, g_last_rec = 25, g_last_trk = 2,
           g_count = 2, g_cidaw = 0\<rparr>"
    using ex_validate_data by simp
  have v2: "cp_validate (ex_externals\<lparr>get_sync_clock := (Some ENOSYS, Some 0x1234)\<rparr>)
         (privs ex_state (base ex_block)) ex_block ex_req_data
       = Ok \<lparr>g_cmd = CCW_WRITE_MT, g_blksize = 4096, g_blk_per_trk = 12, g_first_rec = 24,
           g_first_trk = 2, g_first_offs = 0, g_last_rec = 25, g_last_trk = 2,
           g_count = 2, g_cidaw = 0\<rparr>"
    using ex_validate_data_x by simp
  obtain cqr1 st1 where ok1: "dasd_eckd_build_cp ex_externals ex_state 0 ex_block ex_req_data = (Ok cqr1, st1)"
    and g1: "ga_extended (payload_de (payload cqr1)) AND 0x0a = 0x0a"
    and l1: "ccw_count (hd (cpaddr cqr1)) = 32"
    using build_cp_write_stamp(1)[OF v1 w a1 p] k
    by (auto simp: ex_private_def ex_externals_def)
  obtain cqr2 st2 where ok2: "dasd_eckd_build_cp (ex_externals\<lparr>get_sync_clock := (Some ENOSYS, Some 0x1234)\<rparr>)
          ex_state 0 ex_block ex_req_data = (Ok cqr2, st2)"
    and g2: "ga_extended (payload_de (payload cqr2)) AND 0x0a = 0x0a"
    and t2: "ep_sys_time (payload_de (payload cqr2)) = 0x1234"
    using build_cp_write_stamp(1)[OF v2 w a p] by auto
  show ?thesis
    using k ok1 g1 l1 ok2 g2 t2 by (simp add: built_def)
qed




section \<open>The in-flight cap\<close>


lemma build_cp_frame:
  "privs (snd (dasd_eckd_build_cp x st sd block req)) = privs st"
  "ccw_queue (snd (dasd_eckd_build_cp x st sd block req)) = ccw_queue st"
  by (auto simp: dasd_eckd_build_cp_def Let_def split: outcome.splits option.splits)

lemma add_priv_count_fields [simp]:
  "privs (add_priv_count dev d st) = (privs st)(dev := (privs st dev)\<lparr>priv_count := priv_count (privs st dev) + d\<rparr>)"
  "ccw_queue (add_priv_count dev d st) = ccw_queue st"
  "mem (add_priv_count dev d st) = mem st"
  "chunks (add_priv_count dev d st) = chunks st"
  by (simp_all add: add_priv_count_def)

text \<open>
  Claim C9. The cap \<^verbatim>\<open>DASD_ECKD_CHANQ_MAX_SIZE\<close> is 4. When the start device has
  at least 4 requests in flight, \<open>build_alias_cp\<close> returns EBUSY and leaves
  the whole state as it was: no request is built, no counter and no queued
  request changes. Below the cap it returns what the inner \<open>build_cp\<close> returns
  when run for the start device with the counter already incremented, with the
  memory and the allocations that build leaves behind; the queues stay as they
  are. If the inner build returns a request, the counter of the start device
  stays one higher and all other devices are untouched; if it returns an error,
  the counter is decremented again, so all counters are as they were.
\<close>

theorem build_alias_cp_busy:
  "(let sd = (case dasd_alias_get_start_dev x bdev of None \<Rightarrow> bdev | Some d \<Rightarrow> d);
        n = priv_count (privs st sd);
        r = dasd_eckd_build_alias_cp x st bdev block req;
        inner = dasd_eckd_build_cp x (add_priv_count sd 1 st) sd block req
    in DASD_ECKD_CHANQ_MAX_SIZE = 4
     \<and> (4 \<le> n \<longrightarrow> r = (Err EBUSY, st))
     \<and> (n < 4 \<longrightarrow>
          fst r = fst inner
          \<and> mem (snd r) = mem (snd inner) \<and> chunks (snd r) = chunks (snd inner)
          \<and> ccw_queue (snd r) = ccw_queue st
          \<and> (case fst inner of
                Ok cqr \<Rightarrow> priv_count (privs (snd r) sd) = n + 1
                         \<and> (\<forall>d. d \<noteq> sd \<longrightarrow> privs (snd r) d = privs st d)
              | Err e \<Rightarrow> privs (snd r) = privs st
              | Fault \<Rightarrow> True)))"
proof -
  define sd where "sd = (case dasd_alias_get_start_dev x bdev of None \<Rightarrow> bdev | Some d \<Rightarrow> d)"
  define st1 where "st1 = add_priv_count sd 1 st"
  obtain o2 st2 where b: "dasd_eckd_build_cp x st1 sd block req = (o2, st2)"
    by (metis surj_pair)
  have fr: "privs st2 = privs st1" "ccw_queue st2 = ccw_queue st1"
    using build_cp_frame[of x st1 sd block req] by (simp_all add: b)
  have busy: "dasd_eckd_build_alias_cp x st bdev block req = (Err EBUSY, st)"
    if "4 \<le> priv_count (privs st sd)"
    using that by (simp add: dasd_eckd_build_alias_cp_def Let_def sd_def DASD_ECKD_CHANQ_MAX_SIZE_def)
  have free: "dasd_eckd_build_alias_cp x st bdev block req =
      (case o2 of Fault \<Rightarrow> (Fault, st2) | Err e \<Rightarrow> (Err e, add_priv_count sd (- 1) st2)
       | Ok cqr \<Rightarrow> (Ok cqr, st2))"
    if "priv_count (privs st sd) < 4"
    using that b
    by (simp add: dasd_eckd_build_alias_cp_def Let_def sd_def[symmetric] st1_def[symmetric]
        DASD_ECKD_CHANQ_MAX_SIZE_def split: outcome.splits)
  have undo: "privs (add_priv_count sd (- 1) st2) = privs st"
    by (simp add: fr st1_def fun_eq_iff)
  show ?thesis
    unfolding Let_def sd_def[symmetric] st1_def[symmetric] b
    using busy free undo fr
    by (auto simp: DASD_ECKD_CHANQ_MAX_SIZE_def st1_def split: outcome.splits)
qed

lemma build_cp_Ok_if:
  assumes v: "cp_validate x (privs st (base block)) block req = Ok g"
    and a: "smalloc_error x (fst (cp_sizes x (privs st (base block)) g))
                            (snd (cp_sizes x (privs st (base block)) g)) = None"
    and h: "rdc_trk_per_cyl (privs st (base block)) \<noteq> 0" "rdc_trk_per_cyl (privs st sd) \<noteq> 0"
    and n: "xrc_rc x (if feature_prefix (privs st (base block))
                      then privs st (base block) else privs st sd) \<noteq> Some EAGAIN"
  shows "\<exists>cqr st'. dasd_eckd_build_cp x st sd block req = (Ok cqr, st')"
proof -
  have hx: "rdc_trk_per_cyl (if feature_prefix (privs st (base block))
                      then privs st (base block) else privs st sd) \<noteq> 0"
    using h by simp
  obtain rc ccw pl where f: "cp_first_ccw x (privs st (base block)) (privs st sd) g = Some (rc, ccw, pl)"
    using cp_first_ccw_Some[OF hx] by blast
  have "g_cmd g = CCW_READ_MT \<or> g_cmd g = CCW_WRITE_MT"
    using cp_validate_Ok(5)[OF v] by simp
  then have "rc \<noteq> Some EAGAIN"
    using cp_first_ccw_rc[OF f] n by auto
  then show ?thesis using build_cp_succeeds[OF v a f _ h(1)] by blast
qed

theorem build_alias_cp_busy_witness:
  "dasd_alias_get_start_dev ex_externals 0 = None
   \<and> priv_count (privs ex_state_busy 0) = 4
   \<and> dasd_eckd_build_alias_cp ex_externals ex_state_busy 0 ex_block ex_req_data
       = (Err EBUSY, ex_state_busy)
   \<and> priv_count (privs ex_state 0) = 0
   \<and> built (dasd_eckd_build_cp ex_externals (add_priv_count 0 1 ex_state) 0 ex_block ex_req_data)
        \<noteq> None
   \<and> fst (dasd_eckd_build_alias_cp ex_externals ex_state 0 ex_block ex_req_data)
       = fst (dasd_eckd_build_cp ex_externals (add_priv_count 0 1 ex_state) 0 ex_block ex_req_data)
   \<and> priv_count (privs (snd (dasd_eckd_build_alias_cp ex_externals ex_state 0 ex_block
                                ex_req_data)) 0) = 1
   \<and> privs (snd (dasd_eckd_build_alias_cp ex_externals ex_state 0 ex_block ex_req_data)) 7
       = privs ex_state 7
   \<and> fst (dasd_eckd_build_cp (ex_externals\<lparr>get_sync_clock := (Some EAGAIN, None)\<rparr>)
             (add_priv_count 0 1 ex_state) 0 ex_block ex_req_data) = Err EAGAIN
   \<and> fst (dasd_eckd_build_alias_cp (ex_externals\<lparr>get_sync_clock := (Some EAGAIN, None)\<rparr>)
             ex_state 0 ex_block ex_req_data) = Err EAGAIN
   \<and> priv_count (privs (snd (dasd_eckd_build_alias_cp
             (ex_externals\<lparr>get_sync_clock := (Some EAGAIN, None)\<rparr>)
             ex_state 0 ex_block ex_req_data)) 0) = 0"
proof -
  define xa where "xa = ex_externals\<lparr>get_sync_clock := (Some EAGAIN, None)\<rparr>"
  have g: "dasd_alias_get_start_dev ex_externals 0 = None"
    "dasd_alias_get_start_dev xa 0 = None" by (simp_all add: ex_externals_def xa_def)
  have c4: "priv_count (privs ex_state_busy 0) = 4" by (simp add: ex_state_busy_def)
  have c0: "priv_count (privs ex_state 0) = 0" by (simp add: ex_private_def)
  have pc: "priv_count ex_private = 0" by (simp add: ex_private_def)
  define st1 where "st1 = add_priv_count 0 1 ex_state"
  have p1: "privs st1 d = (if d = 0 then ex_private\<lparr>priv_count := 1\<rparr> else ex_private)" for d
    by (simp add: st1_def ex_private_def)
  have b0: "base ex_block = 0" by (simp add: ex_block_def)
  have v: "cp_validate ex_externals (privs st1 (base ex_block)) ex_block ex_req_data
     = Ok \<lparr>g_cmd = CCW_WRITE_MT, g_blksize = 4096, g_blk_per_trk = 12, g_first_rec = 24,
           g_first_trk = 2, g_first_offs = 0, g_last_rec = 25, g_last_trk = 2,
           g_count = 2, g_cidaw = 0\<rparr>"
    and va: "cp_validate xa (privs st1 (base ex_block)) ex_block ex_req_data
     = Ok \<lparr>g_cmd = CCW_WRITE_MT, g_blksize = 4096, g_blk_per_trk = 12, g_first_rec = 24,
           g_first_trk = 2, g_first_offs = 0, g_last_rec = 25, g_last_trk = 2,
           g_count = 2, g_cidaw = 0\<rparr>"
    unfolding b0 p1
    by (simp_all add: cp_validate_def Let_def ex_private_def ex_block_def ex_req_data_def ex_bpt
      ex_externals_def xa_def drop_bit_eq_div)
  have a: "smalloc_error ex_externals cpl dsz = None" "smalloc_error xa cpl dsz = None" for cpl dsz
    by (simp_all add: ex_externals_def xa_def)
  have h: "rdc_trk_per_cyl (privs st1 (base ex_block)) \<noteq> 0" "rdc_trk_per_cyl (privs st1 0) \<noteq> 0"
    unfolding b0 p1 by (simp_all add: ex_private_def)
  have n: "xrc_rc ex_externals (if feature_prefix (privs st1 (base ex_block))
                      then privs st1 (base ex_block) else privs st1 0) \<noteq> Some EAGAIN"
    by (simp add: xrc_rc_def ex_externals_def)
  obtain cqr st' where ok: "dasd_eckd_build_cp ex_externals st1 0 ex_block ex_req_data = (Ok cqr, st')"
    using build_cp_Ok_if[OF v a(1) h n] by blast
  have w: "rq_data_dir ex_req_data = WRITE" by (simp add: ex_req_data_def)
  have xs: "XRC_supported (if feature_prefix (privs st1 (base ex_block))
                      then privs st1 (base ex_block) else privs st1 0)"
    unfolding b0 p1 by (simp add: ex_private_def)
  have er: "dasd_eckd_build_cp xa st1 0 ex_block ex_req_data = (Err EAGAIN, st1)"
    by (rule build_cp_write_stamp(2)[OF va w a(2) h xs]) (simp add: xa_def)
  note T1 = build_alias_cp_busy[where x = ex_externals and bdev = 0 and st = ex_state_busy
          and block = ex_block and req = ex_req_data]
  note T2 = build_alias_cp_busy[where x = ex_externals and bdev = 0 and st = ex_state
          and block = ex_block and req = ex_req_data]
  note T3 = build_alias_cp_busy[where x = xa and bdev = 0 and st = ex_state
          and block = ex_block and req = ex_req_data]
  have r1: "dasd_eckd_build_alias_cp ex_externals ex_state_busy 0 ex_block ex_req_data
       = (Err EBUSY, ex_state_busy)"
    using T1 by (simp add: Let_def g c4)
  have r2: "fst (dasd_eckd_build_alias_cp ex_externals ex_state 0 ex_block ex_req_data) = Ok cqr"
    "priv_count (privs (snd (dasd_eckd_build_alias_cp ex_externals ex_state 0 ex_block
                                ex_req_data)) 0) = 1"
    "privs (snd (dasd_eckd_build_alias_cp ex_externals ex_state 0 ex_block ex_req_data)) 7
       = privs ex_state 7"
    using T2 by (simp_all add: Let_def g pc st1_def[symmetric] ok)
  have r3: "fst (dasd_eckd_build_alias_cp xa ex_state 0 ex_block ex_req_data) = Err EAGAIN"
    "priv_count (privs (snd (dasd_eckd_build_alias_cp xa ex_state 0 ex_block ex_req_data)) 0) = 0"
    using T3 by (simp_all add: Let_def g pc st1_def[symmetric] er)
  show ?thesis
    using g(1) c4 c0 r1 r2 r3
    by (simp add: st1_def[symmetric] xa_def[symmetric] ok er built_def)
qed


section \<open>Padding of special records on read\<close>


























end
